(* ===== verification/Prelude.thy ===== *)
theory Prelude
  imports Complex_Main "HOL-Library.Word" "HOL-Library.Sublist"
begin

section \<open>Shared vocabulary: exceptions, effects, Python strings\<close>

text \<open>
  The generic part of the development. It holds

  \<^item> the exception values the integration raises or lets through (\<open>exn\<close>), with
    Python's class tests as predicates (\<open>is_ttlock\<close>, \<open>is_exception\<close>);
  \<^item> a state-and-exception effect \<open>('s, 'a) eff\<close> with its combinators
    (\<open>m_bind\<close>, \<open>m_catch\<close>, \<open>m_finally\<close>) and a triple \<open>triple P m Q E\<close> with
    composition rules, collected in \<open>triple_intros\<close>;
  \<^item> the part of Python's \<open>str\<close> and \<open>bytes\<close> the source uses, on code points
    up to 255 (\<open>char\<close>): \<open>strip\<close>, \<open>isdigit\<close>, \<open>replace\<close>, \<open>hex\<close> and \<open>fromhex\<close>.
\<close>

subsection \<open>Closed failure vocabulary (access.py)\<close>

text \<open>\<open>AccessFailure\<close>: the integration's own classification of a failed inventory read.\<close>

datatype access_failure =
    AF_BUSY | AF_PREEMPTED | AF_CANCELLED | AF_NO_CANDIDATE | AF_DISCOVERY_TIMEOUT
  | AF_GATT | AF_DEADLINE | AF_CLEANUP | AF_UNKNOWN

fun failure_value :: "access_failure \<Rightarrow> string" where
  "failure_value AF_BUSY = ''connection_busy''"
| "failure_value AF_PREEMPTED = ''inventory_preempted''"
| "failure_value AF_CANCELLED = ''inventory_cancelled''"
| "failure_value AF_NO_CANDIDATE = ''no_advertisement_candidate''"
| "failure_value AF_DISCOVERY_TIMEOUT = ''bluetooth_discovery_timeout''"
| "failure_value AF_GATT = ''gatt_connection_failed''"
| "failure_value AF_DEADLINE = ''read_deadline_exceeded''"
| "failure_value AF_CLEANUP = ''cleanup_uncertain''"
| "failure_value AF_UNKNOWN = ''read_failed''"

subsection \<open>Exceptions as values\<close>

text \<open>
  \<open>Cancelled\<close> is \<open>asyncio.CancelledError\<close>, which is not an \<open>Exception\<close> in Python.
  \<open>InventoryErr\<close> is the class of that name of the SDK: its first component says whether
  that class derives from \<open>TTLockError\<close>, which the source does not show; then its reason,
  its stage and its text.
\<close>

record unknown_info =
  ui_action :: string
  ui_disconnected :: bool
  ui_routed_echoes :: "int list"
  ui_response_unclassified :: bool

datatype exn =
    Cancelled
  | TTLockErr string
  | ControlUnknown unknown_info
  | ControlAborted string string
  | AccessErr access_failure string
  | InventoryErr bool string string string
  | TimeoutErr string
  | RuntimeErr string
  | ValueErr string
  | KeyErr string
  | OtherErr string

fun is_ttlock :: "exn \<Rightarrow> bool" where
  "is_ttlock (TTLockErr _) = True"
| "is_ttlock (ControlUnknown _) = True"
| "is_ttlock (ControlAborted _ _) = True"
| "is_ttlock (AccessErr _ _) = True"
| "is_ttlock (InventoryErr b _ _ _) = b"
| "is_ttlock _ = False"

fun is_timeout :: "exn \<Rightarrow> bool" where
  "is_timeout (TimeoutErr _) = True"
| "is_timeout _ = False"

definition is_exception :: "exn \<Rightarrow> bool" where
  "is_exception e \<longleftrightarrow> e \<noteq> Cancelled"

lemma is_exception_simps [simp]:
  "\<not> is_exception Cancelled"
  "is_exception (TTLockErr m)" "is_exception (ControlUnknown u)"
  "is_exception (ControlAborted a b)" "is_exception (AccessErr f st)"
  "is_exception (InventoryErr t r st m)" "is_exception (TimeoutErr m)"
  "is_exception (RuntimeErr m)" "is_exception (ValueErr m)" "is_exception (KeyErr m)"
  "is_exception (OtherErr m)"
  by (simp_all add: is_exception_def)

lemma is_ttlock_exception: "is_ttlock e \<Longrightarrow> is_exception e"
  by (cases e) simp_all

subsection \<open>Effects: state passing with exceptions\<close>

type_synonym ('s, 'a) eff = "'s \<Rightarrow> (exn + 'a) \<times> 's"

definition m_return :: "'a \<Rightarrow> ('s, 'a) eff" where
  "m_return a = (\<lambda>s. (Inr a, s))"

definition m_raise :: "exn \<Rightarrow> ('s, 'a) eff" where
  "m_raise e = (\<lambda>s. (Inl e, s))"

definition m_gets :: "('s \<Rightarrow> 'a) \<Rightarrow> ('s, 'a) eff" where
  "m_gets f = (\<lambda>s. (Inr (f s), s))"

definition m_modify :: "('s \<Rightarrow> 's) \<Rightarrow> ('s, unit) eff" where
  "m_modify f = (\<lambda>s. (Inr (), f s))"

definition m_bind :: "('s, 'a) eff \<Rightarrow> ('a \<Rightarrow> ('s, 'b) eff) \<Rightarrow> ('s, 'b) eff" where
  "m_bind m f = (\<lambda>s. case m s of (Inl e, s') \<Rightarrow> (Inl e, s') | (Inr a, s') \<Rightarrow> f a s')"

definition m_then :: "('s, 'a) eff \<Rightarrow> ('s, 'b) eff \<Rightarrow> ('s, 'b) eff" where
  "m_then m k = m_bind m (\<lambda>_. k)"

text \<open>\<open>try: m except: h\<close>; a handler that does not match re-raises with \<open>m_raise\<close>.\<close>

definition m_catch :: "('s, 'a) eff \<Rightarrow> (exn \<Rightarrow> ('s, 'a) eff) \<Rightarrow> ('s, 'a) eff" where
  "m_catch m h = (\<lambda>s. case m s of (Inl e, s') \<Rightarrow> h e s' | (Inr a, s') \<Rightarrow> (Inr a, s'))"

text \<open>\<open>try: m finally: f\<close>; an exception of \<open>f\<close> replaces the outcome of \<open>m\<close>.\<close>

definition m_finally :: "('s, 'a) eff \<Rightarrow> ('s, unit) eff \<Rightarrow> ('s, 'a) eff" where
  "m_finally m f = (\<lambda>s. case m s of (r, s') \<Rightarrow>
     (case f s' of (Inl e, s'') \<Rightarrow> (Inl e, s'') | (Inr _, s'') \<Rightarrow> (r, s'')))"

named_theorems eff_defs \<open>the definitions of the effect combinators\<close>

lemmas eff_combinators =
  m_return_def m_raise_def m_gets_def m_modify_def m_bind_def m_then_def m_catch_def m_finally_def

declare eff_combinators [eff_defs]

subsection \<open>Triples\<close>

text \<open>
  \<open>triple P m Q E\<close>: from a state with \<open>P\<close>, a normal return of \<open>m\<close> satisfies \<open>Q\<close>
  and an exception satisfies \<open>E\<close>. \<open>keeps I m\<close>: every outcome of \<open>m\<close> keeps \<open>I\<close>.
\<close>

definition triple ::
  "('s \<Rightarrow> bool) \<Rightarrow> ('s, 'a) eff \<Rightarrow> ('a \<Rightarrow> 's \<Rightarrow> bool) \<Rightarrow> (exn \<Rightarrow> 's \<Rightarrow> bool) \<Rightarrow> bool" where
  "triple P m Q E \<longleftrightarrow>
     (\<forall>s. P s \<longrightarrow> (case m s of (Inl e, s') \<Rightarrow> E e s' | (Inr a, s') \<Rightarrow> Q a s'))"

definition keeps :: "('s \<Rightarrow> bool) \<Rightarrow> ('s, 'a) eff \<Rightarrow> bool" where
  "keeps I m \<longleftrightarrow> (\<forall>s. I s \<longrightarrow> I (snd (m s)))"

named_theorems triple_intros \<open>composition rules of the triples\<close>
named_theorems keeps_intros \<open>composition rules of invariant preservation\<close>

lemma triple_return [triple_intros]: "(\<And>s. P s \<Longrightarrow> Q a s) \<Longrightarrow> triple P (m_return a) Q E"
  by (simp add: triple_def m_return_def)

lemma triple_raise [triple_intros]: "(\<And>s. P s \<Longrightarrow> E e s) \<Longrightarrow> triple P (m_raise e) Q E"
  by (simp add: triple_def m_raise_def)

lemma triple_gets [triple_intros]: "(\<And>s. P s \<Longrightarrow> Q (f s) s) \<Longrightarrow> triple P (m_gets f) Q E"
  by (simp add: triple_def m_gets_def)

lemma triple_modify [triple_intros]:
  "(\<And>s. P s \<Longrightarrow> Q () (f s)) \<Longrightarrow> triple P (m_modify f) Q E"
  by (simp add: triple_def m_modify_def)

lemma triple_bind:
  assumes "triple P m R E" and "\<And>a. triple (R a) (f a) Q E"
  shows "triple P (m_bind m f) Q E"
  using assms unfolding triple_def m_bind_def
  by (auto split: prod.splits sum.splits) fastforce+

lemma triple_then:
  assumes "triple P m R E" and "\<And>a. triple (R a) k Q E"
  shows "triple P (m_then m k) Q E"
  unfolding m_then_def using assms by (rule triple_bind)

lemma triple_catch:
  assumes "triple P m Q R" and "\<And>e. triple (R e) (h e) Q E"
  shows "triple P (m_catch m h) Q E"
  using assms unfolding triple_def m_catch_def
  by (auto split: prod.splits sum.splits) fastforce+

lemma triple_finally:
  assumes "triple P m Q' E'" and "\<And>a. triple (Q' a) f (\<lambda>_. Q a) E" and "\<And>e. triple (E' e) f (\<lambda>_. E e) E"
  shows "triple P (m_finally m f) Q E"
proof -
  have "case m_finally m f s of (Inl e, s') \<Rightarrow> E e s' | (Inr a, s') \<Rightarrow> Q a s'" if P: "P s" for s
  proof (cases "m s")
    case (Pair r t)
    show ?thesis
    proof (cases r)
      case (Inl e)
      with Pair P assms(1) have "E' e t" by (auto simp: triple_def)
      with assms(3) [of e] Pair Inl show ?thesis
        by (auto simp: triple_def m_finally_def split: prod.splits sum.splits)
    next
      case (Inr a)
      with Pair P assms(1) have "Q' a t" by (auto simp: triple_def)
      with assms(2) [of a] Pair Inr show ?thesis
        by (auto simp: triple_def m_finally_def split: prod.splits sum.splits)
    qed
  qed
  then show ?thesis by (simp add: triple_def)
qed

lemma triple_weaken:
  assumes "triple P' m Q' E'" and "\<And>s. P s \<Longrightarrow> P' s"
    and "\<And>a s. Q' a s \<Longrightarrow> Q a s" and "\<And>e s. E' e s \<Longrightarrow> E e s"
  shows "triple P m Q E"
  using assms unfolding triple_def by (auto split: prod.splits sum.splits) fastforce+

lemma triple_conj:
  assumes "triple P m Q E" and "triple P' m Q' E'"
  shows "triple (\<lambda>s. P s \<and> P' s) m (\<lambda>a s. Q a s \<and> Q' a s) (\<lambda>e s. E e s \<and> E' e s)"
  using assms unfolding triple_def by (auto split: prod.splits sum.splits)

lemma triple_if [triple_intros]:
  "(b \<Longrightarrow> triple P m Q E) \<Longrightarrow> (\<not> b \<Longrightarrow> triple P k Q E) \<Longrightarrow> triple P (if b then m else k) Q E"
  by simp

lemma triple_option [triple_intros]:
  "(x = None \<Longrightarrow> triple P m Q E) \<Longrightarrow> (\<And>a. x = Some a \<Longrightarrow> triple P (f a) Q E) \<Longrightarrow>
   triple P (case x of None \<Rightarrow> m | Some a \<Rightarrow> f a) Q E"
  by (cases x) simp_all

text \<open>Reading the state: the value read stays known.\<close>

lemma triple_bind_gets:
  assumes "\<And>a. triple (\<lambda>s. P s \<and> a = g s) (f a) Q E"
  shows "triple P (m_bind (m_gets g) f) Q E"
  using assms by (auto simp: triple_def m_bind_def m_gets_def)

lemma triple_then_modify:
  assumes "triple R k Q E" and "\<And>s. P s \<Longrightarrow> R (f s)"
  shows "triple P (m_then (m_modify f) k) Q E"
  using assms by (auto simp: triple_def m_then_def m_bind_def m_modify_def)

lemma triple_pre: "triple P' m Q E \<Longrightarrow> (\<And>s. P s \<Longrightarrow> P' s) \<Longrightarrow> triple P m Q E"
  by (simp add: triple_def)

lemma triple_post:
  "triple P m Q' E' \<Longrightarrow> (\<And>a s. Q' a s \<Longrightarrow> Q a s) \<Longrightarrow> (\<And>e s. E' e s \<Longrightarrow> E e s) \<Longrightarrow> triple P m Q E"
  by (rule triple_weaken)

lemma triple_use:
  assumes "triple P m Q E" and "P s"
  shows "case m s of (Inl e, s') \<Rightarrow> E e s' | (Inr a, s') \<Rightarrow> Q a s'"
  using assms by (simp add: triple_def)

lemma tripleI:
  assumes "\<And>s r s'. P s \<Longrightarrow> m s = (r, s') \<Longrightarrow>
    (case r of Inl e \<Rightarrow> E e s' | Inr a \<Rightarrow> Q a s')"
  shows "triple P m Q E"
  unfolding triple_def using assms by (metis (mono_tags, lifting) case_prodI2)

lemma triple_result:
  assumes "triple P m Q E" and "P s" and "m s = (r, s')"
  shows "case r of Inl e \<Rightarrow> E e s' | Inr a \<Rightarrow> Q a s'"
  using triple_use [OF assms(1,2)] assms(3) by simp

lemma keeps_triple: "keeps I m \<longleftrightarrow> triple I m (\<lambda>_. I) (\<lambda>_. I)"
proof -
  have "I (snd (m s)) \<longleftrightarrow> (case m s of (Inl e, s') \<Rightarrow> I s' | (Inr a, s') \<Rightarrow> I s')" for s
    by (auto split: prod.splits sum.splits)
  then show ?thesis by (simp add: keeps_def triple_def)
qed

lemma keeps_return [keeps_intros]: "keeps I (m_return a)"
  by (simp add: keeps_def m_return_def)

lemma keeps_raise [keeps_intros]: "keeps I (m_raise e)"
  by (simp add: keeps_def m_raise_def)

lemma keeps_gets [keeps_intros]: "keeps I (m_gets f)"
  by (simp add: keeps_def m_gets_def)

lemma keeps_modify: "(\<And>s. I s \<Longrightarrow> I (f s)) \<Longrightarrow> keeps I (m_modify f)"
  by (simp add: keeps_def m_modify_def)

lemma keeps_bind [keeps_intros]:
  "keeps I m \<Longrightarrow> (\<And>a. keeps I (f a)) \<Longrightarrow> keeps I (m_bind m f)"
  unfolding keeps_triple by (rule triple_bind)

lemma keeps_then [keeps_intros]: "keeps I m \<Longrightarrow> keeps I k \<Longrightarrow> keeps I (m_then m k)"
  unfolding m_then_def by (rule keeps_bind)

lemma keeps_catch [keeps_intros]:
  "keeps I m \<Longrightarrow> (\<And>e. keeps I (h e)) \<Longrightarrow> keeps I (m_catch m h)"
  unfolding keeps_triple by (rule triple_catch)

lemma keeps_finally [keeps_intros]:
  "keeps I m \<Longrightarrow> keeps I f \<Longrightarrow> keeps I (m_finally m f)"
  unfolding keeps_def m_finally_def by (fastforce split: prod.splits sum.splits)

lemma keeps_if [keeps_intros]:
  "(b \<Longrightarrow> keeps I m) \<Longrightarrow> (\<not> b \<Longrightarrow> keeps I k) \<Longrightarrow> keeps I (if b then m else k)"
  by simp

lemma keeps_option [keeps_intros]:
  "(x = None \<Longrightarrow> keeps I m) \<Longrightarrow> (\<And>a. x = Some a \<Longrightarrow> keeps I (f a)) \<Longrightarrow>
   keeps I (case x of None \<Rightarrow> m | Some a \<Rightarrow> f a)"
  by (cases x) simp_all

lemma keepsD: "keeps I m \<Longrightarrow> I s \<Longrightarrow> m s = (r, s') \<Longrightarrow> I s'"
  unfolding keeps_def by (metis snd_conv)

end
