(* ===== verification/PyStr.thy ===== *)
theory PyStr
  imports Prelude
begin

section \<open>The part of Python's str and bytes the source uses\<close>

text \<open>
  A Python string is a list of \<open>char\<close>, read as code points 0 to 255. On that range
  the predicates agree with Python's: \<open>str.isdigit\<close> also accepts the superscripts
  178, 179 and 185, \<open>str.isdecimal\<close> does not, and \<open>str.strip\<close> removes the control
  characters 28 to 31, the next-line character 133 and the no-break space 160 as well
  as ASCII white space. Case conversion is modelled on ASCII letters only. Bytes are
  \<open>8 word\<close>; \<open>bytes.fromhex\<close> skips ASCII white space between (not inside) the pairs.
\<close>

type_synonym byte = "8 word"

definition code :: "char \<Rightarrow> nat" where
  "code c = of_char c"

definition py_space :: "char \<Rightarrow> bool" where
  "py_space c \<longleftrightarrow> (let n = code c in
     (9 \<le> n \<and> n \<le> 13) \<or> (28 \<le> n \<and> n \<le> 32) \<or> n = 133 \<or> n = 160)"

definition py_strip :: "string \<Rightarrow> string" where
  "py_strip s = rev (dropWhile py_space (rev (dropWhile py_space s)))"

definition decimal_char :: "char \<Rightarrow> bool" where
  "decimal_char c \<longleftrightarrow> 48 \<le> code c \<and> code c \<le> 57"

definition digit_char :: "char \<Rightarrow> bool" where
  "digit_char c \<longleftrightarrow> decimal_char c \<or> code c = 178 \<or> code c = 179 \<or> code c = 185"

definition py_isdigit :: "string \<Rightarrow> bool" where
  "py_isdigit s \<longleftrightarrow> s \<noteq> [] \<and> list_all digit_char s"

definition py_isdecimal :: "string \<Rightarrow> bool" where
  "py_isdecimal s \<longleftrightarrow> s \<noteq> [] \<and> list_all decimal_char s"

definition py_replace :: "char \<Rightarrow> string \<Rightarrow> string \<Rightarrow> string" where
  "py_replace a r s = concat (map (\<lambda>c. if c = a then r else [c]) s)"

definition upper_char :: "char \<Rightarrow> char" where
  "upper_char c = (if 97 \<le> code c \<and> code c \<le> 122 then char_of (code c - 32) else c)"

definition lower_char :: "char \<Rightarrow> char" where
  "lower_char c = (if 65 \<le> code c \<and> code c \<le> 90 then char_of (code c + 32) else c)"

definition py_upper :: "string \<Rightarrow> string" where
  "py_upper s = map upper_char s"

definition py_lower :: "string \<Rightarrow> string" where
  "py_lower s = map lower_char s"

text \<open>\<open>str(n)\<close> of an integer, and the zero-padded \<open>%0kd\<close>.\<close>

definition digit_of :: "nat \<Rightarrow> char" where
  "digit_of n = char_of (48 + n)"

fun nat_str :: "nat \<Rightarrow> string" where
  "nat_str n = (if n < 10 then [digit_of n] else nat_str (n div 10) @ [digit_of (n mod 10)])"

declare nat_str.simps [simp del]

definition int_str :: "int \<Rightarrow> string" where
  "int_str i = (if i < 0 then CHR ''-'' # nat_str (nat (- i)) else nat_str (nat i))"

primrec pad_nat :: "nat \<Rightarrow> nat \<Rightarrow> string" where
  "pad_nat 0 n = []"
| "pad_nat (Suc k) n = pad_nat k (n div 10) @ [digit_of (n mod 10)]"

subsection \<open>Hexadecimal\<close>

definition hex_digit :: "nat \<Rightarrow> char" where
  "hex_digit n = (if n < 10 then char_of (48 + n) else char_of (87 + n))"

definition hex_value :: "char \<Rightarrow> nat option" where
  "hex_value c = (let n = code c in
     if 48 \<le> n \<and> n \<le> 57 then Some (n - 48)
     else if 97 \<le> n \<and> n \<le> 102 then Some (n - 87)
     else if 65 \<le> n \<and> n \<le> 70 then Some (n - 55)
     else None)"

definition hex_byte :: "byte \<Rightarrow> string" where
  "hex_byte b = [hex_digit (unat b div 16), hex_digit (unat b mod 16)]"

definition bytes_hex :: "byte list \<Rightarrow> string" where
  "bytes_hex bs = concat (map hex_byte bs)"

definition ascii_space :: "char \<Rightarrow> bool" where
  "ascii_space c \<longleftrightarrow> (9 \<le> code c \<and> code c \<le> 13) \<or> code c = 32"

fun bytes_fromhex :: "string \<Rightarrow> byte list option" where
  "bytes_fromhex [] = Some []"
| "bytes_fromhex [c] = (if ascii_space c then Some [] else None)"
| "bytes_fromhex (c # d # cs) =
     (if ascii_space c then bytes_fromhex (d # cs)
      else case (hex_value c, hex_value d) of
        (Some a, Some b) \<Rightarrow> map_option ((#) (of_nat (16 * a + b))) (bytes_fromhex cs)
      | _ \<Rightarrow> None)"

definition lower_hex :: "string \<Rightarrow> bool" where
  "lower_hex s \<longleftrightarrow> list_all (\<lambda>c. (48 \<le> code c \<and> code c \<le> 57) \<or> (97 \<le> code c \<and> code c \<le> 102)) s"

text \<open>\<open>str.encode()\<close> on code points below 128, one byte each; above, two bytes of UTF-8.\<close>

definition utf8_char :: "char \<Rightarrow> byte list" where
  "utf8_char c = (if code c < 128 then [of_nat (code c)]
     else [of_nat (192 + code c div 64), of_nat (128 + code c mod 64)])"

definition py_encode :: "string \<Rightarrow> byte list" where
  "py_encode s = concat (map utf8_char s)"

subsection \<open>Lemmas\<close>

lemma code_less [simp]: "code c < 256"
  by (simp add: code_def)

lemma code_char_of [simp]: "n < 256 \<Longrightarrow> code (char_of n) = n"
  by (simp add: code_def)

lemma code_eq_iff [simp]: "code c = code d \<longleftrightarrow> c = d"
  by (simp add: code_def)

lemma unat_byte_less [simp]: "unat (b :: byte) < 256"
  using unsigned_less [of b, where ?'a = nat] by simp

lemma hex_value_digit: "n < 16 \<Longrightarrow> hex_value (hex_digit n) = Some n"
  by (auto simp: hex_value_def hex_digit_def)

lemma hex_digit_not_space: "n < 16 \<Longrightarrow> \<not> ascii_space (hex_digit n)"
  by (auto simp: ascii_space_def hex_digit_def)

lemma hex_value_bound: "hex_value c = Some a \<Longrightarrow> a < 16"
  by (auto simp: hex_value_def Let_def split: if_splits)

lemma hex_value_not_space: "hex_value c = Some a \<Longrightarrow> \<not> ascii_space c"
  by (auto simp: hex_value_def ascii_space_def Let_def split: if_splits)

lemma bytes_fromhex_hex: "bytes_fromhex (bytes_hex bs) = Some bs"
proof (induction bs)
  case Nil
  show ?case by (simp add: bytes_hex_def)
next
  case (Cons b bs)
  have b: "unat b < 256" by (rule unat_byte_less)
  have "unat b div 16 < 16" using b by (simp add: less_mult_imp_div_less)
  moreover have "(of_nat (16 * (unat b div 16) + unat b mod 16) :: byte) = b"
    by (subst mult_div_mod_eq) simp
  ultimately show ?case
    using Cons by (simp add: bytes_hex_def hex_byte_def hex_value_digit hex_digit_not_space
        del: of_nat_add of_nat_mult)
qed

lemma length_bytes_hex [simp]: "length (bytes_hex bs) = 2 * length bs"
  by (induction bs) (simp_all add: bytes_hex_def hex_byte_def)

lemma lower_hex_append [simp]: "lower_hex (s @ t) \<longleftrightarrow> lower_hex s \<and> lower_hex t"
  by (simp add: lower_hex_def)

lemma lower_hex_digit: "n < 16 \<Longrightarrow> lower_hex [hex_digit n]"
  by (auto simp: lower_hex_def hex_digit_def)

lemma lower_hex_bytes [simp]: "lower_hex (bytes_hex bs)"
proof (induction bs)
  case Nil
  show ?case by (simp add: bytes_hex_def lower_hex_def)
next
  case (Cons b bs)
  have b: "unat b < 256" by (rule unat_byte_less)
  have "unat b div 16 < 16" using b by (simp add: less_mult_imp_div_less)
  then have "lower_hex (hex_byte b)"
    using lower_hex_digit [of "unat b div 16"] lower_hex_digit [of "unat b mod 16"]
    by (simp add: hex_byte_def lower_hex_def)
  with Cons show ?case by (simp add: bytes_hex_def)
qed

lemma bytes_fromhex_length: "bytes_fromhex s = Some bs \<Longrightarrow> 2 * length bs \<le> length s"
  by (induction s arbitrary: bs rule: bytes_fromhex.induct)
    (auto split: if_splits option.splits)

lemma bytes_fromhex_exact:
  "bytes_fromhex s = Some bs \<Longrightarrow> list_all (\<lambda>c. \<not> ascii_space c) s \<Longrightarrow> length s = 2 * length bs"
  by (induction s arbitrary: bs rule: bytes_fromhex.induct)
    (auto split: if_splits option.splits)

lemma py_isdecimal_isdigit: "py_isdecimal s \<Longrightarrow> py_isdigit s"
  by (auto simp: py_isdecimal_def py_isdigit_def digit_char_def list_all_iff)

lemma length_py_strip: "length (py_strip s) \<le> length s"
  unfolding py_strip_def
  by (metis length_rev length_dropWhile_le order_trans)

lemma py_strip_idem [simp]: "py_strip (py_strip s) = py_strip s"
proof -
  let ?t = "dropWhile py_space s" and ?d = "dropWhile py_space"
  have fix1: "?d (rev (?d (rev ?t))) = rev (?d (rev ?t))"
  proof (cases "rev (?d (rev ?t))")
    case Nil
    then show ?thesis by (metis dropWhile.simps(1))
  next
    case (Cons c cs)
    obtain u where u: "rev ?t = u @ ?d (rev ?t)"
      by (metis takeWhile_dropWhile_id)
    then have "?t = rev (?d (rev ?t)) @ rev u"
      by (metis rev_append rev_rev_ident)
    with Cons have "?t \<noteq> []" and "hd ?t = c" by (simp_all add: hd_append)
    then have "\<not> py_space c" using hd_dropWhile [of py_space s] by auto
    with Cons show ?thesis by simp
  qed
  show ?thesis unfolding py_strip_def using fix1 by simp
qed

lemma length_pad_nat [simp]: "length (pad_nat k n) = k"
  by (induction k arbitrary: n) simp_all

end
