(* ===== verification/ControlClient.thy ===== *)
theory ControlClient
  imports PyStr
begin

section \<open>Command outcome tracking of the SDK client (client.py)\<close>

text \<open>
  \<open>TtlockBleClient\<close> adds to the SDK's client a record of how far one explicit bolt command
  got, so that a failure before the first physical write is told apart from a lost
  acknowledgement. The SDK is the environment: it calls the hooks \<open>_send\<close>, \<open>_answers\<close> and
  the disconnect callback, and its two phases (\<open>_check_user_time\<close>, then \<open>_control_lock\<close>)
  return or raise. One command is a sequence of such events, run by \<open>ctl_step\<close>; the
  coroutine \<open>_ha_run_control\<close> is its program counter. \<open>ctl_run\<close> adds what the code
  relies on: the SDK writes the authentication frame in the first phase only, the control
  frame in the second only, and asks \<open>_answers\<close> about the control command only after it.
\<close>

datatype control_stage =
    BEFORE_AUTH | AUTH_WRITE_STARTED | AUTH_SENT | AUTHENTICATED | CONTROL_WRITE_STARTED
  | CONTROL_FRAME_WRITTEN | CONTROL_ACK_RECEIVED | CONTROL_ACKNOWLEDGED | CONTROL_ACK_REJECTED

text \<open>The command bytes of \<open>ttlock_ble.commands\<close>.\<close>

record sdk_cmds =
  CMD_UNLOCK :: int
  CMD_LOCK :: int
  CMD_CHECK_USER_TIME :: int

datatype action = ALock | AUnlock

fun action_name :: "action \<Rightarrow> string" where
  "action_name ALock = ''lock''"
| "action_name AUnlock = ''unlock''"

fun action_opcode :: "sdk_cmds \<Rightarrow> action \<Rightarrow> int" where
  "action_opcode c ALock = CMD_LOCK c"
| "action_opcode c AUnlock = CMD_UNLOCK c"

record tracker =
  ct_gate_installed :: bool
  ct_opcode :: "int option"
  ct_stage :: control_stage
  ct_frame_written :: bool
  ct_ack_received :: bool
  ct_response_unclassified :: bool
  ct_disconnected :: bool
  ct_routed_echoes :: "int list"
  ct_active :: bool

text \<open>The attributes \<open>__init__\<close> sets; \<open>set_control_allowed\<close> installs the gate.\<close>

definition new_tracker :: tracker where
  "new_tracker = \<lparr>ct_gate_installed = False, ct_opcode = None, ct_stage = BEFORE_AUTH,
     ct_frame_written = False, ct_ack_received = False, ct_response_unclassified = False,
     ct_disconnected = False, ct_routed_echoes = [], ct_active = False\<rparr>"

definition set_control_allowed :: "tracker \<Rightarrow> tracker" where
  "set_control_allowed t = t\<lparr>ct_gate_installed := True\<rparr>"

fun committed_stage :: "control_stage \<Rightarrow> bool" where
  "committed_stage CONTROL_WRITE_STARTED = True"
| "committed_stage CONTROL_FRAME_WRITTEN = True"
| "committed_stage CONTROL_ACK_RECEIVED = True"
| "committed_stage CONTROL_ACKNOWLEDGED = True"
| "committed_stage CONTROL_ACK_REJECTED = True"
| "committed_stage _ = False"

definition control_committed :: "tracker \<Rightarrow> bool" where
  "control_committed t \<longleftrightarrow> ct_active t \<and> committed_stage (ct_stage t)"

definition reset_control_tracking :: "int \<Rightarrow> tracker \<Rightarrow> tracker" where
  "reset_control_tracking opcode t =
     t\<lparr>ct_opcode := Some opcode, ct_stage := BEFORE_AUTH, ct_frame_written := False,
       ct_ack_received := False, ct_response_unclassified := False,
       ct_disconnected := False, ct_routed_echoes := []\<rparr>"

subsection \<open>Hooks\<close>

text \<open>\<open>_send\<close> before and after the SDK's own \<open>_send\<close>; if that raises, only the first part ran.\<close>

definition send_begin :: "sdk_cmds \<Rightarrow> int \<Rightarrow> tracker \<Rightarrow> tracker" where
  "send_begin c command t =
     (if command = CMD_CHECK_USER_TIME c then t\<lparr>ct_stage := AUTH_WRITE_STARTED\<rparr>
      else if Some command = ct_opcode t then t\<lparr>ct_stage := CONTROL_WRITE_STARTED\<rparr>
      else t)"

definition send_end :: "sdk_cmds \<Rightarrow> int \<Rightarrow> tracker \<Rightarrow> tracker" where
  "send_end c command t =
     (if command = CMD_CHECK_USER_TIME c then t\<lparr>ct_stage := AUTH_SENT\<rparr>
      else if Some command = ct_opcode t
        then t\<lparr>ct_frame_written := True, ct_stage := CONTROL_FRAME_WRITTEN\<rparr>
      else t)"

text \<open>
  \<open>_answers\<close> with the decrypted response: its echo and status, or the exception of
  \<open>aes_decrypt\<close> or \<open>parse_response_status\<close>; one that is neither a \<open>RuntimeError\<close> nor a
  \<open>ValueError\<close> leaves the hook without any change.
\<close>

fun is_runtime_or_value :: "exn \<Rightarrow> bool" where
  "is_runtime_or_value (RuntimeErr _) = True"
| "is_runtime_or_value (ValueErr _) = True"
| "is_runtime_or_value e = is_ttlock e"

definition answers_hook :: "int \<Rightarrow> exn + (int \<times> int) \<Rightarrow> tracker \<Rightarrow> tracker" where
  "answers_hook expected decoded t =
     (if Some expected \<noteq> ct_opcode t then t
      else case decoded of
        Inl e \<Rightarrow> if is_runtime_or_value e then t\<lparr>ct_response_unclassified := True\<rparr> else t
      | Inr (echo, status) \<Rightarrow>
          if echo = expected then t\<lparr>ct_ack_received := True, ct_stage := CONTROL_ACK_RECEIVED\<rparr>
          else t\<lparr>ct_routed_echoes := ct_routed_echoes t @ [echo]\<rparr>)"

definition disconnected_hook :: "tracker \<Rightarrow> tracker" where
  "disconnected_hook t = (if ct_active t then t\<lparr>ct_disconnected := True\<rparr> else t)"

definition unknown_outcome :: "action \<Rightarrow> tracker \<Rightarrow> exn" where
  "unknown_outcome a t = ControlUnknown
     \<lparr>ui_action = action_name a, ui_disconnected = ct_disconnected t,
      ui_routed_echoes = ct_routed_echoes t, ui_response_unclassified = ct_response_unclassified t\<rparr>"

subsection \<open>One command as a sequence of events\<close>

datatype ctl_event =
    LockAcquired bool
  | SendBegin int
  | SendEnd int
  | Answer int "exn + (int \<times> int)"
  | LinkDropped
  | PhaseReturn bool
  | PhaseRaise exn

datatype pc = PcLock | PcAuth | PcControl | PcDone "exn + unit"

record ctl =
  tr :: tracker
  act :: action
  point :: pc

text \<open>The boolean of \<open>LockAcquired\<close> and \<open>PhaseReturn\<close> is what the gate answers at that moment.\<close>

definition gate_open :: "tracker \<Rightarrow> bool \<Rightarrow> bool" where
  "gate_open t allowed \<longleftrightarrow> \<not> ct_gate_installed t \<or> allowed"

definition finish :: "exn + unit \<Rightarrow> ctl \<Rightarrow> ctl" where
  "finish r s = s\<lparr>point := PcDone r, tr := (tr s)\<lparr>ct_active := False\<rparr>\<rparr>"

text \<open>The \<open>except\<close> clauses around \<open>_control_lock\<close>.\<close>

definition control_raised :: "exn \<Rightarrow> ctl \<Rightarrow> ctl" where
  "control_raised e s =
     (if e = Cancelled then
        (if \<not> control_committed (tr s) then finish (Inl Cancelled) s
         else finish (Inl (unknown_outcome (act s) (tr s))) s)
      else if ct_ack_received (tr s) then
        finish (Inl e) (s\<lparr>tr := (tr s)\<lparr>ct_stage := CONTROL_ACK_REJECTED\<rparr>\<rparr>)
      else if \<not> control_committed (tr s) then finish (Inl e) s
      else finish (Inl (unknown_outcome (act s) (tr s))) s)"

definition begin_control :: "sdk_cmds \<Rightarrow> action \<Rightarrow> tracker \<Rightarrow> ctl" where
  "begin_control c a t =
     \<lparr>tr = (reset_control_tracking (action_opcode c a) t)\<lparr>ct_active := True\<rparr>, act = a, point = PcLock\<rparr>"

fun ctl_hook :: "sdk_cmds \<Rightarrow> ctl_event \<Rightarrow> tracker \<Rightarrow> tracker" where
  "ctl_hook c (SendBegin k) t = send_begin c k t"
| "ctl_hook c (SendEnd k) t = send_end c k t"
| "ctl_hook c (Answer k d) t = answers_hook k d t"
| "ctl_hook c LinkDropped t = disconnected_hook t"
| "ctl_hook c _ t = t"

definition ctl_step :: "sdk_cmds \<Rightarrow> ctl \<Rightarrow> ctl_event \<Rightarrow> ctl" where
  "ctl_step c s ev = (case (point s, ev) of
     (PcLock, LockAcquired allowed) \<Rightarrow>
        if gate_open (tr s) allowed then s\<lparr>point := PcAuth\<rparr>
        else finish (Inl (ControlAborted (action_name (act s)) ''before authentication'')) s
   | (PcLock, PhaseRaise e) \<Rightarrow> finish (Inl e) s
   | (PcAuth, PhaseRaise e) \<Rightarrow> finish (Inl e) s
   | (PcAuth, PhaseReturn allowed) \<Rightarrow>
        (let s' = s\<lparr>tr := (tr s)\<lparr>ct_stage := AUTHENTICATED\<rparr>\<rparr>
         in if gate_open (tr s') allowed then s'\<lparr>point := PcControl\<rparr>
            else finish (Inl (ControlAborted (action_name (act s)) ''before control'')) s')
   | (PcControl, PhaseRaise e) \<Rightarrow> control_raised e s
   | (PcControl, PhaseReturn _) \<Rightarrow>
        finish (Inr ()) (s\<lparr>tr := (tr s)\<lparr>ct_stage := CONTROL_ACKNOWLEDGED\<rparr>\<rparr>)
   | (_, _) \<Rightarrow> s\<lparr>tr := ctl_hook c ev (tr s)\<rparr>)"

definition ha_run_control :: "sdk_cmds \<Rightarrow> action \<Rightarrow> tracker \<Rightarrow> ctl_event list \<Rightarrow> ctl" where
  "ha_run_control c a t evs = foldl (ctl_step c) (begin_control c a t) evs"

subsection \<open>Error texts\<close>

definition unknown_text :: "unknown_info \<Rightarrow> string" where
  "unknown_text u =
     ui_action u @ '' command may have been sent, but its outcome is unknown because ''
     @ (if ui_response_unclassified u then ''a response arrived but could not be classified safely''
        else if ui_disconnected u then ''the BLE link dropped''
        else ''no matching acknowledgement arrived'')
     @ ''; the command was not retried''"

definition aborted_text :: "string \<Rightarrow> string \<Rightarrow> string" where
  "aborted_text a boundary =
     a @ '' aborted because Home Assistant is shutting down '' @ boundary
     @ ''; no control command was sent''"

fun exn_text :: "exn \<Rightarrow> string" where
  "exn_text Cancelled = []"
| "exn_text (TTLockErr m) = m"
| "exn_text (ControlUnknown u) = unknown_text u"
| "exn_text (ControlAborted a b) = aborted_text a b"
| "exn_text (AccessErr f st) = failure_value f"
| "exn_text (InventoryErr b r st m) = m"
| "exn_text (TimeoutErr m) = m"
| "exn_text (RuntimeErr m) = m"
| "exn_text (ValueErr m) = m"
| "exn_text (KeyErr m) = m"
| "exn_text (OtherErr m) = m"

subsection \<open>Runs the SDK can produce\<close>

fun is_unknown :: "exn \<Rightarrow> bool" where
  "is_unknown (ControlUnknown _) = True"
| "is_unknown _ = False"

text \<open>
  What the SDK may do next. It does not know the integration's \<open>ControlOutcomeUnknownError\<close>;
  hooks of the control command run only once its first write began.
\<close>

definition ok_event :: "sdk_cmds \<Rightarrow> ctl \<Rightarrow> ctl_event \<Rightarrow> bool" where
  "ok_event c s ev = (let opc = action_opcode c (act s) in
     case point s of
       PcLock \<Rightarrow> (case ev of LockAcquired _ \<Rightarrow> True | LinkDropped \<Rightarrow> True
                 | PhaseRaise e \<Rightarrow> \<not> is_unknown e | _ \<Rightarrow> False)
     | PcAuth \<Rightarrow> (case ev of LockAcquired _ \<Rightarrow> False
                 | SendBegin k \<Rightarrow> k \<noteq> opc | SendEnd k \<Rightarrow> k \<noteq> opc | Answer k _ \<Rightarrow> k \<noteq> opc
                 | PhaseRaise e \<Rightarrow> \<not> is_unknown e | _ \<Rightarrow> True)
     | PcControl \<Rightarrow> (case ev of LockAcquired _ \<Rightarrow> False
                 | SendBegin k \<Rightarrow> k \<noteq> CMD_CHECK_USER_TIME c
                 | SendEnd k \<Rightarrow> k \<noteq> CMD_CHECK_USER_TIME c \<and> (k = opc \<longrightarrow> committed_stage (ct_stage (tr s)))
                 | Answer k _ \<Rightarrow> k = opc \<longrightarrow> committed_stage (ct_stage (tr s))
                 | PhaseRaise e \<Rightarrow> \<not> is_unknown e | _ \<Rightarrow> True)
     | PcDone _ \<Rightarrow> False)"

inductive ctl_run :: "sdk_cmds \<Rightarrow> action \<Rightarrow> tracker \<Rightarrow> ctl_event list \<Rightarrow> ctl \<Rightarrow> bool"
  for c a t where
  run_start: "ctl_run c a t [] (begin_control c a t)"
| run_step: "ctl_run c a t evs s \<Longrightarrow> ok_event c s ev \<Longrightarrow> ctl_run c a t (evs @ [ev]) (ctl_step c s ev)"

inductive_cases ctl_run_snoc: "ctl_run c a t (evs @ [ev]) s"

lemma ctl_run_eq: "ctl_run c a t evs s \<Longrightarrow> s = ha_run_control c a t evs"
  by (induction rule: ctl_run.induct) (simp_all add: ha_run_control_def)

text \<open>The invariant: what the tracker and the program counter say about the writes so far.\<close>

definition write_begun :: "sdk_cmds \<Rightarrow> action \<Rightarrow> ctl_event list \<Rightarrow> bool" where
  "write_begun c a evs \<longleftrightarrow> SendBegin (action_opcode c a) \<in> set evs"

definition ctl_inv :: "sdk_cmds \<Rightarrow> action \<Rightarrow> tracker \<Rightarrow> ctl_event list \<Rightarrow> ctl \<Rightarrow> bool" where
  "ctl_inv c a t evs s \<longleftrightarrow>
     act s = a \<and> ct_opcode (tr s) = Some (action_opcode c a)
     \<and> ct_gate_installed (tr s) = ct_gate_installed t
     \<and> (ct_disconnected (tr s) \<longleftrightarrow> LinkDropped \<in> set evs)
     \<and> (case point s of
          PcLock \<Rightarrow> ct_active (tr s) \<and> \<not> committed_stage (ct_stage (tr s))
            \<and> \<not> ct_ack_received (tr s) \<and> \<not> write_begun c a evs
        | PcAuth \<Rightarrow> ct_active (tr s) \<and> \<not> committed_stage (ct_stage (tr s))
            \<and> \<not> ct_ack_received (tr s) \<and> \<not> write_begun c a evs
            \<and> (ct_gate_installed t \<longrightarrow> LockAcquired True \<in> set evs)
        | PcControl \<Rightarrow> ct_active (tr s) \<and> (committed_stage (ct_stage (tr s)) \<longleftrightarrow> write_begun c a evs)
            \<and> (ct_ack_received (tr s) \<longrightarrow> write_begun c a evs)
            \<and> (ct_gate_installed t \<longrightarrow> LockAcquired True \<in> set evs \<and> PhaseReturn True \<in> set evs)
        | PcDone r \<Rightarrow> \<not> ct_active (tr s)
            \<and> (write_begun c a evs \<and> ct_gate_installed t \<longrightarrow>
                 LockAcquired True \<in> set evs \<and> PhaseReturn True \<in> set evs)
            \<and> (case r of
                 Inr _ \<Rightarrow> ct_stage (tr s) = CONTROL_ACKNOWLEDGED
               | Inl e \<Rightarrow>
                   (if is_unknown e then write_begun c a evs \<and> e = unknown_outcome a (tr s)
                    else if ct_stage (tr s) = CONTROL_ACK_REJECTED
                      then write_begun c a evs \<and> ct_ack_received (tr s)
                    else \<not> write_begun c a evs)))"

lemma begin_inv: "ctl_inv c a t [] (begin_control c a t)"
  by (simp add: ctl_inv_def begin_control_def reset_control_tracking_def write_begun_def)

lemmas hook_defs = send_begin_def send_end_def answers_hook_def disconnected_hook_def

lemma committed_ack: "committed_stage st \<Longrightarrow> st \<noteq> AUTHENTICATED \<and> st \<noteq> BEFORE_AUTH"
  by (cases st) simp_all

lemma uncommitted_not_rejected: "\<not> committed_stage st \<Longrightarrow> st \<noteq> CONTROL_ACK_REJECTED"
  by (cases st) simp_all

lemma inv_lock:
  assumes "CMD_CHECK_USER_TIME c \<noteq> action_opcode c a" "ctl_inv c a t evs s" "ok_event c s ev" "point s = PcLock"
  shows "ctl_inv c a t (evs @ [ev]) (ctl_step c s ev)"
  using assms
  by (cases ev) (auto simp: ctl_inv_def ctl_step_def ok_event_def finish_def gate_open_def
      write_begun_def hook_defs Let_def split: if_splits dest: uncommitted_not_rejected)

lemma inv_auth:
  assumes "CMD_CHECK_USER_TIME c \<noteq> action_opcode c a" "ctl_inv c a t evs s" "ok_event c s ev" "point s = PcAuth"
  shows "ctl_inv c a t (evs @ [ev]) (ctl_step c s ev)"
  using assms
  by (cases ev) (auto simp: ctl_inv_def ctl_step_def ok_event_def finish_def gate_open_def
      write_begun_def hook_defs Let_def split: if_splits dest: uncommitted_not_rejected)

lemma inv_raised:
  assumes "ctl_inv c a t evs s" "\<not> is_unknown e" "point s = PcControl"
  shows "ctl_inv c a t (evs @ [PhaseRaise e]) (control_raised e s)"
  using assms
  by (auto simp: ctl_inv_def control_raised_def finish_def control_committed_def
      unknown_outcome_def write_begun_def dest: uncommitted_not_rejected)

lemma inv_control:
  assumes "CMD_CHECK_USER_TIME c \<noteq> action_opcode c a" "ctl_inv c a t evs s" "ok_event c s ev" "point s = PcControl"
  shows "ctl_inv c a t (evs @ [ev]) (ctl_step c s ev)"
proof (cases ev)
  case (PhaseRaise e)
  with assms inv_raised [of c a t evs s e] show ?thesis by (simp add: ctl_step_def ok_event_def)
next
  case (Answer k d)
  with assms show ?thesis
    by (cases d) (auto simp: ctl_inv_def ctl_step_def ok_event_def write_begun_def hook_defs split: if_splits)
qed (use assms in \<open>auto simp: ctl_inv_def ctl_step_def ok_event_def finish_def write_begun_def hook_defs Let_def split: if_splits\<close>)

lemma ctl_run_inv:
  assumes "ctl_run c a t evs s" and "CMD_CHECK_USER_TIME c \<noteq> action_opcode c a"
  shows "ctl_inv c a t evs s"
  using assms
proof (induction rule: ctl_run.induct)
  case run_start
  show ?case by (rule begin_inv)
next
  case (run_step evs s ev)
  then have inv: "ctl_inv c a t evs s" by simp
  show ?case
  proof (cases "point s")
    case PcLock
    with run_step inv show ?thesis by (intro inv_lock)
  next
    case PcAuth
    with run_step inv show ?thesis by (intro inv_auth)
  next
    case PcControl
    with run_step inv show ?thesis by (intro inv_control)
  next
    case (PcDone r)
    with run_step show ?thesis by (simp add: ok_event_def)
  qed
qed

subsection \<open>Properties\<close>

text \<open>
  Claim C17. The classification of a failed bolt command is exact. When the coroutine ends with
  an error: it is \<open>ControlOutcomeUnknownError\<close> only if the first physical write had begun,
  and then it reports whether the link dropped; any other error comes with the stage
  \<open>CONTROL_ACK_REJECTED\<close> only if the write had begun and a matching acknowledgement was
  received; and in every remaining case no control frame was written at all.
\<close>

theorem control_error_exact:
  assumes "CMD_CHECK_USER_TIME c \<noteq> action_opcode c a"
    and "ctl_run c a t evs s" and "point s = PcDone (Inl e)"
  shows "if is_unknown e
      then write_begun c a evs \<and> e = unknown_outcome a (tr s)
        \<and> (ct_disconnected (tr s) \<longleftrightarrow> LinkDropped \<in> set evs)
    else if ct_stage (tr s) = CONTROL_ACK_REJECTED
      then write_begun c a evs \<and> ct_ack_received (tr s)
    else \<not> write_begun c a evs"
  using ctl_run_inv [OF assms(2,1)] assms(3) by (simp add: ctl_inv_def split: if_splits)

definition sample_cmds :: sdk_cmds where
  "sample_cmds = \<lparr>CMD_UNLOCK = 71, CMD_LOCK = 88, CMD_CHECK_USER_TIME = 85\<rparr>"

text \<open>A lock command whose acknowledgement is lost because the link drops after the write.\<close>

definition sample_lost_ack :: "ctl_event list" where
  "sample_lost_ack = [LockAcquired True, SendBegin 85, SendEnd 85, PhaseReturn True,
     SendBegin 88, SendEnd 88, LinkDropped, PhaseRaise (TimeoutErr [])]"

lemma sample_lost_ack_run:
  "ctl_run sample_cmds ALock (set_control_allowed new_tracker) sample_lost_ack
     (ha_run_control sample_cmds ALock (set_control_allowed new_tracker) sample_lost_ack)"
proof -
  let ?run = "ctl_run sample_cmds ALock (set_control_allowed new_tracker)"
  let ?res = "ha_run_control sample_cmds ALock (set_control_allowed new_tracker)"
  have step: "?run evs (?res evs) \<Longrightarrow> ok_event sample_cmds (?res evs) ev \<Longrightarrow> ?run (evs @ [ev]) (?res (evs @ [ev]))"
    for evs ev
    using ctl_run.run_step by (fastforce simp: ha_run_control_def)
  have "?run [] (?res [])" using ctl_run.run_start by (simp add: ha_run_control_def)
  note r = step [OF step [OF step [OF step [OF step [OF step [OF step [OF step [OF this]]]]]]]]
  show ?thesis unfolding sample_lost_ack_def
    by (rule r [of "LockAcquired True" "SendBegin 85" "SendEnd 85" "PhaseReturn True"
          "SendBegin 88" "SendEnd 88" LinkDropped "PhaseRaise (TimeoutErr [])", simplified append.simps])
      (simp_all add: ha_run_control_def begin_control_def ok_event_def ctl_step_def gate_open_def
        sample_cmds_def new_tracker_def set_control_allowed_def reset_control_tracking_def hook_defs)
qed

lemmas ctl_eval = ha_run_control_def begin_control_def ctl_step_def gate_open_def sample_cmds_def
  new_tracker_def set_control_allowed_def reset_control_tracking_def hook_defs control_raised_def
  control_committed_def finish_def unknown_outcome_def

theorem control_error_exact_witness:
  "write_begun sample_cmds ALock sample_lost_ack
    \<and> point (ha_run_control sample_cmds ALock (set_control_allowed new_tracker) sample_lost_ack)
      = PcDone (Inl (ControlUnknown \<lparr>ui_action = ''lock'', ui_disconnected = True,
          ui_routed_echoes = [], ui_response_unclassified = False\<rparr>))"
proof -
  let ?s = "ha_run_control sample_cmds ALock (set_control_allowed new_tracker) sample_lost_ack"
  let ?u = "\<lparr>ui_action = ''lock'', ui_disconnected = True,
          ui_routed_echoes = [], ui_response_unclassified = False\<rparr>"
  have fin: "point ?s = PcDone (Inl (ControlUnknown ?u))"
    by (simp add: sample_lost_ack_def ctl_eval)
  have "CMD_CHECK_USER_TIME sample_cmds \<noteq> action_opcode sample_cmds ALock"
    by (simp add: sample_cmds_def)
  from control_error_exact [OF this sample_lost_ack_run fin] fin show ?thesis by simp
qed

text \<open>
  Claim C18. Shutdown stops a command before its first physical write: with the gate installed, a
  control frame is written only in a run in which the gate answered yes both before the
  authentication and before the control phase.
\<close>

theorem control_write_gated:
  assumes "CMD_CHECK_USER_TIME c \<noteq> action_opcode c a" and "ctl_run c a t evs s"
    and "ct_gate_installed t" and "write_begun c a evs"
  shows "LockAcquired True \<in> set evs \<and> PhaseReturn True \<in> set evs"
  using ctl_run_inv [OF assms(2,1)] assms(3,4) by (auto simp: ctl_inv_def split: pc.splits)

theorem control_write_gated_witness:
  "write_begun sample_cmds ALock sample_lost_ack
    \<and> LockAcquired True \<in> set sample_lost_ack \<and> PhaseReturn True \<in> set sample_lost_ack"
proof -
  have w: "write_begun sample_cmds ALock sample_lost_ack"
    by (simp add: write_begun_def sample_cmds_def sample_lost_ack_def)
  have "CMD_CHECK_USER_TIME sample_cmds \<noteq> action_opcode sample_cmds ALock"
    by (simp add: sample_cmds_def)
  from control_write_gated [OF this sample_lost_ack_run _ w] w show ?thesis
    by (simp add: set_control_allowed_def)
qed

end
