(* ===== verification/Sha256.thy ===== *)
theory Sha256
  imports PyStr
begin

section \<open>hashlib.sha256 and hmac of the standard library\<close>

text \<open>
  SHA-256 and HMAC-SHA-256, as \<open>hashlib\<close> and \<open>hmac\<close> compute them, on lists of
  bytes: the log history hashes record identities with the first, the private credential
  references are tokens of the second. Both digests have 32 bytes, hence 64 lower-case
  hexadecimal digits, which is what the storage schema of the access records demands.
\<close>

unbundle bit_operations_syntax

type_synonym u32 = "32 word"

definition sha_k :: "u32 list" where
  "sha_k =
    [1116352408, 1899447441, 3049323471, 3921009573, 961987163, 1508970993, 2453635748, 2870763221,
     3624381080, 310598401, 607225278, 1426881987, 1925078388, 2162078206, 2614888103, 3248222580,
     3835390401, 4022224774, 264347078, 604807628, 770255983, 1249150122, 1555081692, 1996064986,
     2554220882, 2821834349, 2952996808, 3210313671, 3336571891, 3584528711, 113926993, 338241895,
     666307205, 773529912, 1294757372, 1396182291, 1695183700, 1986661051, 2177026350, 2456956037,
     2730485921, 2820302411, 3259730800, 3345764771, 3516065817, 3600352804, 4094571909, 275423344,
     430227734, 506948616, 659060556, 883997877, 958139571, 1322822218, 1537002063, 1747873779,
     1955562222, 2024104815, 2227730452, 2361852424, 2428436474, 2756734187, 3204031479, 3329325298]"

type_synonym sha_state = "u32 \<times> u32 \<times> u32 \<times> u32 \<times> u32 \<times> u32 \<times> u32 \<times> u32"

definition sha_init :: sha_state where
  "sha_init = (1779033703, 3144134277, 1013904242, 2773480762,
               1359893119, 2600822924, 528734635, 1541459225)"

definition rotr :: "nat \<Rightarrow> u32 \<Rightarrow> u32" where
  "rotr n w = drop_bit n w OR push_bit (32 - n) w"

definition small_sigma0 :: "u32 \<Rightarrow> u32" where
  "small_sigma0 w = rotr 7 w XOR rotr 18 w XOR drop_bit 3 w"

definition small_sigma1 :: "u32 \<Rightarrow> u32" where
  "small_sigma1 w = rotr 17 w XOR rotr 19 w XOR drop_bit 10 w"

definition big_sigma0 :: "u32 \<Rightarrow> u32" where
  "big_sigma0 w = rotr 2 w XOR rotr 13 w XOR rotr 22 w"

definition big_sigma1 :: "u32 \<Rightarrow> u32" where
  "big_sigma1 w = rotr 6 w XOR rotr 11 w XOR rotr 25 w"

text \<open>The message schedule, newest word first; each block starts with its 16 words.\<close>

primrec sha_expand :: "nat \<Rightarrow> u32 list \<Rightarrow> u32 list" where
  "sha_expand 0 ws = ws"
| "sha_expand (Suc n) ws =
     sha_expand n ((small_sigma1 (ws ! 1) + ws ! 6 + small_sigma0 (ws ! 14) + ws ! 15) # ws)"

definition sha_round :: "sha_state \<Rightarrow> u32 \<times> u32 \<Rightarrow> sha_state" where
  "sha_round st kw = (case (st, kw) of ((a, b, c, d, e, f, g, h), (k, w)) \<Rightarrow>
     (let t1 = h + big_sigma1 e + ((e AND f) XOR (NOT e AND g)) + k + w;
          t2 = big_sigma0 a + ((a AND b) XOR (a AND c) XOR (b AND c))
      in (t1 + t2, a, b, c, d + t1, e, f, g)))"

definition sha_add :: "sha_state \<Rightarrow> sha_state \<Rightarrow> sha_state" where
  "sha_add x y = (case (x, y) of ((a, b, c, d, e, f, g, h), (a', b', c', d', e', f', g', h')) \<Rightarrow>
     (a + a', b + b', c + c', d + d', e + e', f + f', g + g', h + h'))"

fun be_words :: "byte list \<Rightarrow> u32 list" where
  "be_words (a # b # c # d # r) =
     of_nat (((unat a * 256 + unat b) * 256 + unat c) * 256 + unat d) # be_words r"
| "be_words _ = []"

definition sha_block :: "sha_state \<Rightarrow> byte list \<Rightarrow> sha_state" where
  "sha_block st block =
     sha_add st (foldl sha_round st (zip sha_k (rev (sha_expand 48 (rev (be_words block))))))"

primrec nat_be :: "nat \<Rightarrow> nat \<Rightarrow> byte list" where
  "nat_be 0 n = []"
| "nat_be (Suc k) n = nat_be k (n div 256) @ [of_nat (n mod 256)]"

definition sha_pad :: "byte list \<Rightarrow> byte list" where
  "sha_pad m = m @ 0x80 # replicate ((119 - length m mod 64) mod 64) 0 @ nat_be 8 (8 * length m)"

function sha_blocks :: "sha_state \<Rightarrow> byte list \<Rightarrow> sha_state" where
  "sha_blocks st m = (if m = [] then st else sha_blocks (sha_block st (take 64 m)) (drop 64 m))"
  by pat_completeness auto
termination
  by (relation "measure (\<lambda>(st, m). length m)") auto

declare sha_blocks.simps [simp del]

definition word_be :: "u32 \<Rightarrow> byte list" where
  "word_be w = nat_be 4 (unat w)"

definition sha256 :: "byte list \<Rightarrow> byte list" where
  "sha256 m = (case sha_blocks sha_init (sha_pad m) of (a, b, c, d, e, f, g, h) \<Rightarrow>
     concat (map word_be [a, b, c, d, e, f, g, h]))"

definition sha256_hexdigest :: "byte list \<Rightarrow> string" where
  "sha256_hexdigest m = bytes_hex (sha256 m)"

subsection \<open>HMAC\<close>

definition hmac_key_block :: "byte list \<Rightarrow> byte list" where
  "hmac_key_block k = (let k' = (if 64 < length k then sha256 k else k)
     in k' @ replicate (64 - length k') 0)"

definition hmac_sha256 :: "byte list \<Rightarrow> byte list \<Rightarrow> byte list" where
  "hmac_sha256 k m = (let kb = hmac_key_block k in
     sha256 (map (\<lambda>b. b XOR 0x5c) kb @ sha256 (map (\<lambda>b. b XOR 0x36) kb @ m)))"

definition hmac_hexdigest :: "byte list \<Rightarrow> byte list \<Rightarrow> string" where
  "hmac_hexdigest k m = bytes_hex (hmac_sha256 k m)"

subsection \<open>Lengths\<close>

lemma length_nat_be [simp]: "length (nat_be k n) = k"
  by (induction k arbitrary: n) simp_all

lemma length_sha256 [simp]: "length (sha256 m) = 32"
  by (auto simp: sha256_def word_be_def split: prod.splits)

lemma length_hmac_sha256 [simp]: "length (hmac_sha256 k m) = 32"
  by (simp add: hmac_sha256_def Let_def)

lemma length_sha256_hexdigest [simp]: "length (sha256_hexdigest m) = 64"
  by (simp add: sha256_hexdigest_def)

lemma length_hmac_hexdigest [simp]: "length (hmac_hexdigest k m) = 64"
  by (simp add: hmac_hexdigest_def)

lemma lower_hex_hmac [simp]: "lower_hex (hmac_hexdigest k m)"
  by (simp add: hmac_hexdigest_def)

text \<open>The padded message is a whole number of 64-byte blocks, as the loop over blocks needs.\<close>

lemma pad_low: "r \<le> 55 \<Longrightarrow> (119 - r) mod 64 = 55 - (r::nat)"
proof -
  assume "r \<le> 55"
  then have "119 - r = 64 + (55 - r)" by linarith
  then have "(119 - r) mod 64 = (55 - r) mod 64" by (metis mod_add_self1)
  then show ?thesis by simp
qed

lemma pad_arith: "((n::nat) + 9 + (119 - n mod 64) mod 64) mod 64 = 0"
proof -
  obtain q r where n: "n = 64 * q + r" and r: "r < 64" and m: "n mod 64 = r"
    by (metis mod_less_divisor mult_div_mod_eq zero_less_numeral)
  show ?thesis
  proof (cases "r \<le> 55")
    case True
    then have "n + 9 + (119 - n mod 64) mod 64 = 64 * (q + 1)"
      unfolding m pad_low [OF True] using n True by simp
    then show ?thesis by (metis mod_mult_self1_is_0)
  next
    case False
    then have "(119 - r) mod 64 = 119 - r" by (simp add: mod_less)
    then have "n + 9 + (119 - n mod 64) mod 64 = 64 * (q + 2)"
      unfolding m using n r by simp
    then show ?thesis by (metis mod_mult_self1_is_0)
  qed
qed

lemma sha_pad_blocks: "length (sha_pad m) mod 64 = 0"
proof -
  have "length (sha_pad m) = length m + 9 + (119 - length m mod 64) mod 64"
    by (simp add: sha_pad_def)
  then show ?thesis by (simp only: pad_arith)
qed

end
