(* ===== verification/LogHistory.thy ===== *)
theory LogHistory
  imports PyDict Sha256 "HOL-Library.Product_Lexorder"
begin

section \<open>Operation-log replay protection (log\_history.py)\<close>

text \<open>
  \<open>TtlockBleLogHistory\<close>: per lock, a deque of the last 512 record identities and the set
  of the same identities; \<open>classify\<close> returns the records that are dated after this
  load's start and whose identity is not in the journal. The datetimes are the naive
  ones of the lock's clock. The interface \<open>journal\<close> states what the loop needs from
  the deque/set pair; it is interpreted on the code's pair.
\<close>

subsection \<open>Datetimes, log entries\<close>

datatype datetime = DateTime (dt_year: nat) (dt_month: nat) (dt_day: nat)
  (dt_hour: nat) (dt_minute: nat) (dt_second: nat) (dt_microsecond: nat)

fun dt_key :: "datetime \<Rightarrow> nat \<times> nat \<times> nat \<times> nat \<times> nat \<times> nat \<times> nat" where
  "dt_key (DateTime y mo d h mi s us) = (y, mo, d, h, mi, s, us)"

lemma dt_key_inj: "dt_key a = dt_key b \<longleftrightarrow> a = b"
  by (cases a; cases b) simp

instantiation datetime :: linorder
begin
definition less_eq_datetime :: "datetime \<Rightarrow> datetime \<Rightarrow> bool" where
  "less_eq_datetime a b \<longleftrightarrow> dt_key a \<le> dt_key b"
definition less_datetime :: "datetime \<Rightarrow> datetime \<Rightarrow> bool" where
  "less_datetime a b \<longleftrightarrow> dt_key a < dt_key b"
instance
  by standard (auto simp: less_eq_datetime_def less_datetime_def less_le_not_le dt_key_inj
      intro: order_trans antisym [of "dt_key _" "dt_key _", unfolded dt_key_inj])
end

definition isoformat :: "datetime \<Rightarrow> string" where
  "isoformat t =
     pad_nat 4 (dt_year t) @ ''-'' @ pad_nat 2 (dt_month t) @ ''-'' @ pad_nat 2 (dt_day t)
     @ ''T'' @ pad_nat 2 (dt_hour t) @ '':'' @ pad_nat 2 (dt_minute t) @ '':''
     @ pad_nat 2 (dt_second t)
     @ (if dt_microsecond t = 0 then [] else ''.'' @ pad_nat 6 (dt_microsecond t))"

text \<open>The fields of the SDK's \<open>LogEntry\<close> that the integration reads.\<close>

record log_entry =
  record_number :: int
  record_type :: int
  operate_date :: "datetime option"
  lock_battery :: int
  uid :: "int option"
  record_id :: "int option"
  key_id :: "int option"
  accessory_battery :: "int option"
  password :: "string option"

text \<open>\<open>_record_identity\<close>: the SHA-256 of the \<open>repr\<close> of six non-secret fields.\<close>

definition repr_opt :: "int option \<Rightarrow> string" where
  "repr_opt x = (case x of None \<Rightarrow> ''None'' | Some i \<Rightarrow> int_str i)"

definition safe_parts_repr :: "log_entry \<Rightarrow> string" where
  "safe_parts_repr e =
     ''('' @ int_str (record_number e) @ '', '' @ int_str (record_type e) @ '', ''
     @ (case operate_date e of None \<Rightarrow> ''None'' | Some t \<Rightarrow> [CHR 39] @ isoformat t @ [CHR 39])
     @ '', '' @ repr_opt (uid e) @ '', '' @ repr_opt (record_id e) @ '', ''
     @ repr_opt (key_id e) @ '')''"

definition record_identity :: "log_entry \<Rightarrow> string" where
  "record_identity e = sha256_hexdigest (py_encode (safe_parts_repr e))"

subsection \<open>State and operations\<close>

definition max_identities :: nat where
  "max_identities = 512"

record log_history =
  startup_cutoff :: datetime
  recent :: "(string, string list) dict"
  recent_sets :: "(string, string set) dict"
  has_store :: bool
  save_scheduled :: bool

definition new_history :: "datetime \<Rightarrow> bool \<Rightarrow> log_history" where
  "new_history now persisted =
     \<lparr>startup_cutoff = now, recent = [], recent_sets = [], has_store = persisted,
      save_scheduled = False\<rparr>"

text \<open>One lock's journal during the loop: the deque and the set beside it.\<close>

type_synonym journal_pair = "string list \<times> string set"

fun journal_push :: "string \<Rightarrow> journal_pair \<Rightarrow> journal_pair" where
  "journal_push k (q, s) =
     (deque_append max_identities k q,
      insert k (if length q = max_identities then s - {hd q} else s))"

definition is_live :: "datetime \<Rightarrow> log_entry \<Rightarrow> bool" where
  "is_live cutoff e = (case operate_date e of None \<Rightarrow> False | Some t \<Rightarrow> cutoff < t)"

text \<open>The loop of \<open>classify\<close>; the second component is the list \<open>live\<close>, the third \<open>changed\<close>.\<close>

fun classify_loop :: "datetime \<Rightarrow> log_entry list \<Rightarrow> journal_pair \<Rightarrow> journal_pair \<times> log_entry list \<times> bool"
where
  "classify_loop cutoff [] j = (j, [], False)"
| "classify_loop cutoff (e # es) j =
     (let k = record_identity e in
      if k \<in> snd j then classify_loop cutoff es j
      else (case classify_loop cutoff es (journal_push k j) of
              (j', live, _) \<Rightarrow> (j', if is_live cutoff e then e # live else live, True)))"

definition classify :: "string \<Rightarrow> log_entry list \<Rightarrow> log_history \<Rightarrow> log_entry list \<times> log_history" where
  "classify mac entries h =
     (let rs = dict_setdefault mac [] (recent h);
          ss = dict_setdefault mac (set (dict_get_or rs mac [])) (recent_sets h)
      in case classify_loop (startup_cutoff h) entries (dict_get_or rs mac [], dict_get_or ss mac {}) of
           ((q, s), live, changed) \<Rightarrow>
             (live, h\<lparr>recent := dict_set mac q rs, recent_sets := dict_set mac s ss,
                      save_scheduled := save_scheduled h \<or> (changed \<and> has_store h)\<rparr>))"

text \<open>\<open>_serialize\<close> and \<open>async_load\<close> (the stored value, \<open>None\<close> when there is no file).\<close>

definition serialize :: "log_history \<Rightarrow> json" where
  "serialize h =
     JDict [(''locks'', JDict (map (\<lambda>(mac, q). (mac, JList (map JStr q))) (recent h)))]"

fun load_lock :: "string \<times> json \<Rightarrow> log_history \<Rightarrow> log_history" where
  "load_lock (mac, JList ids) h =
     (let safe = last_n max_identities (json_strings ids)
      in h\<lparr>recent := dict_set mac safe (recent h),
           recent_sets := dict_set mac (set safe) (recent_sets h)\<rparr>)"
| "load_lock (mac, _) h = h"

fun load_stored :: "json option \<Rightarrow> log_history \<Rightarrow> log_history" where
  "load_stored (Some (JDict d)) h =
     (case dict_get d ''locks'' of
        Some (JDict locks) \<Rightarrow> fold load_lock locks h
      | _ \<Rightarrow> h)"
| "load_stored _ h = h"

definition history_load :: "json option \<Rightarrow> log_history \<Rightarrow> log_history" where
  "history_load stored h = (if has_store h then load_stored stored h else h)"

text \<open>\<open>async_save\<close>: what reaches the store during unload, if there is one.\<close>

definition history_save :: "log_history \<Rightarrow> json option" where
  "history_save h = (if has_store h then Some (serialize h) else None)"

definition journal_of :: "log_history \<Rightarrow> string \<Rightarrow> string list" where
  "journal_of h mac = dict_get_or (recent h) mac []"

subsection \<open>The journal interface\<close>

text \<open>
  What deduplication needs: a bounded journal that answers exactly for its content and
  drops the oldest key when it is full. \<open>feed\<close> is the abstract loop: it returns the
  journal and the keys that were new.
\<close>

fun feed :: "('j \<Rightarrow> 'k \<Rightarrow> bool) \<Rightarrow> ('k \<Rightarrow> 'j \<Rightarrow> 'j) \<Rightarrow> 'k list \<Rightarrow> 'j \<Rightarrow> 'j \<times> 'k list" where
  "feed seen push [] j = (j, [])"
| "feed seen push (k # ks) j =
     (if seen j k then feed seen push ks j
      else (fst (feed seen push ks (push k j)), k # snd (feed seen push ks (push k j))))"

locale journal =
  fixes content :: "'j \<Rightarrow> 'k list"
    and seen :: "'j \<Rightarrow> 'k \<Rightarrow> bool"
    and push :: "'k \<Rightarrow> 'j \<Rightarrow> 'j"
    and invar :: "'j \<Rightarrow> bool"
    and cap :: nat
  assumes cap_pos: "0 < cap"
    and seen_iff: "invar j \<Longrightarrow> seen j k \<longleftrightarrow> k \<in> set (content j)"
    and content_push: "invar j \<Longrightarrow> \<not> seen j k \<Longrightarrow> content (push k j) = last_n cap (content j @ [k])"
    and invar_push: "invar j \<Longrightarrow> \<not> seen j k \<Longrightarrow> invar (push k j)"
    and invar_distinct: "invar j \<Longrightarrow> distinct (content j)"
    and invar_bound: "invar j \<Longrightarrow> length (content j) \<le> cap"
begin

lemma feed_invar: "invar j \<Longrightarrow> invar (fst (feed seen push ks j))"
  by (induction ks arbitrary: j) (simp_all add: invar_push)

lemma feed_content:
  "invar j \<Longrightarrow> content (fst (feed seen push ks j)) = last_n cap (content j @ snd (feed seen push ks j))"
proof (induction ks arbitrary: j)
  case Nil
  then show ?case by (simp add: invar_bound)
next
  case (Cons k ks)
  show ?case
  proof (cases "seen j k")
    case True
    with Cons show ?thesis by simp
  next
    case False
    let ?new = "snd (feed seen push ks (push k j))"
    have "content (fst (feed seen push ks (push k j))) =
        last_n cap (last_n cap (content j @ [k]) @ ?new)"
      using Cons False by (simp add: content_push invar_push)
    then show ?thesis using False by simp
  qed
qed

lemma push_window:
  assumes "invar j" "\<not> seen j k" "Suc m \<le> cap"
  shows "last_n (Suc m) (content (push k j)) = last_n m (content j) @ [k]"
  using assms by (simp add: content_push last_n_last_n last_n_append min_def)

text \<open>The youngest \<open>cap - length ks\<close> keys cannot be reported as new by a feed of \<open>ks\<close>.\<close>

lemma feed_window:
  assumes "invar j" and "m + length ks \<le> cap" and "x \<in> set (last_n m (content j))"
  shows "x \<notin> set (snd (feed seen push ks j))"
  using assms
proof (induction ks arbitrary: j m)
  case Nil
  then show ?case by simp
next
  case (Cons k ks)
  have x: "x \<in> set (content j)"
    using Cons.prems(3) set_last_n [of m "content j"] by blast
  show ?case
  proof (cases "seen j k")
    case True
    with Cons.IH [of j m] Cons.prems show ?thesis by simp
  next
    case False
    then have "x \<noteq> k" using x Cons.prems(1) by (auto simp: seen_iff)
    moreover have "x \<in> set (last_n (Suc m) (content (push k j)))"
      using Cons.prems False by (simp add: push_window)
    then have "x \<notin> set (snd (feed seen push ks (push k j)))"
      using Cons.prems False by (intro Cons.IH [where m = "Suc m"]) (auto simp: invar_push)
    ultimately show ?thesis using False by simp
  qed
qed

lemma feed_new_distinct:
  assumes "invar j" and "length ks \<le> cap"
  shows "distinct (snd (feed seen push ks j))"
  using assms
proof (induction ks arbitrary: j)
  case Nil
  then show ?case by simp
next
  case (Cons k ks)
  show ?case
  proof (cases "seen j k")
    case True
    with Cons show ?thesis by simp
  next
    case False
    have "k \<in> set (last_n 1 (content (push k j)))"
      using push_window [OF Cons.prems(1) False, of 0] Cons.prems(2) by simp
    then have "k \<notin> set (snd (feed seen push ks (push k j)))"
      using Cons.prems False by (intro feed_window [where m = 1]) (auto simp: invar_push)
    then show ?thesis using Cons False by (simp add: invar_push)
  qed
qed

lemma feed_fresh: "invar j \<Longrightarrow> k \<in> set ks \<Longrightarrow> k \<notin> set (content j) \<Longrightarrow> k \<in> set (snd (feed seen push ks j))"
proof (induction ks arbitrary: j)
  case Nil
  then show ?case by simp
next
  case (Cons a ks)
  show ?case
  proof (cases "seen j a")
    case True
    then have "a \<noteq> k" using Cons.prems by (auto simp: seen_iff)
    with True Cons show ?thesis by simp
  next
    case False
    show ?thesis
    proof (cases "k = a")
      case True
      with False show ?thesis by simp
    next
      case ka: False
      have "k \<notin> set (content (push a j))"
        using Cons.prems False ka set_last_n [of cap "content j @ [a]"] by (auto simp: content_push)
      then show ?thesis using Cons.IH [of "push a j"] Cons.prems False ka by (simp add: invar_push)
    qed
  qed
qed

lemma feed_subset: "set (snd (feed seen push ks j)) \<subseteq> set ks"
  by (induction ks arbitrary: j) auto

lemma length_feed: "length (snd (feed seen push ks j)) \<le> length ks"
  by (induction ks arbitrary: j) (auto intro: le_SucI)

text \<open>With room for the whole batch nothing is evicted: every key of it ends in the journal.\<close>

lemma feed_room:
  assumes "invar j" and "length (content j) + length ks \<le> cap"
  shows "set (content (fst (feed seen push ks j))) = set (content j) \<union> set ks"
proof -
  let ?new = "snd (feed seen push ks j)"
  have len: "length (content j @ ?new) \<le> cap"
    using assms(2) length_feed [of ks j] by simp
  then have c: "content (fst (feed seen push ks j)) = content j @ ?new"
    using feed_content [OF assms(1), of ks] by simp
  have "set ks \<subseteq> set (content j) \<union> set ?new"
    using feed_fresh [OF assms(1)] by blast
  with c feed_subset [of ks j] show ?thesis by auto
qed

lemma feed_seen: "invar j \<Longrightarrow> set ks \<subseteq> set (content j) \<Longrightarrow> feed seen push ks j = (j, [])"
  by (induction ks) (auto simp: seen_iff)

lemma feed_again:
  assumes "invar j" and "length (content j) + length ks \<le> cap"
  shows "snd (feed seen push ks (fst (feed seen push ks j))) = []"
  using assms by (simp add: feed_seen feed_invar feed_room)

end

text \<open>The code's deque and set are such a journal, of 512 identities.\<close>

definition pair_ok :: "journal_pair \<Rightarrow> bool" where
  "pair_ok j \<longleftrightarrow> distinct (fst j) \<and> length (fst j) \<le> max_identities \<and> snd j = set (fst j)"

definition pair_seen :: "journal_pair \<Rightarrow> string \<Rightarrow> bool" where
  "pair_seen j k \<longleftrightarrow> k \<in> snd j"

lemma max_identities_pos [simp]: "0 < max_identities"
  by (simp add: max_identities_def)

lemma pair_push_ok:
  assumes "pair_ok j" and "\<not> pair_seen j k"
  shows "pair_ok (journal_push k j)"
proof (cases j)
  case (Pair q s)
  with assms have q: "distinct q" "length q \<le> max_identities" "s = set q" "k \<notin> set q"
    by (auto simp: pair_ok_def pair_seen_def)
  show ?thesis
  proof (cases "length q = max_identities")
    case True
    then obtain a q' where "q = a # q'" using max_identities_pos by (cases q) auto
    with q True Pair show ?thesis by (auto simp: pair_ok_def deque_append_full)
  next
    case False
    with q Pair show ?thesis by (auto simp: pair_ok_def deque_append_room)
  qed
qed

interpretation hist: journal fst pair_seen journal_push pair_ok max_identities
proof (unfold_locales, goal_cases)
  case (3 j k)
  then show ?case by (cases j) (simp add: deque_append_def)
next
  case (4 j k)
  then show ?case by (rule pair_push_ok)
qed (auto simp: pair_ok_def pair_seen_def)

subsection \<open>The loop against the abstract feed\<close>

definition feed_ids :: "log_entry list \<Rightarrow> journal_pair \<Rightarrow> journal_pair \<times> string list" where
  "feed_ids es j = feed pair_seen journal_push (map record_identity es) j"

lemma classify_loop_Cons:
  "classify_loop c (e # es) j =
     (if record_identity e \<in> snd j then classify_loop c es j
      else let r = classify_loop c es (journal_push (record_identity e) j)
           in (fst r, if is_live c e then e # fst (snd r) else fst (snd r), True))"
  by (simp add: Let_def split: prod.split)

lemma feed_ids_Nil: "feed_ids [] j = (j, [])"
  by (simp add: feed_ids_def)

lemma feed_ids_Cons:
  "feed_ids (e # es) j =
     (if record_identity e \<in> snd j then feed_ids es j
      else (fst (feed_ids es (journal_push (record_identity e) j)),
            record_identity e # snd (feed_ids es (journal_push (record_identity e) j))))"
  by (simp add: feed_ids_def pair_seen_def)

declare classify_loop.simps(2) [simp del] journal_push.simps [simp del]

lemmas loop_simps = classify_loop_Cons feed_ids_Nil feed_ids_Cons Let_def

lemma classify_loop_feed:
  "fst (classify_loop c es j) = fst (feed_ids es j)"
  "snd (snd (classify_loop c es j)) \<longleftrightarrow> snd (feed_ids es j) \<noteq> []"
  by (induction es arbitrary: j) (simp_all add: loop_simps)

lemma classify_loop_subseq:
  "subseq (map record_identity (fst (snd (classify_loop c es j)))) (snd (feed_ids es j))"
proof (induction es arbitrary: j)
  case (Cons e es)
  from Cons [of j] Cons [of "journal_push (record_identity e) j"] show ?case
    by (auto simp: loop_simps intro: list_emb_Cons)
qed (simp add: loop_simps)

lemma classify_loop_live:
  "set (fst (snd (classify_loop c es j))) \<subseteq> {e \<in> set es. is_live c e}"
proof (induction es arbitrary: j)
  case (Cons e es)
  from Cons [of j] Cons [of "journal_push (record_identity e) j"] show ?case
    by (auto simp: loop_simps)
qed simp

text \<open>Every new identity is kept by the entry that brought it, when that entry is live.\<close>

lemma classify_loop_complete:
  "k \<in> set (snd (feed_ids es j)) \<Longrightarrow>
   \<exists>e \<in> set es. record_identity e = k \<and> (is_live c e \<longrightarrow> e \<in> set (fst (snd (classify_loop c es j))))"
proof (induction es arbitrary: j)
  case Nil
  then show ?case by (simp add: loop_simps)
next
  case (Cons e es)
  let ?j = "journal_push (record_identity e) j"
  consider "record_identity e \<in> snd j" "k \<in> set (snd (feed_ids es j))"
    | "record_identity e \<notin> snd j" "k = record_identity e"
    | "record_identity e \<notin> snd j" "k \<in> set (snd (feed_ids es ?j))"
    using Cons.prems by (auto simp: loop_simps split: if_splits)
  then show ?case
  proof cases
    case 1
    with Cons.IH [of j] show ?thesis by (auto simp: loop_simps)
  next
    case 2
    then show ?thesis by (auto simp: loop_simps)
  next
    case 3
    with Cons.IH [of ?j] show ?thesis by (auto simp: loop_simps)
  qed
qed

subsection \<open>The invariant of the history\<close>

definition history_ok :: "log_history \<Rightarrow> bool" where
  "history_ok h \<longleftrightarrow>
     dict_ok (recent h) \<and> dict_ok (recent_sets h)
     \<and> set (map fst (recent h)) = set (map fst (recent_sets h))
     \<and> list_all (\<lambda>(mac, q). distinct q \<and> length q \<le> max_identities
          \<and> dict_get (recent_sets h) mac = Some (set q)) (recent h)"

lemma history_ok_pair:
  assumes "history_ok h"
  shows "pair_ok (dict_get_or (dict_setdefault mac [] (recent h)) mac [],
      dict_get_or (dict_setdefault mac (set (dict_get_or (dict_setdefault mac [] (recent h)) mac []))
        (recent_sets h)) mac {})"
proof (cases "dict_get (recent h) mac")
  case None
  then have "dict_get (recent_sets h) mac = None"
    using assms by (auto simp: history_ok_def map_of_eq_None_iff)
  with None show ?thesis by (simp add: dict_get_or_def pair_ok_def)
next
  case (Some q)
  then have "(mac, q) \<in> set (recent h)" by (rule map_of_SomeD)
  with assms have "distinct q \<and> length q \<le> max_identities \<and> dict_get (recent_sets h) mac = Some (set q)"
    by (auto simp: history_ok_def list_all_iff)
  with Some show ?thesis by (simp add: dict_get_or_def pair_ok_def)
qed

lemma history_ok_update:
  assumes "history_ok h" and "pair_ok (q, s)"
  shows "history_ok (h\<lparr>recent := dict_set mac q (dict_setdefault mac [] (recent h)),
      recent_sets := dict_set mac s (dict_setdefault mac x (recent_sets h)),
      save_scheduled := b\<rparr>)"
proof -
  have keys: "fst ` set (dict_setdefault mac y d) = insert mac (fst ` set d)" for y :: 'a and d
    by (auto simp: dict_setdefault_def dom_update split: option.split dest: map_of_SomeD intro: rev_image_eqI)
  have "dict_get (dict_set mac s (dict_setdefault mac x (recent_sets h))) m = Some (set r)
      \<and> distinct r \<and> length r \<le> max_identities"
    if "(m, r) \<in> set (dict_set mac q (dict_setdefault mac [] (recent h)))" for m r
  proof -
    have ok: "dict_ok (dict_set mac q (dict_setdefault mac [] (recent h)))"
      using assms(1) by (simp add: history_ok_def)
    then have get: "dict_get (dict_set mac q (dict_setdefault mac [] (recent h))) m = Some r"
      using that by (rule iffD2 [OF dict_get_iff])
    show ?thesis
    proof (cases "m = mac")
      case True
      with get assms(2) show ?thesis by (simp add: pair_ok_def)
    next
      case False
      with get have "(m, r) \<in> set (recent h)" by (auto dest: map_of_SomeD)
      with assms(1) False show ?thesis by (auto simp: history_ok_def list_all_iff)
    qed
  qed
  moreover have "fst ` set (dict_set mac q (dict_setdefault mac [] (recent h)))
      = fst ` set (dict_set mac s (dict_setdefault mac x (recent_sets h)))"
    using assms(1) by (simp add: dom_update keys history_ok_def)
  ultimately show ?thesis
    using assms(1) by (auto simp: history_ok_def list_all_iff)
qed

lemma new_history_ok: "history_ok (new_history now b)"
  by (simp add: history_ok_def new_history_def)

lemma classify_feed:
  assumes "history_ok h" and "classify mac es h = (live, h')"
  obtains j where "pair_ok j" and "fst j = journal_of h mac"
    and "journal_of h' mac = fst (fst (feed_ids es j))"
    and "live = fst (snd (classify_loop (startup_cutoff h) es j))"
    and "history_ok h'"
proof -
  let ?rs = "dict_setdefault mac [] (recent h)"
  let ?ss = "dict_setdefault mac (set (dict_get_or ?rs mac [])) (recent_sets h)"
  let ?j = "(dict_get_or ?rs mac [], dict_get_or ?ss mac {})"
  obtain q s l ch where loop: "classify_loop (startup_cutoff h) es ?j = ((q, s), l, ch)"
    by (metis surj_pair)
  have ok: "pair_ok ?j" using history_ok_pair [OF assms(1), of mac] .
  have qs: "(q, s) = fst (feed_ids es ?j)"
    using classify_loop_feed(1) [of "startup_cutoff h" es ?j] loop by simp
  have ok': "pair_ok (q, s)"
    unfolding qs feed_ids_def using ok by (rule hist.feed_invar)
  have l: "live = l" and h': "h' = h\<lparr>recent := dict_set mac q ?rs, recent_sets := dict_set mac s ?ss,
      save_scheduled := save_scheduled h \<or> (ch \<and> has_store h)\<rparr>"
    using assms(2) loop by (auto simp: classify_def Let_def)
  show thesis
  proof (rule that [OF ok])
    show "fst ?j = journal_of h mac" by (simp add: journal_of_def dict_get_or_def)
    show "journal_of h' mac = fst (fst (feed_ids es ?j))"
      unfolding h' qs [symmetric] by (simp add: journal_of_def dict_get_or_def)
    show "live = fst (snd (classify_loop (startup_cutoff h) es ?j))" using l loop by simp
    show "history_ok h'" unfolding h' using assms(1) ok' by (rule history_ok_update)
  qed
qed

lemma classify_ok: "history_ok h \<Longrightarrow> history_ok (snd (classify mac es h))"
  by (metis classify_feed prod.collapse)

lemma journal_of_ok: "history_ok h \<Longrightarrow> distinct (journal_of h mac) \<and> length (journal_of h mac) \<le> max_identities"
  using history_ok_pair [of h mac] by (simp add: pair_ok_def journal_of_def dict_get_or_def)

subsection \<open>Saving and loading\<close>

lemma fold_load_lock:
  assumes "distinct (map fst d)" and "\<forall>(m, q) \<in> set d. length q \<le> max_identities"
    and "fst ` set d \<inter> (fst ` set (recent h) \<union> fst ` set (recent_sets h)) = {}"
  shows "fold load_lock (map (\<lambda>(mac, q). (mac, JList (map JStr q))) d) h =
    h\<lparr>recent := recent h @ d, recent_sets := recent_sets h @ map (\<lambda>(m, q). (m, set q)) d\<rparr>"
  using assms
proof (induction d arbitrary: h)
  case Nil
  show ?case by simp
next
  case (Cons p d)
  obtain m q where p: "p = (m, q)" by force
  from Cons.prems p have "m \<notin> fst ` set (recent h)" "m \<notin> fst ` set (recent_sets h)" "length q \<le> max_identities"
    by auto
  then have step: "load_lock (m, JList (map JStr q)) h =
      h\<lparr>recent := recent h @ [(m, q)], recent_sets := recent_sets h @ [(m, set q)]\<rparr>"
    by (simp add: dict_set_fresh)
  let ?h = "h\<lparr>recent := recent h @ [(m, q)], recent_sets := recent_sets h @ [(m, set q)]\<rparr>"
  have "fold load_lock (map (\<lambda>(mac, q). (mac, JList (map JStr q))) (p # d)) h =
      fold load_lock (map (\<lambda>(mac, q). (mac, JList (map JStr q))) d) ?h"
    unfolding p by (simp only: list.map fold_Cons prod.case comp_apply step)
  also have "\<dots> = ?h\<lparr>recent := recent ?h @ d, recent_sets := recent_sets ?h @ map (\<lambda>(m, q). (m, set q)) d\<rparr>"
    using Cons.prems p by (intro Cons.IH) auto
  finally show ?case by (simp add: p)
qed

lemma load_save:
  assumes "history_ok h" and "has_store h"
  shows "recent (history_load (history_save h) (new_history now True)) = recent h"
    and "history_ok (history_load (history_save h) (new_history now True))"
    and "startup_cutoff (history_load (history_save h) (new_history now True)) = now"
proof -
  let ?n = "new_history now True"
  have d: "distinct (map fst (recent h))" "\<forall>(m, q) \<in> set (recent h). length q \<le> max_identities"
    using assms(1) by (auto simp: history_ok_def dict_ok_def list_all_iff)
  have eq: "history_load (history_save h) ?n = ?n\<lparr>recent := recent h,
      recent_sets := map (\<lambda>(m, q). (m, set q)) (recent h)\<rparr>"
    using fold_load_lock [of "recent h" ?n] d assms(2)
    by (simp add: history_load_def history_save_def serialize_def new_history_def)
  have fst_eq: "map fst (map (\<lambda>(m, q). (m, set q)) (recent h)) = map fst (recent h)"
    by (simp add: case_prod_unfold comp_def)
  have ok: "dict_ok (map (\<lambda>(m, q). (m, set q)) (recent h))"
    unfolding dict_ok_def fst_eq by (rule d(1))
  have "dict_get (map (\<lambda>(m, q). (m, set q)) (recent h)) m = Some (set q)"
    if "(m, q) \<in> set (recent h)" for m q
    using that by (intro iffD2 [OF dict_get_iff [OF ok]]) force
  then show "history_ok (history_load (history_save h) ?n)"
    using d ok assms(1) unfolding eq history_ok_def
    by (simp add: fst_eq del: set_map map_map) (auto simp: list_all_iff)
  show "recent (history_load (history_save h) ?n) = recent h" unfolding eq by simp
  show "startup_cutoff (history_load (history_save h) ?n) = now"
    unfolding eq by (simp add: new_history_def)
qed

subsection \<open>Properties\<close>

definition sample_cutoff :: datetime where
  "sample_cutoff = DateTime 2026 8 24 12 0 0 0"

definition sample_entry :: log_entry where
  "sample_entry = \<lparr>record_number = 10, record_type = 4, operate_date = Some (DateTime 2026 8 24 12 0 1 0),
     lock_battery = 80, uid = Some 123, record_id = None, key_id = None,
     accessory_battery = None, password = None\<rparr>"

definition sample_history :: log_history where
  "sample_history = new_history sample_cutoff True"

lemma sample_classify: "fst (classify ''M'' [sample_entry] sample_history) = [sample_entry]"
  by (simp add: classify_def sample_history_def new_history_def dict_get_or_def dict_setdefault_def
      loop_simps sample_entry_def is_live_def sample_cutoff_def less_datetime_def split: prod.split)

text \<open>
  Claim C24. What \<open>classify\<close> returns is new: with a journal in its invariant and a batch that
  fits the journal, no two returned records have the same identity, every returned record
  is one of the batch and dated strictly after this load's start, and its identity is not
  among the youngest \<open>512 - length es\<close> of the journal.
\<close>

theorem classify_sound:
  assumes "history_ok h" and "length es \<le> max_identities"
    and "classify mac es h = (live, h')"
  shows "distinct (map record_identity live)
    \<and> set live \<subseteq> {e \<in> set es. (\<exists>t. operate_date e = Some t \<and> startup_cutoff h < t)
      \<and> record_identity e \<notin> set (last_n (max_identities - length es) (journal_of h mac))}"
proof -
  obtain j where j: "pair_ok j" "fst j = journal_of h mac"
    and live: "live = fst (snd (classify_loop (startup_cutoff h) es j))"
    using assms(1,3) by (rule classify_feed)
  have sub: "subseq (map record_identity live) (snd (feed_ids es j))"
    unfolding live by (rule classify_loop_subseq)
  have "distinct (snd (feed_ids es j))"
    unfolding feed_ids_def using j(1) assms(2) by (intro hist.feed_new_distinct) simp_all
  then have "distinct (map record_identity live)" using sub by (rule distinct_subseq)
  moreover have "set live \<subseteq> {e \<in> set es. is_live (startup_cutoff h) e}"
    unfolding live by (rule classify_loop_live)
  moreover have "record_identity e \<notin> set (last_n (max_identities - length es) (journal_of h mac))"
    if "e \<in> set live" for e
  proof
    assume "record_identity e \<in> set (last_n (max_identities - length es) (journal_of h mac))"
    then have "record_identity e \<notin> set (snd (feed_ids es j))"
      unfolding feed_ids_def j(2) [symmetric] using j(1) assms(2) by (intro hist.feed_window) simp_all
    moreover have "record_identity e \<in> set (snd (feed_ids es j))"
      using that subseq_set [OF sub] by auto
    ultimately show False by simp
  qed
  ultimately show ?thesis by (auto simp: is_live_def split: option.splits)
qed

theorem classify_sound_witness:
  "sample_entry \<in> {e \<in> set [sample_entry]. (\<exists>t. operate_date e = Some t \<and> sample_cutoff < t)
      \<and> record_identity e \<notin> set (last_n (max_identities - 1) (journal_of sample_history ''M''))}"
proof -
  have "history_ok sample_history" by (simp add: sample_history_def new_history_ok)
  moreover have "length [sample_entry] \<le> max_identities" by (simp add: max_identities_def)
  moreover have "classify ''M'' [sample_entry] sample_history
      = ([sample_entry], snd (classify ''M'' [sample_entry] sample_history))"
    by (metis sample_classify prod.collapse)
  ultimately show ?thesis
    using classify_sound [of sample_history "[sample_entry]" "''M''" "[sample_entry]"]
    by (simp add: sample_history_def new_history_def)
qed

text \<open>
  Claim C34. Nothing new is lost: a record of the batch that is dated after this load's start,
  whose identity is neither in the journal nor shared by another record of the batch, is
  returned by \<open>classify\<close>.
\<close>

theorem classify_complete:
  assumes "history_ok h" and "classify mac es h = (live, h')"
    and "e \<in> set es" and "operate_date e = Some t" and "startup_cutoff h < t"
    and "record_identity e \<notin> set (journal_of h mac)"
    and "\<And>e'. e' \<in> set es \<Longrightarrow> record_identity e' = record_identity e \<Longrightarrow> e' = e"
  shows "e \<in> set live"
proof -
  obtain j where j: "pair_ok j" "fst j = journal_of h mac"
    and live: "live = fst (snd (classify_loop (startup_cutoff h) es j))"
    using assms(1,2) by (rule classify_feed)
  have "record_identity e \<in> set (snd (feed_ids es j))"
    unfolding feed_ids_def using j assms(3,6) by (intro hist.feed_fresh) simp_all
  from classify_loop_complete [OF this, of "startup_cutoff h"] obtain e' where
    "e' \<in> set es" "record_identity e' = record_identity e"
    "is_live (startup_cutoff h) e' \<longrightarrow> e' \<in> set live"
    unfolding live by auto
  moreover from this(1,2) have "e' = e" by (rule assms(7))
  ultimately show ?thesis using assms(4,5) by (simp add: is_live_def)
qed

theorem classify_complete_witness:
  "sample_entry \<in> set (fst (classify ''M'' [sample_entry] sample_history))"
  by (rule classify_complete [where h = sample_history and mac = "''M''" and es = "[sample_entry]"
        and h' = "snd (classify ''M'' [sample_entry] sample_history)" and t = "DateTime 2026 8 24 12 0 1 0"])
    (simp_all add: sample_history_def new_history_ok, simp_all add: sample_entry_def new_history_def
      sample_cutoff_def less_datetime_def journal_of_def dict_get_or_def)

text \<open>
  The journal survives an unload: what \<open>async_save\<close> stores, read by
  \<open>async_load\<close> into the history of the next load, is the same journal for every lock, in the
  same order, within its invariant (distinct identities, at most 512 per lock).
\<close>

lemma history_roundtrip:
  assumes "history_ok h" and "has_store h"
  shows "recent (history_load (history_save h) (new_history now True)) = recent h
    \<and> history_ok (history_load (history_save h) (new_history now True))"
  using load_save [OF assms] by simp

lemma history_roundtrip_witness:
  "recent (history_load (history_save sample_history) (new_history sample_cutoff True)) = recent sample_history"
  using history_roundtrip [of sample_history sample_cutoff]
  by (simp add: sample_history_def new_history_ok) (simp add: new_history_def)

text \<open>
  A record is never dispatched again after a restart: when the journal has room for the
  batch, classifying the same batch after saving, loading and starting anew (whatever the
  new start time) returns nothing, whichever records the first classification returned.
\<close>

lemma restart_no_replay:
  assumes "history_ok h" and "has_store h"
    and "length (journal_of h mac) + length es \<le> max_identities"
  shows "fst (classify mac es
    (history_load (history_save (snd (classify mac es h))) (new_history now True))) = []"
proof -
  let ?h1 = "snd (classify mac es h)"
  let ?h2 = "history_load (history_save ?h1) (new_history now True)"
  obtain j where j: "pair_ok j" "fst j = journal_of h mac"
    and j1: "journal_of ?h1 mac = fst (fst (feed_ids es j))" and ok1: "history_ok ?h1"
    by (rule classify_feed [OF assms(1), of mac es "fst (classify mac es h)" ?h1]) simp_all
  have store: "has_store ?h1" using assms(2) by (simp add: classify_def Let_def split: prod.split)
  note l = load_save [OF ok1 store, of now]
  have set1: "set (journal_of ?h1 mac) = set (journal_of h mac) \<union> set (map record_identity es)"
    unfolding j1 feed_ids_def j(2) [symmetric] using j assms(3) by (intro hist.feed_room) simp_all
  obtain j2 where j2: "pair_ok j2" "fst j2 = journal_of ?h2 mac"
    and live: "fst (classify mac es ?h2) = fst (snd (classify_loop (startup_cutoff ?h2) es j2))"
    by (rule classify_feed [OF l(2), of mac es "fst (classify mac es ?h2)" "snd (classify mac es ?h2)"]) simp_all
  have "journal_of ?h2 mac = journal_of ?h1 mac" using l(1) by (simp add: journal_of_def)
  then have "snd (feed_ids es j2) = []"
    unfolding feed_ids_def using set1 j2 by (subst hist.feed_seen) auto
  then have "subseq (map record_identity (fst (classify mac es ?h2))) []"
    unfolding live using classify_loop_subseq by metis
  then show ?thesis by (metis list_emb_Nil2 map_is_Nil_conv)
qed

lemma restart_no_replay_witness:
  "fst (classify ''M'' [sample_entry] sample_history) = [sample_entry]
    \<and> fst (classify ''M'' [sample_entry] (history_load (history_save
        (snd (classify ''M'' [sample_entry] sample_history))) (new_history sample_cutoff True))) = []"
  using restart_no_replay [of sample_history "''M''" "[sample_entry]" sample_cutoff] sample_classify
  by (simp add: sample_history_def new_history_ok)
    (simp add: new_history_def journal_of_def dict_get_or_def max_identities_def)

end
