(* ===== verification/InventoryData.thy ===== *)
theory InventoryData
  imports PyDict
begin

section \<open>Results of an inventory read (SDK values that services.py, connection.py and access\_records.py read)\<close>

text \<open>
  The SDK returns an \<open>InventoryResult\<close> for a method, or an \<open>AdministrativeInventory\<close> with the raw
  records beside such a result, its summary. Only the attributes the integration reads are
  named; whatever else an entry holds, identifiers included, is \<open>ie_rest\<close>. \<open>iv_reason\<close> is the
  value of the reason, \<open>iv_reason_complete\<close> whether it is \<open>InventoryReason.COMPLETE\<close>.
\<close>

record inv_entry =
  ie_validity :: string
  ie_rest :: json

record inv_result =
  iv_entries :: "inv_entry list"
  iv_reason :: string
  iv_reason_complete :: bool
  iv_complete :: bool
  iv_skipped :: int
  iv_interrupted :: bool
  iv_limitation :: json
  iv_diagnostic :: "json option"

record inventory_item =
  it_method :: string
  it_record_type :: string
  it_validity :: string
  it_identifier :: "byte list"

record admin_inventory =
  ai_complete :: bool
  ai_records :: "inventory_item list"

type_synonym admin_result = "admin_inventory \<times> inv_result"

end
