(* ===== verification/ConnState.thy ===== *)
theory ConnState
  imports ControlClient LogHistory InventoryData
begin

section \<open>The connection: state, environment, broadcasts (connection.py)\<close>

text \<open>
  The state of one \<open>TtlockBleConnection\<close> and what surrounds it. A client object is named by
  its generation: the code creates a client only together with a new generation number.
  Home Assistant, the SDK client and the clock are the record \<open>env\<close> of functions on an
  abstract world \<open>'w\<close>; whatever an \<open>await\<close> yields, it also yields the callbacks that ran
  meanwhile (\<open>interf\<close>), which are applied to the state before the coroutine goes on. The
  fields \<open>dispatched\<close> (signals sent) and \<open>sdk_log\<close> (calls made to the SDK and to Home
  Assistant) record effects; the code never reads them.
\<close>

subsection \<open>Constants, intents, candidates\<close>

definition EXPLICIT_CONNECT_SCAN_TIMEOUT :: int where "EXPLICIT_CONNECT_SCAN_TIMEOUT = 25"
definition SPECULATIVE_CACHED_CONNECT_ATTEMPTS :: nat where "SPECULATIVE_CACHED_CONNECT_ATTEMPTS = 1"
definition ROBUST_CONNECT_ATTEMPTS :: nat where "ROBUST_CONNECT_ATTEMPTS = 3"
definition CACHED_CONNECT_TIMEOUT :: rat where "CACHED_CONNECT_TIMEOUT = 16"
definition FRESH_CONNECT_TIMEOUT :: rat where "FRESH_CONNECT_TIMEOUT = 42"
definition RECONNECT_INITIAL_BACKOFF :: rat where "RECONNECT_INITIAL_BACKOFF = 1"
definition RECONNECT_MAX_BACKOFF :: rat where "RECONNECT_MAX_BACKOFF = 300"

datatype intent =
    EXPLICIT_CONTROL | ROUTINE_QUERY | UNKNOWN_BOOTSTRAP | MANAGEMENT | INVENTORY
  | AMBIGUOUS_RECONCILIATION | OPERATION_LOG | BACKGROUND_MAINTENANCE

fun acquisition_budget :: "intent \<Rightarrow> rat" where
  "acquisition_budget EXPLICIT_CONTROL = 60"
| "acquisition_budget MANAGEMENT = 60"
| "acquisition_budget INVENTORY = 16"
| "acquisition_budget UNKNOWN_BOOTSTRAP = 48"
| "acquisition_budget AMBIGUOUS_RECONCILIATION = 48"
| "acquisition_budget _ = 16"

text \<open>\<open>_ConnectionCandidate\<close>, and Home Assistant's two descriptions of a route to a device.\<close>

record candidate =
  cd_device :: string
  cd_resolution :: string
  cd_source :: string
  cd_rssi :: "int option"
  cd_time :: "rat option"

record service_info =
  si_device :: string
  si_source :: string
  si_rssi :: int
  si_time :: rat

record scanner_path =
  sp_device :: string
  sp_source :: string
  sp_rssi :: int

subsection \<open>Effects and interference\<close>

datatype signal = SConnected bool | SLog log_entry | SPush int

datatype sdk_call =
    CCreate nat nat
  | CConnect nat rat
  | CDisconnect nat
  | CScan int
  | CQuery nat
  | CControl nat action
  | CManage nat string
  | CLogRead nat
  | CInventory nat string bool
  | CCancelInventory
  | CSleep rat

datatype interf =
    IfDropped "nat option"
  | IfStop
  | IfControlBegin
  | IfControlEnd
  | IfPush nat int

datatype diag_value = DNone | DStr string | DInt int | DBool bool

record 'w conn =
  lock_mac :: string
  admin_ps :: string
  cooldown :: rat
  client :: "nat option"
  pending :: "nat option"
  cleanup_task :: "nat option"
  next_generation :: nat
  owned_generation :: "nat option"
  listeners :: "nat list"
  inventory_running :: bool
  control_requests :: int
  inventory_diag :: "(string, diag_value) dict"
  acquisition_failure :: access_failure
  advertisement_source :: "string option"
  maintaining :: bool
  closing :: bool
  closing_event :: bool
  disconnected_event :: bool
  conn_history :: log_history
  broadcast_connected :: bool
  reachability :: "string option"
  last_rssi :: "int option"
  dispatched :: "signal list"
  sdk_log :: "sdk_call list"
  world :: 'w

text \<open>\<open>__init__\<close>, for a key with this MAC and admin password.\<close>

definition new_conn :: "string \<Rightarrow> string \<Rightarrow> rat \<Rightarrow> log_history \<Rightarrow> 'w \<Rightarrow> 'w conn" where
  "new_conn m ps cool h w =
     \<lparr>lock_mac = m, admin_ps = ps, cooldown = cool, client = None, pending = None,
      cleanup_task = None, next_generation = 0, owned_generation = None, listeners = [],
      inventory_running = False, control_requests = 0, inventory_diag = [],
      acquisition_failure = AF_NO_CANDIDATE, advertisement_source = None, maintaining = False,
      closing = False, closing_event = False, disconnected_event = False, conn_history = h,
      broadcast_connected = False, reachability = None, last_rssi = None,
      dispatched = [], sdk_log = [], world = w\<rparr>"

text \<open>Results of the awaits that need more than a value or an exception.\<close>

record connect_result =
  cr_outcome :: "exn + unit"
  cr_expired :: bool
  cr_cancelled :: bool

record scan_result =
  sr_deliveries :: "(service_info \<times> rat) list"
  sr_cancelled :: bool
  sr_outcome :: "exn + unit"

text \<open>
  A control task wakes its owner up: events of the SDK for \<open>ctl_step\<close>, cancellations of the
  caller, and other callbacks.
\<close>

datatype wake = WEvent ctl_event | WCancel | WOther interf

record 'w env =
  e_monotonic :: "'w \<Rightarrow> rat \<times> 'w"
  e_ha_time :: "'w \<Rightarrow> rat \<times> 'w"
  e_device :: "'w \<Rightarrow> string option"
  e_last_info :: "'w \<Rightarrow> service_info option"
  e_scanners :: "'w \<Rightarrow> scanner_path list"
  e_learned_interval :: "'w \<Rightarrow> rat option"
  e_reachability :: "'w \<Rightarrow> (exn + string) option"
  e_connected :: "nat \<Rightarrow> 'w \<Rightarrow> bool"
  e_cleanup_confirmed :: "nat \<Rightarrow> 'w \<Rightarrow> bool option"
  e_connect :: "nat \<Rightarrow> rat \<Rightarrow> 'w \<Rightarrow> (connect_result \<times> interf list) \<times> 'w"
  e_disconnect :: "nat \<Rightarrow> 'w \<Rightarrow> ((exn + unit) \<times> interf list) \<times> 'w"
  e_interrupts :: "'w \<Rightarrow> (nat \<times> interf list) \<times> 'w"
  e_scan :: "int \<Rightarrow> 'w \<Rightarrow> (scan_result \<times> interf list) \<times> 'w"
  e_gather :: "'w \<Rightarrow> (bool \<times> interf list) \<times> 'w"
  e_query_state :: "nat \<Rightarrow> 'w \<Rightarrow> ((exn + (int option \<times> int option)) \<times> interf list) \<times> 'w"
  e_operation_log :: "nat \<Rightarrow> int \<Rightarrow> 'w \<Rightarrow> ((exn + log_entry list) \<times> interf list) \<times> 'w"
  e_inventory :: "nat \<Rightarrow> string \<Rightarrow> 'w \<Rightarrow> ((exn + inv_result) \<times> interf list) \<times> 'w"
  e_admin_inventory :: "nat \<Rightarrow> string \<Rightarrow> 'w \<Rightarrow> ((exn + admin_result) \<times> interf list) \<times> 'w"
  e_timeout_expired :: "'w \<Rightarrow> bool"
  e_lock_held :: "'w \<Rightarrow> bool"
  e_control :: "nat \<Rightarrow> action \<Rightarrow> 'w \<Rightarrow> (wake list \<times> exn) \<times> 'w"
  e_reconcile_cancelled :: "'w \<Rightarrow> bool"
  e_sleep :: "rat \<Rightarrow> 'w \<Rightarrow> (bool \<times> interf list) \<times> 'w"
  e_wait_dropped :: "'w \<Rightarrow> (bool \<times> interf list) \<times> 'w"
  e_cmds :: sdk_cmds
  e_locked :: int
  e_unlocked :: int

subsection \<open>Broadcasts and callbacks\<close>

definition broadcast_state :: "bool \<Rightarrow> 'w conn \<Rightarrow> 'w conn" where
  "broadcast_state c s =
     (if c = broadcast_connected s then s
      else s\<lparr>broadcast_connected := c, dispatched := dispatched s @ [SConnected c]\<rparr>)"

definition on_disconnected :: "nat option \<Rightarrow> 'w conn \<Rightarrow> 'w conn" where
  "on_disconnected generation s =
     (if generation \<noteq> None \<and> generation \<noteq> owned_generation s then s
      else broadcast_state False (s\<lparr>disconnected_event := True\<rparr>))"

definition on_event :: "int \<Rightarrow> 'w conn \<Rightarrow> 'w conn" where
  "on_event ev s = s\<lparr>dispatched := dispatched s @ [SPush ev]\<rparr>"

text \<open>The synchronous head of \<open>async_stop\<close>, before it waits for the lock.\<close>

definition stop_begin :: "'w conn \<Rightarrow> 'w conn" where
  "stop_begin s = s\<lparr>closing := True, closing_event := True, disconnected_event := True\<rparr>"

text \<open>
  What may run between an \<open>await\<close> and its return: a disconnect callback, the head of
  \<open>async_stop\<close>, another task's explicit command entering or leaving its counter, a push
  event of a client that has the listener.
\<close>

fun interfere :: "interf \<Rightarrow> 'w conn \<Rightarrow> 'w conn" where
  "interfere (IfDropped g) s = on_disconnected g s"
| "interfere IfStop s = stop_begin s"
| "interfere IfControlBegin s = s\<lparr>control_requests := control_requests s + 1\<rparr>"
| "interfere IfControlEnd s = s\<lparr>control_requests := control_requests s - 1\<rparr>"
| "interfere (IfPush g ev) s = (if g \<in> set (listeners s) then on_event ev s else s)"

definition env_call :: "('w \<Rightarrow> 'a \<times> 'w) \<Rightarrow> ('w conn, 'a) eff" where
  "env_call f = (\<lambda>s. (Inr (fst (f (world s))), s\<lparr>world := snd (f (world s))\<rparr>))"

definition env_peek :: "('w \<Rightarrow> 'a) \<Rightarrow> ('w conn, 'a) eff" where
  "env_peek f = m_gets (\<lambda>s. f (world s))"

definition await :: "('w \<Rightarrow> ('a \<times> interf list) \<times> 'w) \<Rightarrow> ('w conn, 'a) eff" where
  "await f = (\<lambda>s. case f (world s) of ((a, fs), w) \<Rightarrow> (Inr a, fold interfere fs (s\<lparr>world := w\<rparr>)))"

definition call :: "sdk_call \<Rightarrow> ('w conn, unit) eff" where
  "call c = m_modify (\<lambda>s. s\<lparr>sdk_log := sdk_log s @ [c]\<rparr>)"

text \<open>\<open>is_connected\<close>: the installed client, or else the pending one, reports connected.\<close>

definition is_connected :: "'w env \<Rightarrow> 'w conn \<Rightarrow> bool" where
  "is_connected E s = (case (case client s of Some g \<Rightarrow> Some g | None \<Rightarrow> pending s) of
     None \<Rightarrow> False | Some g \<Rightarrow> e_connected E g (world s))"

definition control_is_allowed :: "'w conn \<Rightarrow> bool" where
  "control_is_allowed s \<longleftrightarrow> \<not> closing_event s"

subsection \<open>The ownership invariant\<close>

text \<open>
  At most one client is owned: the installed one or a pending one. The owned generation is
  its name, and never exceeds the counter. The listener is on the installed client alone.
  The announced link state is up only while a client is owned, and the announcements
  alternate, starting with up.
\<close>

definition owned :: "'w conn \<Rightarrow> nat option" where
  "owned s = (case client s of Some g \<Rightarrow> Some g | None \<Rightarrow> pending s)"

fun alternating :: "bool \<Rightarrow> bool list \<Rightarrow> bool" where
  "alternating b [] = True"
| "alternating b (x # xs) = (x = (\<not> b) \<and> alternating x xs)"

fun conn_signals :: "signal list \<Rightarrow> bool list" where
  "conn_signals [] = []"
| "conn_signals (SConnected b # xs) = b # conn_signals xs"
| "conn_signals (_ # xs) = conn_signals xs"

definition last_signal :: "bool list \<Rightarrow> bool" where
  "last_signal bs = (if bs = [] then False else last bs)"

definition own_inv :: "'w conn \<Rightarrow> bool" where
  "own_inv s \<longleftrightarrow>
     (client s \<noteq> None \<longrightarrow> pending s = None)
     \<and> owned_generation s = owned s
     \<and> (\<forall>g. owned s = Some g \<longrightarrow> 0 < g \<and> g \<le> next_generation s)
     \<and> listeners s = (case client s of None \<Rightarrow> [] | Some g \<Rightarrow> [g])
     \<and> (broadcast_connected s \<longrightarrow> owned s \<noteq> None)
     \<and> alternating False (conn_signals (dispatched s))
     \<and> last_signal (conn_signals (dispatched s)) = broadcast_connected s"

definition at_rest :: "'w conn \<Rightarrow> bool" where
  "at_rest s \<longleftrightarrow> own_inv s \<and> cleanup_task s = None"

lemma conn_signals_append [simp]: "conn_signals (xs @ ys) = conn_signals xs @ conn_signals ys"
  by (induction xs rule: conn_signals.induct) simp_all

lemma alternating_snoc [simp]:
  "alternating b (xs @ [x]) \<longleftrightarrow> alternating b xs \<and> x = (\<not> (if xs = [] then b else last xs))"
  by (induction xs arbitrary: b) auto

lemma last_signal_snoc [simp]: "last_signal (xs @ [x]) = x"
  by (simp add: last_signal_def)

lemma owned_frame [simp]:
  "owned (s\<lparr>dispatched := ds\<rparr>) = owned s" "owned (s\<lparr>broadcast_connected := b\<rparr>) = owned s"
  "owned (s\<lparr>world := w\<rparr>) = owned s" "owned (s\<lparr>sdk_log := l\<rparr>) = owned s"
  "owned (s\<lparr>closing := b\<rparr>) = owned s" "owned (s\<lparr>closing_event := b\<rparr>) = owned s"
  "owned (s\<lparr>disconnected_event := b\<rparr>) = owned s" "owned (s\<lparr>control_requests := i\<rparr>) = owned s"
  "owned (s\<lparr>cleanup_task := ct\<rparr>) = owned s" "owned (s\<lparr>acquisition_failure := f\<rparr>) = owned s"
  "owned (s\<lparr>advertisement_source := a\<rparr>) = owned s" "owned (s\<lparr>reachability := r\<rparr>) = owned s"
  "owned (s\<lparr>last_rssi := x\<rparr>) = owned s" "owned (s\<lparr>inventory_diag := d\<rparr>) = owned s"
  "owned (s\<lparr>inventory_running := b\<rparr>) = owned s" "owned (s\<lparr>conn_history := h\<rparr>) = owned s"
  "owned (s\<lparr>maintaining := b\<rparr>) = owned s" "owned (s\<lparr>listeners := ls\<rparr>) = owned s"
  "owned (s\<lparr>owned_generation := og\<rparr>) = owned s"
  by (simp_all add: owned_def split: option.split)

lemma own_inv_broadcast:
  "own_inv s \<Longrightarrow> (c \<Longrightarrow> owned s \<noteq> None) \<Longrightarrow> own_inv (broadcast_state c s)"
  by (auto simp: own_inv_def broadcast_state_def last_signal_def)

lemma own_inv_frame [simp]:
  "own_inv (s\<lparr>world := w\<rparr>) = own_inv s"
  "own_inv (s\<lparr>sdk_log := l\<rparr>) = own_inv s"
  "own_inv (s\<lparr>closing := b\<rparr>) = own_inv s"
  "own_inv (s\<lparr>closing_event := b\<rparr>) = own_inv s"
  "own_inv (s\<lparr>disconnected_event := b\<rparr>) = own_inv s"
  "own_inv (s\<lparr>control_requests := i\<rparr>) = own_inv s"
  "own_inv (s\<lparr>cleanup_task := ct\<rparr>) = own_inv s"
  "own_inv (s\<lparr>acquisition_failure := f\<rparr>) = own_inv s"
  "own_inv (s\<lparr>advertisement_source := a\<rparr>) = own_inv s"
  "own_inv (s\<lparr>reachability := r\<rparr>) = own_inv s"
  "own_inv (s\<lparr>last_rssi := x\<rparr>) = own_inv s"
  "own_inv (s\<lparr>inventory_diag := d\<rparr>) = own_inv s"
  "own_inv (s\<lparr>inventory_running := b\<rparr>) = own_inv s"
  "own_inv (s\<lparr>conn_history := h\<rparr>) = own_inv s"
  "own_inv (s\<lparr>maintaining := b\<rparr>) = own_inv s"
  by (simp_all add: own_inv_def)

lemma own_inv_dropped: "own_inv s \<Longrightarrow> own_inv (on_disconnected g s)"
  by (simp add: on_disconnected_def own_inv_broadcast)

lemma own_inv_event: "own_inv s \<Longrightarrow> own_inv (on_event ev s)"
  by (simp add: own_inv_def on_event_def)

lemma own_inv_interfere: "own_inv s \<Longrightarrow> own_inv (interfere i s)"
  by (cases i) (simp_all add: own_inv_dropped own_inv_event stop_begin_def)

lemma own_inv_interferes: "own_inv s \<Longrightarrow> own_inv (fold interfere is s)"
  by (induction "is" arbitrary: s) (simp_all add: own_inv_interfere)

text \<open>Interference leaves the fields of ownership and the SDK log alone; closing never ends.\<close>

lemma interfere_frame [simp]:
  "client (interfere i s) = client s" "pending (interfere i s) = pending s"
  "cleanup_task (interfere i s) = cleanup_task s" "next_generation (interfere i s) = next_generation s"
  "owned_generation (interfere i s) = owned_generation s" "listeners (interfere i s) = listeners s"
  "sdk_log (interfere i s) = sdk_log s" "world (interfere i s) = world s"
  "acquisition_failure (interfere i s) = acquisition_failure s"
  "reachability (interfere i s) = reachability s" "lock_mac (interfere i s) = lock_mac s"
  "conn_history (interfere i s) = conn_history s" "inventory_diag (interfere i s) = inventory_diag s"
  "admin_ps (interfere i s) = admin_ps s" "last_rssi (interfere i s) = last_rssi s"
  by (cases i; simp add: on_disconnected_def broadcast_state_def on_event_def stop_begin_def)+

lemma interferes_frame [simp]:
  "client (fold interfere is s) = client s" "pending (fold interfere is s) = pending s"
  "cleanup_task (fold interfere is s) = cleanup_task s"
  "next_generation (fold interfere is s) = next_generation s"
  "owned_generation (fold interfere is s) = owned_generation s"
  "listeners (fold interfere is s) = listeners s"
  "sdk_log (fold interfere is s) = sdk_log s" "world (fold interfere is s) = world s"
  "acquisition_failure (fold interfere is s) = acquisition_failure s"
  "reachability (fold interfere is s) = reachability s" "lock_mac (fold interfere is s) = lock_mac s"
  "conn_history (fold interfere is s) = conn_history s"
  "inventory_diag (fold interfere is s) = inventory_diag s"
  "admin_ps (fold interfere is s) = admin_ps s" "last_rssi (fold interfere is s) = last_rssi s"
  by (induction "is" arbitrary: s) simp_all

definition stopped :: "'w conn \<Rightarrow> bool" where
  "stopped s \<longleftrightarrow> closing s \<and> closing_event s"

lemma stopped_interfere: "stopped s \<Longrightarrow> stopped (interfere i s)"
  by (cases i) (auto simp: stopped_def on_disconnected_def broadcast_state_def on_event_def stop_begin_def)

lemma stopped_interferes: "stopped s \<Longrightarrow> stopped (fold interfere is s)"
  by (induction "is" arbitrary: s) (simp_all add: stopped_interfere)

lemma at_rest_interferes: "at_rest s \<Longrightarrow> at_rest (fold interfere is s)"
  by (simp add: at_rest_def own_inv_interferes)

text \<open>Predicates that hold across an \<open>await\<close>, whatever runs meanwhile.\<close>

definition stable :: "('w conn \<Rightarrow> bool) \<Rightarrow> bool" where
  "stable J \<longleftrightarrow> (\<forall>s w is. J s \<longrightarrow> J (fold interfere is (s\<lparr>world := w\<rparr>)))"

named_theorems stable_intros \<open>predicates that interference keeps\<close>

lemma triple_await [triple_intros]: "stable J \<Longrightarrow> triple J (await f) (\<lambda>_. J) E"
  by (auto simp: triple_def stable_def await_def split: prod.splits)

lemma triple_env_call [triple_intros]: "stable J \<Longrightarrow> triple J (env_call f) (\<lambda>_. J) E"
  unfolding stable_def triple_def env_call_def by (auto dest: spec [of _ "[]"] simp: fold_simps)
    (metis fold_simps(1))

lemma keeps_await [keeps_intros]: "stable J \<Longrightarrow> keeps J (await f)"
  unfolding keeps_triple by (rule triple_await)

lemma keeps_env_call [keeps_intros]: "stable J \<Longrightarrow> keeps J (env_call f)"
  unfolding keeps_triple by (rule triple_env_call)

lemma triple_env_peek [triple_intros]: "triple J (env_peek f) (\<lambda>_. J) E"
  by (simp add: env_peek_def triple_def m_gets_def)

lemma keeps_env_peek [keeps_intros]: "keeps J (env_peek f)"
  unfolding env_peek_def by (rule keeps_gets)

lemma stable_conj [stable_intros]: "stable J \<Longrightarrow> stable K \<Longrightarrow> stable (\<lambda>s. J s \<and> K s)"
  by (simp add: stable_def)

lemma at_rest_frame [simp]:
  "at_rest (s\<lparr>world := w\<rparr>) = at_rest s"
  "at_rest (s\<lparr>sdk_log := l\<rparr>) = at_rest s"
  "at_rest (s\<lparr>acquisition_failure := f\<rparr>) = at_rest s"
  "at_rest (s\<lparr>reachability := r\<rparr>) = at_rest s"
  "at_rest (s\<lparr>inventory_diag := d\<rparr>) = at_rest s"
  "at_rest (s\<lparr>inventory_running := b\<rparr>) = at_rest s"
  "at_rest (s\<lparr>conn_history := h\<rparr>) = at_rest s"
  "at_rest (s\<lparr>advertisement_source := a\<rparr>) = at_rest s"
  "at_rest (s\<lparr>control_requests := i\<rparr>) = at_rest s"
  "at_rest (s\<lparr>closing := b\<rparr>) = at_rest s"
  "at_rest (s\<lparr>closing_event := b\<rparr>) = at_rest s"
  "at_rest (s\<lparr>maintaining := b\<rparr>) = at_rest s"
  by (simp_all add: at_rest_def)

lemma owned_interferes [simp]: "owned (fold interfere is s) = owned s"
  by (simp add: owned_def split: option.split)

lemma stable_at_rest [stable_intros]: "stable at_rest"
  by (simp add: stable_def at_rest_interferes)

lemma stable_client [stable_intros]: "stable (\<lambda>s. client s = c)" "stable (\<lambda>s. pending s = c)"
    "stable (\<lambda>s. owned s = c)"
  by (simp_all add: stable_def)

lemma stable_stopped [stable_intros]: "stable stopped"
  by (simp add: stable_def stopped_interferes stopped_def [of "_\<lparr>world := _\<rparr>"] flip: stopped_def)

lemma new_conn_at_rest: "at_rest (new_conn m ps cool h w)"
  by (simp add: at_rest_def own_inv_def new_conn_def owned_def last_signal_def)

end
