(* ===== verification/ConnCleanup.thy ===== *)
theory ConnCleanup
  imports ConnState
begin

section \<open>Owned teardown of a client (connection.py)\<close>

text \<open>
  A client that may still hold the lock's single BLE slot is never forgotten: it stays
  \<open>pending\<close> until a disconnect is confirmed. The teardown runs in a task of its own, so the
  cancellation of its caller is absorbed until the task has ended (\<open>e_interrupts\<close> says how
  often it came) and raised afterwards. A task that is already running for the same client
  is joined; \<open>at_rest\<close> says that this does not happen while the connection lock is held.

  The contract of the operations that end in such a teardown is the locale \<open>teardown\<close>,
  interpreted below on \<open>retry_pending_cleanup\<close> and \<open>disconnect_locked\<close>.
\<close>

subsection \<open>Operations\<close>

text \<open>\<open>_client_is_disconnected\<close>: \<open>None\<close> is a property that raised.\<close>

definition client_is_disconnected :: "'w env \<Rightarrow> nat \<Rightarrow> 'w conn \<Rightarrow> bool" where
  "client_is_disconnected E g s = (e_cleanup_confirmed E g (world s) = Some True)"

text \<open>\<open>_async_disconnect_pending_client_once\<close>, the body of the cleanup task: did it succeed?\<close>

definition disconnect_once :: "'w env \<Rightarrow> nat \<Rightarrow> ('w conn, bool) eff" where
  "disconnect_once E g =
     m_bind (m_gets (client_is_disconnected E g)) (\<lambda>gone.
       if gone then m_return True
       else m_then (call (CDisconnect g))
        (m_bind (await (e_disconnect E g)) (\<lambda>r. case r of
           Inr _ \<Rightarrow> m_return True
         | Inl e \<Rightarrow> if is_exception e then m_gets (client_is_disconnected E g) else m_raise e)))"

text \<open>The bookkeeping after the cleanup task ended with \<open>ok\<close>.\<close>

definition cleanup_finished :: "nat \<Rightarrow> bool \<Rightarrow> 'w conn \<Rightarrow> 'w conn" where
  "cleanup_finished g ok s = (let s1 = s\<lparr>cleanup_task := None\<rparr> in
     if ok \<and> pending s1 = Some g
     then broadcast_state False (s1\<lparr>pending := None, owned_generation := None\<rparr>)
     else s1)"

definition cleanup_candidate :: "'w env \<Rightarrow> nat \<Rightarrow> ('w conn, bool) eff" where
  "cleanup_candidate E g = m_bind (m_gets (\<lambda>s. (pending s, cleanup_task s))) (\<lambda>(p, t).
     if p \<noteq> Some g
     then m_raise (RuntimeErr ''Cannot clean up an unowned TTLock BLE client'')
     else if t \<noteq> None \<and> t \<noteq> Some g
     then m_raise (RuntimeErr ''Another TTLock BLE client teardown is already in progress'')
     else m_then (m_modify (\<lambda>s. s\<lparr>cleanup_task := Some g\<rparr>))
      (m_bind (await (e_interrupts E)) (\<lambda>interrupts.
         m_bind (m_catch (disconnect_once E g)
             (\<lambda>e. if is_exception e then m_raise e
                  else m_then (m_modify (\<lambda>s. s\<lparr>cleanup_task := None\<rparr>)) (m_raise e)))
           (\<lambda>ok. m_then (m_modify (cleanup_finished g ok))
              (if 0 < interrupts then m_raise Cancelled else m_return ok)))))"

definition retry_pending_cleanup :: "'w env \<Rightarrow> ('w conn, bool) eff" where
  "retry_pending_cleanup E = m_bind (m_gets pending) (\<lambda>p. case p of
     None \<Rightarrow> m_return True | Some g \<Rightarrow> cleanup_candidate E g)"

text \<open>\<open>remove_event_listener\<close> and the move from installed to pending.\<close>

definition retire_client :: "nat \<Rightarrow> 'w conn \<Rightarrow> 'w conn" where
  "retire_client g s =
     s\<lparr>pending := Some g, client := None, listeners := remove1 g (listeners s)\<rparr>"

definition disconnect_locked :: "'w env \<Rightarrow> ('w conn, bool) eff" where
  "disconnect_locked E = m_bind (m_gets (\<lambda>s. (client s, pending s))) (\<lambda>(c, p). case c of
     None \<Rightarrow> retry_pending_cleanup E
   | Some g \<Rightarrow>
       if p \<noteq> None
       then m_raise (RuntimeErr
         ''Cannot tear down an installed client while another client is pending'')
       else m_then (m_modify (retire_client g)) (cleanup_candidate E g))"

text \<open>\<open>_async_discard_failed_setup\<close>: its result is not used.\<close>

definition discard_failed_setup :: "'w env \<Rightarrow> nat \<Rightarrow> ('w conn, unit) eff" where
  "discard_failed_setup E g = m_bind (cleanup_candidate E g) (\<lambda>_. m_return ())"

subsection \<open>What a teardown may change\<close>

text \<open>
  \<open>torn s s'\<close>: from \<open>s\<close> to \<open>s'\<close> no client was created or installed, the only SDK calls are
  disconnects of the client that was owned, and a stopped connection is still stopped.
\<close>

definition only_disconnects :: "nat option \<Rightarrow> sdk_call list \<Rightarrow> bool" where
  "only_disconnects own cs \<longleftrightarrow> (\<forall>c\<in>set cs. \<exists>g. own = Some g \<and> c = CDisconnect g)"

definition torn :: "'w conn \<Rightarrow> 'w conn \<Rightarrow> bool" where
  "torn s s' \<longleftrightarrow>
     (\<exists>cs. sdk_log s' = sdk_log s @ cs \<and> only_disconnects (owned s) cs)
     \<and> next_generation s' = next_generation s
     \<and> (client s' = client s \<or> client s' = None)
     \<and> (owned s' = owned s \<or> owned s' = None)
     \<and> (stopped s \<longrightarrow> stopped s')
     \<and> acquisition_failure s' = acquisition_failure s
     \<and> reachability s' = reachability s \<and> lock_mac s' = lock_mac s
     \<and> conn_history s' = conn_history s \<and> inventory_diag s' = inventory_diag s"

lemma only_disconnects_simps [simp]:
  "only_disconnects own []"
  "only_disconnects own (cs @ ds) \<longleftrightarrow> only_disconnects own cs \<and> only_disconnects own ds"
  "only_disconnects (Some g) [CDisconnect g]"
  by (auto simp: only_disconnects_def)

lemma torn_refl [simp]: "torn s s"
  by (auto simp: torn_def intro: exI [of _ "[]"])

lemma torn_trans:
  assumes "torn s t" and "torn t u"
  shows "torn s u"
proof -
  from assms obtain cs ds where
    "sdk_log u = sdk_log s @ cs @ ds" "only_disconnects (owned s) cs" "only_disconnects (owned t) ds"
    by (auto simp: torn_def)
  moreover have "only_disconnects (owned s) ds"
    using assms calculation(3) by (auto simp: torn_def only_disconnects_def)
  ultimately show ?thesis using assms by (auto simp: torn_def intro!: exI [of _ "cs @ ds"])
qed

locale teardown =
  fixes own :: "'w conn \<Rightarrow> nat option"
    and tear :: "('w conn, bool) eff"
  assumes keeps_rest: "at_rest s \<Longrightarrow> tear s = (r, s') \<Longrightarrow> at_rest s'"
    and frees: "at_rest s \<Longrightarrow> tear s = (Inr True, s') \<Longrightarrow> own s' = None"
    and only_cancelled: "at_rest s \<Longrightarrow> tear s = (Inl e, s') \<Longrightarrow> e = Cancelled"
    and frame: "at_rest s \<Longrightarrow> tear s = (r, s') \<Longrightarrow> torn s s'"
begin

lemma keeps_at_rest: "keeps at_rest tear"
  unfolding keeps_def using keeps_rest by (metis prod.collapse)

lemma tear_triple:
  "triple (\<lambda>s. at_rest s \<and> torn s0 s) tear
     (\<lambda>ok s. at_rest s \<and> torn s0 s \<and> (ok \<longrightarrow> own s = None))
     (\<lambda>e s. e = Cancelled \<and> at_rest s \<and> torn s0 s)"
  unfolding triple_def
  by (auto split: prod.splits sum.splits intro: torn_trans dest: keeps_rest frees only_cancelled frame)

text \<open>A handler that tears down and raises: only its error or the caller's cancellation leaves it.\<close>

lemma raise_triple:
  "triple (\<lambda>s. at_rest s \<and> torn s0 s) (m_bind tear (\<lambda>_. m_raise e)) Q
     (\<lambda>x s. x \<in> {e, Cancelled} \<and> at_rest s \<and> torn s0 s)"
proof (rule triple_bind)
  show "triple (\<lambda>s. at_rest s \<and> torn s0 s) tear (\<lambda>_ s. at_rest s \<and> torn s0 s)
      (\<lambda>x s. x \<in> {e, Cancelled} \<and> at_rest s \<and> torn s0 s)"
    by (rule triple_weaken [OF tear_triple [of s0]]) auto
qed (rule triple_raise, simp)

end

subsection \<open>The teardown operations meet the contract\<close>

lemma at_rest_owned: "at_rest s \<Longrightarrow> owned_generation s = owned s"
  by (simp add: at_rest_def own_inv_def)

lemma own_inv_cleanup_finished:
  assumes "own_inv s" and "client s = None"
  shows "at_rest (cleanup_finished g ok s)"
proof -
  have "own_inv (broadcast_state False (s\<lparr>cleanup_task := None, pending := None, owned_generation := None\<rparr>))"
    using assms
    by (auto simp: own_inv_def broadcast_state_def owned_def last_signal_def split: if_splits)
  then show ?thesis using assms
    by (auto simp: cleanup_finished_def Let_def at_rest_def broadcast_state_def)
qed

lemma stopped_cleanup_finished [simp]: "stopped (cleanup_finished g ok s) = stopped s"
  by (simp add: stopped_def cleanup_finished_def broadcast_state_def Let_def)

lemma cleanup_finished_frame [simp]:
  "client (cleanup_finished g ok s) = client s"
  "next_generation (cleanup_finished g ok s) = next_generation s"
  "sdk_log (cleanup_finished g ok s) = sdk_log s"
  "acquisition_failure (cleanup_finished g ok s) = acquisition_failure s"
  "reachability (cleanup_finished g ok s) = reachability s"
  "lock_mac (cleanup_finished g ok s) = lock_mac s"
  "conn_history (cleanup_finished g ok s) = conn_history s"
  "inventory_diag (cleanup_finished g ok s) = inventory_diag s"
  "pending (cleanup_finished g ok s) = (if ok \<and> pending s = Some g then None else pending s)"
  by (simp_all add: cleanup_finished_def broadcast_state_def Let_def)

text \<open>One run of the cleanup task, from a state that owns only the pending client \<open>g\<close>.\<close>

definition retiring :: "nat \<Rightarrow> 'w conn \<Rightarrow> bool" where
  "retiring g s \<longleftrightarrow> own_inv s \<and> client s = None \<and> pending s = Some g"

lemma retiring_world [simp]: "retiring g (s\<lparr>world := w\<rparr>) = retiring g s"
  by (simp add: retiring_def)

lemma retiring_interferes: "retiring g s \<Longrightarrow> retiring g (fold interfere is s)"
  by (simp add: retiring_def own_inv_interferes)

lemma torn_await:
  assumes "torn s0 s" and "await f s = (r, s')"
  shows "torn s0 s'"
proof -
  obtain a fs w where f: "f (world s) = ((a, fs), w)" by (metis prod.collapse)
  with assms(2) have s': "s' = fold interfere fs (s\<lparr>world := w\<rparr>)" by (simp add: await_def)
  have "stopped s \<Longrightarrow> stopped s'"
    unfolding s' by (rule stopped_interferes) (simp add: stopped_def)
  moreover have "owned s' = owned s" by (simp add: s' owned_def split: option.split)
  ultimately have "torn s s'" by (auto simp: torn_def s' only_disconnects_def)
  with assms(1) show ?thesis by (rule torn_trans)
qed

lemma await_retiring:
  "retiring g s \<Longrightarrow> await f s = (r, s') \<Longrightarrow> retiring g s' \<and> cleanup_task s' = cleanup_task s"
  by (auto simp: await_def retiring_interferes split: prod.splits)

lemma triple_await_retiring:
  "triple (\<lambda>s. retiring g s \<and> torn s0 s) (await f) (\<lambda>_ s. retiring g s \<and> torn s0 s) E"
  unfolding triple_def
  by (auto split: prod.splits sum.splits dest: await_retiring intro: torn_await)
    (auto simp: await_def split: prod.splits)

lemma disconnect_once_triple:
  "triple (\<lambda>s. retiring g s \<and> torn s0 s \<and> owned s0 = Some g) (disconnect_once E g)
     (\<lambda>_ s. retiring g s \<and> torn s0 s) (\<lambda>e s. e = Cancelled \<and> retiring g s \<and> torn s0 s)"
proof -
  let ?P = "\<lambda>s. retiring g s \<and> torn s0 s"
  have called: "triple (\<lambda>s. ?P s \<and> owned s0 = Some g) (call (CDisconnect g)) (\<lambda>_. ?P) X" for X
    unfolding call_def
    by (rule triple_modify) (auto simp: retiring_def torn_def stopped_def)
  have rest: "triple ?P (case r of
           Inr _ \<Rightarrow> m_return True
         | Inl e \<Rightarrow> if is_exception e then m_gets (client_is_disconnected E g) else m_raise e)
        (\<lambda>_. ?P) (\<lambda>e s. e = Cancelled \<and> ?P s)" for r :: "exn + unit"
    by (cases r) (auto simp: triple_def m_return_def m_gets_def m_raise_def is_exception_def)
  have "triple (\<lambda>s. ?P s \<and> owned s0 = Some g)
      (m_then (call (CDisconnect g)) (m_bind (await (e_disconnect E g)) (\<lambda>r. case r of
           Inr _ \<Rightarrow> m_return True
         | Inl e \<Rightarrow> if is_exception e then m_gets (client_is_disconnected E g) else m_raise e)))
      (\<lambda>_. ?P) (\<lambda>e s. e = Cancelled \<and> ?P s)"
    by (rule triple_then [OF called], rule triple_bind [OF triple_await_retiring], rule rest)
  then show ?thesis
    unfolding disconnect_once_def
    by (intro triple_bind [where R = "\<lambda>_ s. ?P s \<and> owned s0 = Some g"])
      (auto simp: triple_def m_gets_def m_return_def)
qed

lemma cleanup_retiring:
  "triple (\<lambda>s. retiring g s \<and> cleanup_task s = None \<and> torn s0 s \<and> owned s0 = Some g)
     (cleanup_candidate E g)
     (\<lambda>ok s. at_rest s \<and> client s = None \<and> torn s0 s \<and> (ok \<longrightarrow> owned s = None))
     (\<lambda>e s. e = Cancelled \<and> at_rest s \<and> client s = None \<and> torn s0 s)"
proof -
  let ?P = "\<lambda>s. retiring g s \<and> torn s0 s"
  let ?E = "\<lambda>e s. e = Cancelled \<and> at_rest s \<and> client s = None \<and> torn s0 s"
  have caught: "triple (\<lambda>s. ?P s \<and> owned s0 = Some g)
      (m_catch (disconnect_once E g)
        (\<lambda>e. if is_exception e then m_raise e
             else m_then (m_modify (\<lambda>s. s\<lparr>cleanup_task := None\<rparr>)) (m_raise e)))
      (\<lambda>_. ?P) ?E"
  proof (rule triple_catch)
    show "triple (\<lambda>s. ?P s \<and> owned s0 = Some g) (disconnect_once E g) (\<lambda>_. ?P)
        (\<lambda>e s. e = Cancelled \<and> ?P s)"
      by (rule triple_weaken [OF disconnect_once_triple [of g s0 E]]) auto
    show "triple (\<lambda>s. e = Cancelled \<and> ?P s)
        (if is_exception e then m_raise e
         else m_then (m_modify (\<lambda>s. s\<lparr>cleanup_task := None\<rparr>)) (m_raise e)) (\<lambda>_. ?P) ?E" for e
      by (cases "e = Cancelled")
        (auto simp: triple_def eff_defs at_rest_def retiring_def torn_def stopped_def)
  qed
  have finish: "triple ?P (m_then (m_modify (cleanup_finished g ok))
         (if 0 < n then m_raise Cancelled else m_return ok))
      (\<lambda>ok s. at_rest s \<and> client s = None \<and> torn s0 s \<and> (ok \<longrightarrow> owned s = None)) ?E"
    for n :: nat and ok
    by (auto simp: triple_def eff_defs own_inv_cleanup_finished retiring_def torn_def owned_def)
  have body: "triple (\<lambda>s. ?P s \<and> owned s0 = Some g)
      (m_bind (await (e_interrupts E)) (\<lambda>interrupts.
         m_bind (m_catch (disconnect_once E g)
             (\<lambda>e. if is_exception e then m_raise e
                  else m_then (m_modify (\<lambda>s. s\<lparr>cleanup_task := None\<rparr>)) (m_raise e)))
           (\<lambda>ok. m_then (m_modify (cleanup_finished g ok))
              (if 0 < interrupts then m_raise Cancelled else m_return ok))))
      (\<lambda>ok s. at_rest s \<and> client s = None \<and> torn s0 s \<and> (ok \<longrightarrow> owned s = None)) ?E"
  proof (cases "owned s0 = Some g")
    case True
    with caught have c: "triple ?P (m_catch (disconnect_once E g)
        (\<lambda>e. if is_exception e then m_raise e
             else m_then (m_modify (\<lambda>s. s\<lparr>cleanup_task := None\<rparr>)) (m_raise e))) (\<lambda>_. ?P) ?E"
      by simp
    show ?thesis
      by (rule triple_weaken [OF triple_bind [OF triple_await_retiring [of g s0] triple_bind [OF c finish]]])
        auto
  qed (simp add: triple_def)
  have start: "cleanup_candidate E g s = m_bind (await (e_interrupts E)) (\<lambda>interrupts.
         m_bind (m_catch (disconnect_once E g)
             (\<lambda>e. if is_exception e then m_raise e
                  else m_then (m_modify (\<lambda>s. s\<lparr>cleanup_task := None\<rparr>)) (m_raise e)))
           (\<lambda>ok. m_then (m_modify (cleanup_finished g ok))
              (if 0 < interrupts then m_raise Cancelled else m_return ok))) (s\<lparr>cleanup_task := Some g\<rparr>)"
    if "retiring g s" "cleanup_task s = None" for s
    using that by (simp add: cleanup_candidate_def m_bind_def m_gets_def m_then_def m_modify_def retiring_def)
  have pre: "?P (s\<lparr>cleanup_task := Some g\<rparr>)" if "?P s" for s
    using that by (simp add: retiring_def torn_def stopped_def)
  show ?thesis
    unfolding triple_def using triple_use [OF body] start pre by simp
qed

text \<open>The two operations of the code, on the contract.\<close>

lemma retry_triple:
  "triple (\<lambda>s. at_rest s \<and> s = s0) (retry_pending_cleanup E)
     (\<lambda>ok s. at_rest s \<and> torn s0 s \<and> client s = client s0 \<and> (ok \<longrightarrow> pending s = None))
     (\<lambda>e s. e = Cancelled \<and> at_rest s \<and> torn s0 s \<and> client s = client s0)"
proof (cases "pending s0")
  case None
  then show ?thesis by (simp add: triple_def retry_pending_cleanup_def eff_defs)
next
  case (Some g)
  have pre: "retiring g s0 \<and> cleanup_task s0 = None \<and> torn s0 s0 \<and> owned s0 = Some g" if "at_rest s0"
    using that Some by (auto simp: at_rest_def retiring_def own_inv_def owned_def)
  have "retry_pending_cleanup E s0 = cleanup_candidate E g s0"
    using Some by (simp add: retry_pending_cleanup_def eff_defs)
  with pre triple_use [OF cleanup_retiring [of g s0 E], of s0] show ?thesis
    by (auto simp: triple_def retiring_def owned_def split: prod.splits sum.splits)
qed

lemma disconnect_triple:
  "triple (\<lambda>s. at_rest s \<and> s = s0) (disconnect_locked E)
     (\<lambda>ok s. at_rest s \<and> torn s0 s \<and> client s = None \<and> (ok \<longrightarrow> owned s = None))
     (\<lambda>e s. e = Cancelled \<and> at_rest s \<and> torn s0 s \<and> client s = None)"
proof (cases "client s0")
  case None
  then have "disconnect_locked E s0 = retry_pending_cleanup E s0"
    by (simp add: disconnect_locked_def eff_defs)
  with None triple_use [OF retry_triple [of s0 E], of s0] show ?thesis
    by (auto simp: triple_def owned_def split: prod.splits sum.splits)
next
  case (Some g)
  let ?s = "retire_client g s0"
  have pre: "retiring g ?s \<and> cleanup_task ?s = None \<and> torn s0 ?s \<and> owned s0 = Some g" if "at_rest s0"
    using that Some
    by (auto simp: at_rest_def retiring_def own_inv_def owned_def retire_client_def torn_def stopped_def
        only_disconnects_def)
  have "disconnect_locked E s0 = cleanup_candidate E g ?s" if "at_rest s0"
    using Some that by (simp add: disconnect_locked_def eff_defs at_rest_def own_inv_def)
  with pre triple_use [OF cleanup_retiring [of g s0 E], of ?s] show ?thesis
    by (auto simp: triple_def split: prod.splits sum.splits)
qed

lemma retry_result:
  assumes "at_rest s" and "retry_pending_cleanup E s = (r, s')"
  shows "at_rest s'" "torn s s'" "client s' = client s"
    "r = Inr True \<Longrightarrow> pending s' = None" "r = Inl e \<Longrightarrow> e = Cancelled"
  using triple_result [OF retry_triple [of s E] _ assms(2)] assms(1) by (auto split: sum.splits)

lemma disconnect_result:
  assumes "at_rest s" and "disconnect_locked E s = (r, s')"
  shows "at_rest s'" "torn s s'" "client s' = None"
    "r = Inr True \<Longrightarrow> owned s' = None" "r = Inl e \<Longrightarrow> e = Cancelled"
  using triple_result [OF disconnect_triple [of s E] _ assms(2)] assms(1) by (auto split: sum.splits)

interpretation retry: teardown pending "retry_pending_cleanup E"
  by unfold_locales (auto dest: retry_result)

interpretation disc: teardown owned "disconnect_locked E"
  by unfold_locales (auto dest: disconnect_result)

end
