(* ===== verification/ConnAcquire.thy ===== *)
theory ConnAcquire
  imports ConnCleanup
begin

section \<open>Acquiring a connection (connection.py)\<close>

text \<open>
  \<open>ensure_connected\<close> is the one place that creates a client: it reuses a live one, or tears
  down what is left, resolves a route through Home Assistant and makes at most two attempts,
  the second only after a fresh active scan. Log output is not modelled; a clock read made
  only for a log line is left out, and every other one is a call of the environment.
\<close>

subsection \<open>Routes\<close>

definition remaining_acquisition_time :: "'w env \<Rightarrow> rat \<Rightarrow> ('w conn, rat) eff" where
  "remaining_acquisition_time E deadline =
     m_bind (env_call (e_monotonic E)) (\<lambda>now. m_return (max 0 (deadline - now)))"

text \<open>Python's \<open>max\<close> with a key keeps the first maximal element.\<close>

fun strongest_path :: "scanner_path \<Rightarrow> scanner_path list \<Rightarrow> scanner_path" where
  "strongest_path p [] = p"
| "strongest_path p (q # qs) = strongest_path (if sp_rssi p < sp_rssi q then q else p) qs"

definition resolve_connection_candidate :: "'w env \<Rightarrow> bool \<Rightarrow> 'w \<Rightarrow> candidate option" where
  "resolve_connection_candidate E include_scanner_paths w = (case e_device E w of
     Some d \<Rightarrow> (let info = e_last_info E w in
       Some \<lparr>cd_device = d, cd_resolution = ''aggregate connectable history'',
             cd_source = (case info of None \<Rightarrow> ''unknown'' | Some i \<Rightarrow> si_source i),
             cd_rssi = map_option si_rssi info, cd_time = map_option si_time info\<rparr>)
   | None \<Rightarrow> (case (if include_scanner_paths then e_scanners E w else []) of
       [] \<Rightarrow> None
     | p # ps \<Rightarrow> (let best = strongest_path p ps in
         Some \<lparr>cd_device = sp_device best, cd_resolution = ''connectable scanner path'',
               cd_source = sp_source best, cd_rssi = Some (sp_rssi best), cd_time = None\<rparr>)))"

definition candidate_is_stale :: "'w env \<Rightarrow> candidate \<Rightarrow> ('w conn, bool) eff" where
  "candidate_is_stale E cd = (case cd_time cd of
     None \<Rightarrow> m_return False
   | Some t \<Rightarrow> m_bind (env_peek (e_learned_interval E)) (\<lambda>learned. case learned of
       None \<Rightarrow> m_return False
     | Some interval \<Rightarrow> m_bind (env_call (e_ha_time E)) (\<lambda>now.
         m_return (\<not> max 0 (now - t)
           \<le> max (of_int EXPLICIT_CONNECT_SCAN_TIMEOUT) (interval * 2)))))"

definition active_history_freshness :: "rat option \<Rightarrow> rat" where
  "active_history_freshness learned =
     max (of_int EXPLICIT_CONNECT_SCAN_TIMEOUT) (case learned of Some i \<Rightarrow> i * 2 | None \<Rightarrow> 0)"

text \<open>
  \<open>_candidate_available\<close> on the deliveries of one scan, each with the time it came at: the
  list \<open>resolved\<close>. Home Assistant stops at the first accepted one or delivers more; the code
  takes the last.
\<close>

definition fresh_candidate :: "service_info \<Rightarrow> candidate" where
  "fresh_candidate i = \<lparr>cd_device = si_device i, cd_resolution = ''fresh active advertisement'',
     cd_source = si_source i, cd_rssi = Some (si_rssi i), cd_time = Some (si_time i)\<rparr>"

definition accepted_deliveries :: "rat \<Rightarrow> (service_info \<times> rat) list \<Rightarrow> candidate list" where
  "accepted_deliveries max_age ds =
     map (fresh_candidate \<circ> fst) (filter (\<lambda>(i, now). max 0 (now - si_time i) \<le> max_age) ds)"

text \<open>The part between the \<open>asyncio.wait\<close> and the \<open>finally\<close>.\<close>

definition scan_outcome :: "rat \<Rightarrow> scan_result \<Rightarrow> ('w conn, candidate option) eff" where
  "scan_outcome max_age r =
     (if sr_cancelled r then m_raise Cancelled
      else m_bind (m_gets (\<lambda>s. closing s \<or> closing_event s)) (\<lambda>stopping.
        if stopping then m_return None
        else case sr_outcome r of
          Inl e \<Rightarrow>
            if is_timeout e
            then m_then (m_modify (\<lambda>s. s\<lparr>acquisition_failure := AF_DISCOVERY_TIMEOUT\<rparr>)) (m_return None)
            else if is_exception e then m_return None
            else m_raise e
        | Inr _ \<Rightarrow> (let resolved = accepted_deliveries max_age (sr_deliveries r)
            in m_return (if resolved = [] then None else Some (last resolved)))))"

definition wait_for_connectable_device :: "'w env \<Rightarrow> rat \<Rightarrow> ('w conn, candidate option) eff" where
  "wait_for_connectable_device E deadline =
     m_bind (remaining_acquisition_time E deadline) (\<lambda>remaining.
       let scan_timeout = \<lfloor>min (of_int EXPLICIT_CONNECT_SCAN_TIMEOUT) remaining\<rfloor> in
       if scan_timeout \<le> 0 then m_return None
       else m_bind (env_peek (e_learned_interval E)) (\<lambda>learned.
         let max_age = active_history_freshness learned in
         m_then (call (CScan scan_timeout))
          (m_finally
            (m_bind (await (e_scan E scan_timeout)) (scan_outcome max_age))
            (m_bind (await (e_gather E)) (\<lambda>cancelled. if cancelled then m_raise Cancelled else m_return ())))))"

definition resolve_initial_candidate ::
  "'w env \<Rightarrow> bool \<Rightarrow> rat \<Rightarrow> ('w conn, candidate option \<times> bool) eff" where
  "resolve_initial_candidate E active_scan deadline =
     m_bind (env_peek (resolve_connection_candidate E active_scan)) (\<lambda>cand.
       let wait = m_bind (wait_for_connectable_device E deadline) (\<lambda>c. m_return (c, True)) in
       if \<not> active_scan then m_return (cand, False)
       else case cand of
         None \<Rightarrow> wait
       | Some cd \<Rightarrow> m_bind (candidate_is_stale E cd) (\<lambda>stale.
           if stale then wait else m_return (cand, False)))"

definition record_reachability :: "'w env \<Rightarrow> ('w conn, unit) eff" where
  "record_reachability E = m_bind (env_peek (e_reachability E)) (\<lambda>d. case d of
     Some (Inr text) \<Rightarrow> m_modify (\<lambda>s. s\<lparr>reachability := Some text\<rparr>)
   | _ \<Rightarrow> m_return ())"

subsection \<open>One connection phase\<close>

text \<open>
  \<open>asyncio.timeout\<close> around \<open>client.connect()\<close>: a normal return is turned into a cancellation
  when the deadline passed or the task is being cancelled, and a cancellation becomes
  \<open>TimeoutError\<close> when the deadline passed and nobody else cancelled.
\<close>

definition timeout_block :: "connect_result \<Rightarrow> exn + unit" where
  "timeout_block r =
     (let inner = (case cr_outcome r of
          Inr u \<Rightarrow> if cr_expired r \<or> cr_cancelled r then Inl Cancelled else Inr u
        | Inl e \<Rightarrow> Inl e)
      in if inner = Inl Cancelled \<and> cr_expired r \<and> \<not> cr_cancelled r then Inl (TimeoutErr [])
         else inner)"

text \<open>\<open>_async_connect_before_deadline\<close>: \<open>Some ok\<close> is a timeout with the result of its cleanup.\<close>

definition connect_before_deadline :: "'w env \<Rightarrow> nat \<Rightarrow> rat \<Rightarrow> ('w conn, bool option) eff" where
  "connect_before_deadline E g phase_timeout =
     m_then (call (CConnect g phase_timeout))
      (m_bind (await (e_connect E g phase_timeout)) (\<lambda>r. case timeout_block r of
         Inr _ \<Rightarrow> m_return None
       | Inl e \<Rightarrow>
           if e = Cancelled then m_bind (cleanup_candidate E g) (\<lambda>_. m_raise Cancelled)
           else if is_timeout e \<and> cr_expired r
             then m_bind (cleanup_candidate E g) (\<lambda>ok. m_return (Some ok))
           else m_raise e))"

datatype phase = PConnected | PCleaned bool | PBroken

text \<open>The \<open>try\<close> of the loop with its two handlers.\<close>

definition connect_phase :: "'w env \<Rightarrow> nat \<Rightarrow> rat \<Rightarrow> ('w conn, phase) eff" where
  "connect_phase E g phase_timeout = m_catch
     (m_bind (connect_before_deadline E g phase_timeout) (\<lambda>r. m_return (case r of
        None \<Rightarrow> PConnected | Some ok \<Rightarrow> PCleaned ok)))
     (\<lambda>e. if is_ttlock e then m_bind (cleanup_candidate E g) (\<lambda>ok. m_return (PCleaned ok))
          else if is_exception e then m_then (discard_failed_setup E g) (m_return PBroken)
          else m_raise e)"

definition install_client :: "nat \<Rightarrow> candidate \<Rightarrow> 'w conn \<Rightarrow> 'w conn" where
  "install_client g cd s = broadcast_state True
     (s\<lparr>listeners := listeners s @ [g], pending := None, client := Some g,
        last_rssi := cd_rssi cd, disconnected_event := False\<rparr>)"

definition adopt_connected_candidate :: "'w env \<Rightarrow> nat \<Rightarrow> candidate \<Rightarrow> ('w conn, nat option) eff" where
  "adopt_connected_candidate E g cd =
     m_bind (m_gets (\<lambda>s. (closing_event s, pending s))) (\<lambda>(stopping, p).
       if stopping then m_bind (cleanup_candidate E g) (\<lambda>_. m_return None)
       else if p \<noteq> Some g
         then m_raise (RuntimeErr ''Connected TTLock candidate is no longer owned'')
       else m_then (m_modify (install_client g cd)) (m_return (Some g)))"

text \<open>The new client, pending, with the next generation number; nothing is awaited in between.\<close>

definition create_client :: "nat \<Rightarrow> candidate \<Rightarrow> ('w conn, nat) eff" where
  "create_client attempts cd =
     m_bind (m_gets (\<lambda>s. next_generation s + 1)) (\<lambda>g.
       m_then (m_modify (\<lambda>s. s\<lparr>next_generation := g, pending := Some g, owned_generation := Some g,
           acquisition_failure := AF_GATT, advertisement_source := Some (cd_source cd),
           sdk_log := sdk_log s @ [CCreate g attempts]\<rparr>))
        (m_return g))"

subsection \<open>The acquisition loop\<close>

datatype step = ReturnClient "nat option" | BreakLoop | NextRoute

definition attempt :: "'w env \<Rightarrow> bool \<Rightarrow> bool \<Rightarrow> rat \<Rightarrow> candidate \<Rightarrow> ('w conn, step) eff" where
  "attempt E active_scan attempted deadline cd =
     (let cached_route = \<not> attempted;
          attempts = (if active_scan \<and> cached_route then SPECULATIVE_CACHED_CONNECT_ATTEMPTS
                      else ROBUST_CONNECT_ATTEMPTS);
          phase_cap = (if cached_route then CACHED_CONNECT_TIMEOUT else FRESH_CONNECT_TIMEOUT)
      in m_bind (remaining_acquisition_time E deadline) (\<lambda>remaining.
        let phase_timeout = min phase_cap remaining in
        if phase_timeout \<le> 0 then m_return BreakLoop
        else m_bind (m_gets pending) (\<lambda>p.
          if p \<noteq> None then m_raise (RuntimeErr ''Cannot create a second TTLock BLE candidate'')
          else m_bind (create_client attempts cd) (\<lambda>g.
            m_bind (connect_phase E g phase_timeout) (\<lambda>ph. case ph of
              PConnected \<Rightarrow> m_bind (adopt_connected_candidate E g cd) (\<lambda>r. m_return (ReturnClient r))
            | PCleaned ok \<Rightarrow> m_return (if ok then NextRoute else BreakLoop)
            | PBroken \<Rightarrow> m_return BreakLoop)))))"

text \<open>\<open>Some r\<close>: the loop returned \<open>r\<close>; \<open>None\<close>: it was left by \<open>break\<close> or by its condition.\<close>

function acquire_loop ::
  "'w env \<Rightarrow> bool \<Rightarrow> rat \<Rightarrow> bool \<Rightarrow> candidate option \<Rightarrow> ('w conn, nat option option) eff" where
  "acquire_loop E active_scan deadline attempted cand =
     m_bind (m_gets closing_event) (\<lambda>stopping. case cand of
       None \<Rightarrow> m_return None
     | Some cd \<Rightarrow>
         if stopping then m_return None
         else m_bind (attempt E active_scan attempted deadline cd) (\<lambda>st. case st of
           ReturnClient r \<Rightarrow> m_return (Some r)
         | BreakLoop \<Rightarrow> m_return None
         | NextRoute \<Rightarrow> m_bind (m_gets closing_event) (\<lambda>stopped_now.
             if stopped_now \<or> \<not> active_scan \<or> attempted then m_return None
             else m_bind (wait_for_connectable_device E deadline)
                    (\<lambda>next. acquire_loop E active_scan deadline True next))))"
  by pat_completeness auto
termination
  by (relation "measure (\<lambda>(_, _, _, attempted, _). if attempted then 0 else 1)") auto

declare acquire_loop.simps [simp del]

definition fail_acquisition :: "access_failure \<Rightarrow> ('w conn, nat option) eff" where
  "fail_acquisition f = m_then (m_modify (\<lambda>s. s\<lparr>acquisition_failure := f\<rparr>)) (m_return None)"

definition open_connection :: "'w env \<Rightarrow> bool \<Rightarrow> rat \<Rightarrow> ('w conn, nat option) eff" where
  "open_connection E active_scan deadline =
     m_bind (resolve_initial_candidate E active_scan deadline) (\<lambda>(cand, attempted).
       m_bind (acquire_loop E active_scan deadline attempted cand) (\<lambda>out. case out of
         Some r \<Rightarrow> m_return r
       | None \<Rightarrow> m_bind (m_gets closing_event) (\<lambda>stopping.
           m_then (if stopping then m_return () else record_reachability E) (m_return None))))"

definition ensure_connected :: "'w env \<Rightarrow> bool \<Rightarrow> intent \<Rightarrow> ('w conn, nat option) eff" where
  "ensure_connected E active_scan i =
     m_bind (env_call (e_monotonic E)) (\<lambda>started.
       let deadline = started + acquisition_budget i in
       m_then (m_modify (\<lambda>s. s\<lparr>reachability := None, acquisition_failure := AF_NO_CANDIDATE\<rparr>))
        (m_bind (m_gets closing) (\<lambda>stopping.
          if stopping then m_return None
          else m_bind (retry_pending_cleanup E) (\<lambda>cleaned.
            if \<not> cleaned then fail_acquisition AF_CLEANUP
            else m_bind (m_gets (\<lambda>s. case client s of
                None \<Rightarrow> None | Some g \<Rightarrow> if e_connected E g (world s) then Some g else None)) (\<lambda>live.
              case live of
                Some g \<Rightarrow> m_return (Some g)
              | None \<Rightarrow> m_bind (disconnect_locked E) (\<lambda>freed.
                  if \<not> freed then fail_acquisition AF_CLEANUP
                  else open_connection E active_scan deadline))))))"

subsection \<open>What an acquisition does\<close>

text \<open>
  \<open>acquired k s0 s\<close>: since \<open>s0\<close> at most \<open>k\<close> clients were created, every call to the SDK or
  to the scanner belongs to an acquisition and respects its bounds, and nothing else of the
  connection changed that an acquisition has no business with.
\<close>

definition is_create :: "sdk_call \<Rightarrow> bool" where
  "is_create c \<longleftrightarrow> (\<exists>g n. c = CCreate g n)"

definition creates :: "sdk_call list \<Rightarrow> nat" where
  "creates cs = length (filter is_create cs)"

fun acquisition_call :: "sdk_call \<Rightarrow> bool" where
  "acquisition_call (CCreate g n) = (n = 1 \<or> n = 3)"
| "acquisition_call (CConnect g t) = (0 < t \<and> t \<le> 42)"
| "acquisition_call (CDisconnect g) = True"
| "acquisition_call (CScan n) = (0 < n \<and> n \<le> 25)"
| "acquisition_call _ = False"

definition acquired :: "nat \<Rightarrow> 'w conn \<Rightarrow> 'w conn \<Rightarrow> bool" where
  "acquired k s0 s \<longleftrightarrow>
     (\<exists>cs. sdk_log s = sdk_log s0 @ cs \<and> creates cs \<le> k \<and> list_all acquisition_call cs)
     \<and> (stopped s0 \<longrightarrow> stopped s) \<and> lock_mac s = lock_mac s0
     \<and> conn_history s = conn_history s0 \<and> inventory_diag s = inventory_diag s0"

lemma creates_simps [simp]:
  "creates [] = 0" "creates (cs @ ds) = creates cs + creates ds"
  "creates [CCreate g n] = 1" "creates [CConnect g t] = 0" "creates [CDisconnect g] = 0"
  "creates [CScan i] = 0" "creates [CQuery g] = 0" "creates [CControl g a] = 0"
  "creates [CManage g nm] = 0" "creates [CLogRead g] = 0" "creates [CInventory g nm b] = 0"
  "creates [CCancelInventory] = 0" "creates [CSleep t] = 0"
  by (simp_all add: creates_def is_create_def)

lemma acquired_refl [simp]: "acquired 0 s s"
  by (auto simp: acquired_def)

lemma acquired_weaken: "acquired j s0 s \<Longrightarrow> j \<le> k \<Longrightarrow> acquired k s0 s"
  by (auto simp: acquired_def)

lemma acquired_call:
  assumes "acquired k s0 s" and "acquisition_call c"
  shows "acquired (k + creates [c]) s0 (s\<lparr>sdk_log := sdk_log s @ [c]\<rparr>)"
  using assms by (auto simp: acquired_def stopped_def)

lemma acquired_frame [simp]:
  "acquired k s0 (s\<lparr>world := w\<rparr>) = acquired k s0 s"
  "acquired k s0 (s\<lparr>acquisition_failure := f\<rparr>) = acquired k s0 s"
  "acquired k s0 (s\<lparr>reachability := r\<rparr>) = acquired k s0 s"
  by (simp_all add: acquired_def stopped_def)

lemma only_disconnects_acquisition:
  "only_disconnects own cs \<Longrightarrow> list_all acquisition_call cs \<and> creates cs = 0"
proof -
  assume cs: "only_disconnects own cs"
  have "acquisition_call c \<and> \<not> is_create c" if "c \<in> set cs" for c
    using cs that by (cases c) (simp_all add: only_disconnects_def is_create_def, fastforce+)
  then show ?thesis by (simp add: list_all_iff creates_def)
qed

lemma acquired_torn:
  assumes "acquired k s0 s" and "torn s s'"
  shows "acquired k s0 s'"
proof -
  from assms(2) obtain ds where ds: "sdk_log s' = sdk_log s @ ds" "only_disconnects (owned s) ds"
    by (auto simp: torn_def)
  with only_disconnects_acquisition [OF ds(2)] assms show ?thesis
    by (auto simp: acquired_def torn_def)
qed

lemma stable_acquired [stable_intros]: "stable (acquired k s0)"
proof -
  have "stopped s \<Longrightarrow> stopped (fold interfere is (s\<lparr>world := w\<rparr>))" for s :: "'w conn" and w "is"
    by (rule stopped_interferes) (simp add: stopped_def)
  then show ?thesis by (auto simp: stable_def acquired_def)
qed

text \<open>The three stages: nothing owned, the client \<open>g\<close> pending, and what an attempt may leave.\<close>

definition idle :: "nat \<Rightarrow> 'w conn \<Rightarrow> 'w conn \<Rightarrow> bool" where
  "idle k s0 s \<longleftrightarrow> at_rest s \<and> owned s = None \<and> acquired k s0 s"

definition trying :: "nat \<Rightarrow> nat \<Rightarrow> 'w conn \<Rightarrow> 'w conn \<Rightarrow> bool" where
  "trying g k s0 s \<longleftrightarrow> at_rest s \<and> client s = None \<and> pending s = Some g \<and> acquired k s0 s"

definition left_over :: "nat \<Rightarrow> 'w conn \<Rightarrow> 'w conn \<Rightarrow> bool" where
  "left_over k s0 s \<longleftrightarrow> at_rest s \<and> client s = None \<and> acquired k s0 s"

definition installed :: "nat \<Rightarrow> nat \<Rightarrow> 'w conn \<Rightarrow> 'w conn \<Rightarrow> bool" where
  "installed g k s0 s \<longleftrightarrow> at_rest s \<and> client s = Some g \<and> \<not> closing_event s \<and> acquired k s0 s"

lemma owned_None: "owned s = None \<longleftrightarrow> client s = None \<and> pending s = None"
  by (auto simp: owned_def split: option.splits)

lemma stable_stages [stable_intros]:
  "stable (idle k s0)" "stable (trying g k s0)" "stable (left_over k s0)"
  unfolding idle_def [abs_def] trying_def [abs_def] left_over_def [abs_def]
  by (intro stable_intros)+

lemma idle_left_over: "idle k s0 s \<Longrightarrow> left_over k s0 s"
  by (simp add: idle_def left_over_def owned_None)

lemma left_over_idle: "left_over k s0 s \<Longrightarrow> owned s = None \<Longrightarrow> idle k s0 s"
  by (simp add: idle_def left_over_def)

lemma idle_weaken: "idle j s0 s \<Longrightarrow> j \<le> k \<Longrightarrow> idle k s0 s"
  by (auto simp: idle_def intro: acquired_weaken)

lemma idle_frame [simp]:
  "idle k s0 (s\<lparr>acquisition_failure := f\<rparr>) = idle k s0 s"
  "idle k s0 (s\<lparr>reachability := r\<rparr>) = idle k s0 s"
  "left_over k s0 (s\<lparr>acquisition_failure := f\<rparr>) = left_over k s0 s"
  "left_over k s0 (s\<lparr>reachability := r\<rparr>) = left_over k s0 s"
  by (simp_all add: idle_def left_over_def)

lemma cleanup_trying:
  "triple (trying g k s0) (cleanup_candidate E g)
     (\<lambda>ok s. left_over k s0 s \<and> (ok \<longrightarrow> owned s = None)) (\<lambda>e s. e = Cancelled \<and> left_over k s0 s)"
proof -
  have "case cleanup_candidate E g s of
      (Inl e, s') \<Rightarrow> e = Cancelled \<and> left_over k s0 s'
    | (Inr ok, s') \<Rightarrow> left_over k s0 s' \<and> (ok \<longrightarrow> owned s' = None)" if "trying g k s0 s" for s
    using triple_use [OF cleanup_retiring [of g s E], of s] that
    by (auto simp: trying_def left_over_def retiring_def at_rest_def owned_def
        intro: acquired_torn split: prod.splits sum.splits)
  then show ?thesis by (simp add: triple_def)
qed

text \<open>The scan: nothing is created, and only the caller's cancellation leaves it.\<close>

lemma scan_triple:
  "triple (idle k s0) (wait_for_connectable_device E deadline) (\<lambda>_. idle k s0)
     (\<lambda>e s. e = Cancelled \<and> idle k s0 s)"
proof -
  let ?E = "\<lambda>e s. e = Cancelled \<and> idle k s0 s"
  have outcome: "triple (idle k s0) (scan_outcome m r) (\<lambda>_. idle k s0) ?E" for m r
    by (auto simp: triple_def scan_outcome_def eff_defs Let_def is_exception_def split: sum.splits)
  have body: "triple (idle k s0) (m_bind (await (e_scan E n)) (scan_outcome m)) (\<lambda>_. idle k s0) ?E" for n m
    by (rule triple_bind [OF triple_await [OF stable_stages(1)] outcome])
  have last: "triple (idle k s0)
      (m_bind (await (e_gather E)) (\<lambda>c. if c then m_raise Cancelled else m_return ())) (\<lambda>_. idle k s0) ?E"
    by (rule triple_bind [OF triple_await [OF stable_stages(1)]]) (auto simp: triple_def eff_defs)
  have fin: "triple (idle k s0) (m_finally (m_bind (await (e_scan E n)) (scan_outcome m))
      (m_bind (await (e_gather E)) (\<lambda>c. if c then m_raise Cancelled else m_return ()))) (\<lambda>_. idle k s0) ?E" for n m
  proof (rule triple_finally [OF body last])
    show "triple (\<lambda>s. e = Cancelled \<and> idle k s0 s)
        (m_bind (await (e_gather E)) (\<lambda>c. if c then m_raise Cancelled else m_return ()))
        (\<lambda>_ s. e = Cancelled \<and> idle k s0 s) ?E" for e
      using last by (cases "e = Cancelled") (simp_all add: triple_def)
  qed
  have called: "idle k s0 (s\<lparr>sdk_log := sdk_log s @ [CScan n]\<rparr>)" if "idle k s0 s" "0 < n" "n \<le> 25" for s n
    using that acquired_call [of k s0 s "CScan n"] by (simp add: idle_def)
  show ?thesis
    unfolding wait_for_connectable_device_def remaining_acquisition_time_def Let_def call_def
  proof (rule triple_bind)
    show "triple (idle k s0) (m_bind (env_call (e_monotonic E)) (\<lambda>now. m_return (max 0 (deadline - now))))
        (\<lambda>_. idle k s0) ?E"
      by (rule triple_bind [OF triple_env_call [OF stable_stages(1)]]) (rule triple_return)
  next
    fix remaining :: rat
    let ?n = "\<lfloor>min (of_int EXPLICIT_CONNECT_SCAN_TIMEOUT) remaining\<rfloor>"
    have bound: "?n \<le> 25"
      unfolding EXPLICIT_CONNECT_SCAN_TIMEOUT_def by (simp add: floor_le_iff min_less_iff_disj)
    show "triple (idle k s0) (if ?n \<le> 0 then m_return None
        else m_bind (env_peek (e_learned_interval E)) (\<lambda>learned.
          m_then (m_modify (\<lambda>s. s\<lparr>sdk_log := sdk_log s @ [CScan ?n]\<rparr>))
           (m_finally (m_bind (await (e_scan E ?n)) (scan_outcome (active_history_freshness learned)))
             (m_bind (await (e_gather E)) (\<lambda>c. if c then m_raise Cancelled else m_return ())))))
        (\<lambda>_. idle k s0) ?E"
      by (intro triple_if triple_return triple_bind [OF triple_env_peek] triple_then_modify [OF fin] called)
        (use bound in auto)
  qed
qed

lemma connect_triple:
  assumes "0 < t" and "t \<le> 42"
  shows "triple (trying g k s0) (connect_before_deadline E g t)
     (\<lambda>r s. case r of None \<Rightarrow> trying g k s0 s | Some ok \<Rightarrow> left_over k s0 s \<and> (ok \<longrightarrow> owned s = None))
     (\<lambda>e s. if e = Cancelled then left_over k s0 s else trying g k s0 s)"
    (is "triple _ _ ?Q ?E")
proof -
  have called: "trying g k s0 (s\<lparr>sdk_log := sdk_log s @ [CConnect g t]\<rparr>)" if "trying g k s0 s" for s
    using that assms acquired_call [of k s0 s "CConnect g t"] by (simp add: trying_def)
  have clean: "triple (trying g k s0) (cleanup_candidate E g)
      (\<lambda>ok s. left_over k s0 s \<and> (ok \<longrightarrow> owned s = None)) ?E"
    by (rule triple_post [OF cleanup_trying]) auto
  have stop: "triple (trying g k s0) (m_bind (cleanup_candidate E g) (\<lambda>_. m_raise Cancelled)) ?Q ?E"
    by (rule triple_bind [OF clean]) (rule triple_raise, simp)
  have late: "triple (trying g k s0) (m_bind (cleanup_candidate E g) (\<lambda>ok. m_return (Some ok))) ?Q ?E"
    by (rule triple_bind [OF clean]) (rule triple_return, simp)
  have rest: "triple (trying g k s0) (case timeout_block r of
         Inr _ \<Rightarrow> m_return None
       | Inl e \<Rightarrow>
           if e = Cancelled then m_bind (cleanup_candidate E g) (\<lambda>_. m_raise Cancelled)
           else if is_timeout e \<and> cr_expired r
             then m_bind (cleanup_candidate E g) (\<lambda>ok. m_return (Some ok))
           else m_raise e) ?Q ?E" for r
    using stop late by (cases "timeout_block r") (auto intro!: triple_return triple_raise)
  show ?thesis
    unfolding connect_before_deadline_def call_def
    by (rule triple_then_modify [OF triple_bind [OF triple_await [OF stable_stages(2)] rest] called])
qed

lemma phase_triple:
  assumes "0 < t" and "t \<le> 42"
  shows "triple (trying g k s0) (connect_phase E g t)
     (\<lambda>r s. case r of PConnected \<Rightarrow> trying g k s0 s
        | PCleaned ok \<Rightarrow> left_over k s0 s \<and> (ok \<longrightarrow> owned s = None) | PBroken \<Rightarrow> left_over k s0 s)
     (\<lambda>e s. e = Cancelled \<and> left_over k s0 s)"
    (is "triple _ _ ?Q ?E")
proof -
  have body: "triple (trying g k s0) (m_bind (connect_before_deadline E g t) (\<lambda>r. m_return (case r of
        None \<Rightarrow> PConnected | Some ok \<Rightarrow> PCleaned ok))) ?Q
      (\<lambda>e s. if e = Cancelled then left_over k s0 s else trying g k s0 s)"
    by (rule triple_bind [OF connect_triple [OF assms]]) (auto intro!: triple_return split: option.splits)
  have tt: "triple (trying g k s0) (m_bind (cleanup_candidate E g) (\<lambda>ok. m_return (PCleaned ok))) ?Q ?E"
    by (rule triple_bind [OF cleanup_trying]) (rule triple_return, simp)
  have disc: "triple (trying g k s0) (m_then (discard_failed_setup E g) (m_return PBroken)) ?Q ?E"
    unfolding discard_failed_setup_def
    by (intro triple_then [where R = "\<lambda>_. left_over k s0"] triple_bind [OF cleanup_trying])
      (auto intro!: triple_return)
  show ?thesis
    unfolding connect_phase_def
  proof (rule triple_catch [OF body])
    fix e
    show "triple (\<lambda>s. if e = Cancelled then left_over k s0 s else trying g k s0 s)
        (if is_ttlock e then m_bind (cleanup_candidate E g) (\<lambda>ok. m_return (PCleaned ok))
          else if is_exception e then m_then (discard_failed_setup E g) (m_return PBroken)
          else m_raise e) ?Q ?E"
      using tt disc by (cases "e = Cancelled") (auto simp: is_exception_def intro!: triple_raise)
  qed
qed

text \<open>Adopting and creating.\<close>

lemma install_keeps:
  assumes "trying g k s0 s" and "\<not> closing_event s"
  shows "installed g k s0 (install_client g cd s)"
proof -
  have "own_inv (install_client g cd s)"
    using assms unfolding install_client_def
    by (intro own_inv_broadcast) (auto simp: trying_def at_rest_def own_inv_def owned_def)
  with assms show ?thesis
    by (auto simp: installed_def trying_def at_rest_def install_client_def broadcast_state_def
        acquired_def stopped_def)
qed

lemma adopt_triple:
  "triple (trying g k s0) (adopt_connected_candidate E g cd)
     (\<lambda>r s. case r of None \<Rightarrow> left_over k s0 s | Some g' \<Rightarrow> installed g' k s0 s)
     (\<lambda>e s. e = Cancelled \<and> left_over k s0 s)" (is "triple ?P _ ?Q ?E")
proof -
  have late: "triple ?P (m_bind (cleanup_candidate E g) (\<lambda>_. m_return None)) ?Q ?E"
    by (rule triple_bind [OF cleanup_trying]) (rule triple_return, simp)
  have body: "triple (\<lambda>s. ?P s \<and> a = (closing_event s, pending s))
      (case a of (stopping, p) \<Rightarrow>
        if stopping then m_bind (cleanup_candidate E g) (\<lambda>_. m_return None)
        else if p \<noteq> Some g
          then m_raise (RuntimeErr ''Connected TTLock candidate is no longer owned'')
        else m_then (m_modify (install_client g cd)) (m_return (Some g))) ?Q ?E" for a
  proof (cases "fst a")
    case True
    then obtain p where a: "a = (True, p)" by (metis prod.collapse)
    have "triple (\<lambda>s. ?P s \<and> a = (closing_event s, pending s))
        (m_bind (cleanup_candidate E g) (\<lambda>_. m_return None)) ?Q ?E"
      by (rule triple_pre [OF late]) simp
    then show ?thesis by (simp add: a)
  next
    case False
    then show ?thesis
      by (auto simp: triple_def eff_defs install_keeps split: prod.splits) (auto simp: trying_def)
  qed
  show ?thesis
    unfolding adopt_connected_candidate_def by (rule triple_bind_gets [OF body])
qed

lemma create_triple:
  assumes "n = 1 \<or> n = 3"
  shows "triple (idle k s0) (create_client n cd) (\<lambda>g. trying g (Suc k) s0) E"
proof -
  have "trying (next_generation s + 1) (Suc k) s0
      (s\<lparr>next_generation := next_generation s + 1, pending := Some (next_generation s + 1),
         owned_generation := Some (next_generation s + 1), acquisition_failure := AF_GATT,
         advertisement_source := Some (cd_source cd),
         sdk_log := sdk_log s @ [CCreate (next_generation s + 1) n]\<rparr>)" if "idle k s0 s" for s
  proof -
    from that have rest: "at_rest s" "client s = None" "pending s = None" and acq: "acquired k s0 s"
      by (simp_all add: idle_def owned_None)
    moreover have "acquired (Suc k) s0 (s\<lparr>sdk_log := sdk_log s @ [CCreate (next_generation s + 1) n]\<rparr>)"
      using acquired_call [OF acq, of "CCreate (next_generation s + 1) n"] assms by simp
    ultimately show ?thesis
      by (auto simp: trying_def at_rest_def own_inv_def owned_def acquired_def stopped_def)
  qed
  then show ?thesis by (simp add: triple_def create_client_def eff_defs)
qed

definition step_post :: "nat \<Rightarrow> 'w conn \<Rightarrow> step \<Rightarrow> 'w conn \<Rightarrow> bool" where
  "step_post k s0 st s = (case st of
     ReturnClient r \<Rightarrow> (case r of None \<Rightarrow> left_over k s0 s | Some g \<Rightarrow> installed g k s0 s)
   | BreakLoop \<Rightarrow> left_over k s0 s
   | NextRoute \<Rightarrow> idle k s0 s)"

lemma attempt_triple:
  "triple (idle k s0) (attempt E active_scan attempted deadline cd) (step_post (Suc k) s0)
     (\<lambda>e s. e = Cancelled \<and> left_over (Suc k) s0 s)" (is "triple ?P _ ?Q ?E")
proof -
  have caps: "(if \<not> attempted then CACHED_CONNECT_TIMEOUT else FRESH_CONNECT_TIMEOUT) \<le> 42"
    by (simp add: CACHED_CONNECT_TIMEOUT_def FRESH_CONNECT_TIMEOUT_def)
  have tries: "(if active_scan \<and> \<not> attempted then SPECULATIVE_CACHED_CONNECT_ATTEMPTS
      else ROBUST_CONNECT_ATTEMPTS) \<in> {1, 3}"
    by (simp add: SPECULATIVE_CACHED_CONNECT_ATTEMPTS_def ROBUST_CONNECT_ATTEMPTS_def)
  have adopt: "triple (trying g (Suc k) s0)
      (m_bind (adopt_connected_candidate E g cd) (\<lambda>r. m_return (ReturnClient r))) ?Q ?E" for g
    by (rule triple_bind [OF adopt_triple]) (rule triple_return, simp add: step_post_def)
  have body: "triple (trying g (Suc k) s0) (m_bind (connect_phase E g t) (\<lambda>ph. case ph of
        PConnected \<Rightarrow> m_bind (adopt_connected_candidate E g cd) (\<lambda>r. m_return (ReturnClient r))
      | PCleaned ok \<Rightarrow> m_return (if ok then NextRoute else BreakLoop)
      | PBroken \<Rightarrow> m_return BreakLoop)) ?Q ?E" if "0 < t" "t \<le> 42" for g t
  proof (rule triple_bind [OF phase_triple [OF that]])
    fix ph
    show "triple (\<lambda>s. case ph of PConnected \<Rightarrow> trying g (Suc k) s0 s
          | PCleaned ok \<Rightarrow> left_over (Suc k) s0 s \<and> (ok \<longrightarrow> owned s = None)
          | PBroken \<Rightarrow> left_over (Suc k) s0 s)
        (case ph of
          PConnected \<Rightarrow> m_bind (adopt_connected_candidate E g cd) (\<lambda>r. m_return (ReturnClient r))
        | PCleaned ok \<Rightarrow> m_return (if ok then NextRoute else BreakLoop)
        | PBroken \<Rightarrow> m_return BreakLoop) ?Q ?E"
      using adopt by (cases ph) (auto simp: step_post_def left_over_idle intro!: triple_return)
  qed
  have guarded: "triple ?P (m_bind (m_gets pending) (\<lambda>p.
        if p \<noteq> None then m_raise (RuntimeErr ''Cannot create a second TTLock BLE candidate'')
        else m_bind (create_client n cd) (\<lambda>g. m_bind (connect_phase E g t) (\<lambda>ph. case ph of
              PConnected \<Rightarrow> m_bind (adopt_connected_candidate E g cd) (\<lambda>r. m_return (ReturnClient r))
            | PCleaned ok \<Rightarrow> m_return (if ok then NextRoute else BreakLoop)
            | PBroken \<Rightarrow> m_return BreakLoop)))) ?Q ?E"
    if "0 < t" "t \<le> 42" "n = 1 \<or> n = 3" for n t
  proof (rule triple_bind_gets, rule triple_if)
    fix p :: "nat option" assume "p \<noteq> None"
    then show "triple (\<lambda>s. ?P s \<and> p = pending s)
        (m_raise (RuntimeErr ''Cannot create a second TTLock BLE candidate'')) ?Q ?E"
      by (intro triple_raise) (auto simp: idle_def owned_None)
  next
    fix p :: "nat option"
    show "triple (\<lambda>s. ?P s \<and> p = pending s)
        (m_bind (create_client n cd) (\<lambda>g. m_bind (connect_phase E g t) (\<lambda>ph. case ph of
              PConnected \<Rightarrow> m_bind (adopt_connected_candidate E g cd) (\<lambda>r. m_return (ReturnClient r))
            | PCleaned ok \<Rightarrow> m_return (if ok then NextRoute else BreakLoop)
            | PBroken \<Rightarrow> m_return BreakLoop))) ?Q ?E"
      by (rule triple_pre [OF triple_bind [OF create_triple [OF that(3)] body [OF that(1,2)]]]) simp
  qed
  show ?thesis
    unfolding attempt_def Let_def remaining_acquisition_time_def
  proof (rule triple_bind)
    show "triple ?P (m_bind (env_call (e_monotonic E)) (\<lambda>now. m_return (max 0 (deadline - now))))
        (\<lambda>_. ?P) ?E"
      by (rule triple_bind [OF triple_env_call [OF stable_stages(1)]]) (rule triple_return)
  next
    fix remaining :: rat
    show "triple ?P (if min (if \<not> attempted then CACHED_CONNECT_TIMEOUT else FRESH_CONNECT_TIMEOUT) remaining \<le> 0
        then m_return BreakLoop
        else m_bind (m_gets pending) (\<lambda>p.
          if p \<noteq> None then m_raise (RuntimeErr ''Cannot create a second TTLock BLE candidate'')
          else m_bind (create_client (if active_scan \<and> \<not> attempted then SPECULATIVE_CACHED_CONNECT_ATTEMPTS
              else ROBUST_CONNECT_ATTEMPTS) cd) (\<lambda>g.
            m_bind (connect_phase E g (min (if \<not> attempted then CACHED_CONNECT_TIMEOUT else FRESH_CONNECT_TIMEOUT) remaining))
             (\<lambda>ph. case ph of
              PConnected \<Rightarrow> m_bind (adopt_connected_candidate E g cd) (\<lambda>r. m_return (ReturnClient r))
            | PCleaned ok \<Rightarrow> m_return (if ok then NextRoute else BreakLoop)
            | PBroken \<Rightarrow> m_return BreakLoop)))) ?Q ?E"
      using caps tries
      by (intro triple_if guarded triple_return)
        (auto simp: step_post_def min_le_iff_disj acquired_weaken idle_left_over left_over_def idle_def owned_None)
  qed
qed

lemma left_over_weaken: "left_over j s0 s \<Longrightarrow> j \<le> k \<Longrightarrow> left_over k s0 s"
  by (auto simp: left_over_def intro: acquired_weaken)

lemma installed_weaken: "installed g j s0 s \<Longrightarrow> j \<le> k \<Longrightarrow> installed g k s0 s"
  by (auto simp: installed_def intro: acquired_weaken)

definition loop_post :: "nat \<Rightarrow> 'w conn \<Rightarrow> nat option option \<Rightarrow> 'w conn \<Rightarrow> bool" where
  "loop_post k s0 r s = (case r of
     Some (Some g) \<Rightarrow> installed g k s0 s | _ \<Rightarrow> left_over k s0 s)"

lemma loop_post_weaken: "loop_post j s0 r s \<Longrightarrow> j \<le> k \<Longrightarrow> loop_post k s0 r s"
  by (auto simp: loop_post_def split: option.splits intro: left_over_weaken installed_weaken)

lemma loop_triple:
  "triple (idle k s0) (acquire_loop E active_scan deadline attempted cand)
     (loop_post (if attempted then Suc k else Suc (Suc k)) s0)
     (\<lambda>e s. e = Cancelled \<and> left_over (if attempted then Suc k else Suc (Suc k)) s0 s)"
proof (induction E active_scan deadline attempted cand arbitrary: k rule: acquire_loop.induct)
  case (1 E active_scan deadline attempted cand)
  let ?n = "if attempted then Suc k else Suc (Suc k)"
  let ?Q = "loop_post ?n s0" and ?E = "\<lambda>e s. e = Cancelled \<and> left_over ?n s0 s"
  have none: "triple (left_over j s0) (m_return None) ?Q ?E" if "j \<le> ?n" for j
    using that by (intro triple_return) (auto simp: loop_post_def intro: left_over_weaken)
  have next_route: "triple (idle (Suc k) s0) (m_bind (m_gets closing_event) (\<lambda>stopped_now.
        if stopped_now \<or> \<not> active_scan \<or> attempted then m_return None
        else m_bind (wait_for_connectable_device E deadline)
               (\<lambda>next. acquire_loop E active_scan deadline True next))) ?Q ?E" if cand: "cand = Some cd" for cd
  proof (rule triple_bind_gets, rule triple_if)
    fix a :: bool
    show "triple (\<lambda>s. idle (Suc k) s0 s \<and> a = closing_event s) (m_return None) ?Q ?E"
      by (rule triple_pre [OF none [of "Suc k"]]) (auto intro: idle_left_over)
  next
    fix a :: bool assume more: "\<not> (a \<or> \<not> active_scan \<or> attempted)"
    have again: "triple (idle (Suc k) s0) (acquire_loop E active_scan deadline True c) ?Q ?E"
      if "\<And>j c. triple (idle j s0) (acquire_loop E active_scan deadline True c)
        (loop_post (Suc j) s0) (\<lambda>e s. e = Cancelled \<and> left_over (Suc j) s0 s)" for c
      by (rule triple_post [OF that]) (use more in auto)
    have scan: "triple (\<lambda>s. idle (Suc k) s0 s \<and> a = closing_event s)
        (wait_for_connectable_device E deadline) (\<lambda>_. idle (Suc k) s0) ?E"
      by (rule triple_weaken [OF scan_triple])
        (use more in \<open>auto dest: idle_left_over intro: left_over_weaken\<close>)
    show "triple (\<lambda>s. idle (Suc k) s0 s \<and> a = closing_event s)
        (m_bind (wait_for_connectable_device E deadline)
          (\<lambda>next. acquire_loop E active_scan deadline True next)) ?Q ?E"
      by (rule triple_bind [OF scan again]) (use 1 [OF cand] more in auto)
  qed
  have step: "triple (step_post (Suc k) s0 st) (case st of
      ReturnClient r \<Rightarrow> m_return (Some r)
    | BreakLoop \<Rightarrow> m_return None
    | NextRoute \<Rightarrow> m_bind (m_gets closing_event) (\<lambda>stopped_now.
        if stopped_now \<or> \<not> active_scan \<or> attempted then m_return None
        else m_bind (wait_for_connectable_device E deadline)
               (\<lambda>next. acquire_loop E active_scan deadline True next))) ?Q ?E" if "cand = Some cd" for st cd
  proof (cases st)
    case (ReturnClient r)
    then show ?thesis
      using left_over_weaken [of "Suc k" s0 _ ?n] installed_weaken [of _ "Suc k" s0 _ ?n]
      by (auto intro!: triple_return simp: step_post_def loop_post_def split: option.splits if_splits)
  next
    case BreakLoop
    with none [of "Suc k"] show ?thesis by (auto simp: step_post_def [abs_def])
  next
    case NextRoute
    with next_route [OF that] show ?thesis by (simp add: step_post_def [abs_def])
  qed
  have one: "triple (idle k s0) (m_bind (attempt E active_scan attempted deadline cd) (\<lambda>st. case st of
      ReturnClient r \<Rightarrow> m_return (Some r)
    | BreakLoop \<Rightarrow> m_return None
    | NextRoute \<Rightarrow> m_bind (m_gets closing_event) (\<lambda>stopped_now.
        if stopped_now \<or> \<not> active_scan \<or> attempted then m_return None
        else m_bind (wait_for_connectable_device E deadline)
               (\<lambda>next. acquire_loop E active_scan deadline True next)))) ?Q ?E" if "cand = Some cd" for cd
    by (rule triple_bind [OF triple_post [OF attempt_triple] step [OF that]]) (auto intro: left_over_weaken)
  show ?case
    unfolding acquire_loop.simps [of E active_scan deadline attempted cand]
    by (intro triple_bind_gets triple_option triple_if triple_pre [OF one]
        triple_pre [OF none [of k]]) (auto intro: idle_left_over)
qed

text \<open>The whole acquisition.\<close>

definition acquisition_post :: "'w conn \<Rightarrow> nat option \<Rightarrow> 'w conn \<Rightarrow> bool" where
  "acquisition_post s0 r s \<longleftrightarrow> at_rest s \<and> acquired 2 s0 s
     \<and> (\<forall>g. r = Some g \<longrightarrow> client s = Some g \<and> (client s0 = Some g \<or> \<not> closing_event s))"

lemma open_triple:
  "triple (idle 0 s0) (open_connection E active_scan deadline) (acquisition_post s0)
     (\<lambda>e s. e = Cancelled \<and> at_rest s \<and> acquired 2 s0 s)" (is "triple ?P _ ?Q ?E")
proof -
  have wait: "triple ?P (m_bind (wait_for_connectable_device E deadline) (\<lambda>c. m_return (c, True)))
      (\<lambda>_. ?P) ?E"
  proof (rule triple_bind)
    show "triple ?P (wait_for_connectable_device E deadline) (\<lambda>_. ?P) ?E"
      by (rule triple_post [OF scan_triple]) (auto simp: idle_def intro: acquired_weaken)
  qed (rule triple_return)
  have stale: "triple ?P (candidate_is_stale E cd) (\<lambda>_. ?P) ?E" for cd
    unfolding candidate_is_stale_def
    by (intro triple_option triple_return triple_bind [OF triple_env_peek]
        triple_bind [OF triple_env_call [OF stable_stages(1)]])
  have initial: "triple ?P (resolve_initial_candidate E active_scan deadline) (\<lambda>_. ?P) ?E"
    unfolding resolve_initial_candidate_def Let_def
    by (intro triple_bind [OF triple_env_peek] triple_if triple_option triple_return
        wait triple_bind [OF stale])
  have tail: "triple (loop_post 2 s0 out) (case out of
         Some r \<Rightarrow> m_return r
       | None \<Rightarrow> m_bind (m_gets closing_event) (\<lambda>stopping.
           m_then (if stopping then m_return () else record_reachability E) (m_return None))) ?Q ?E" for out
  proof (cases out)
    case None
    have rec: "triple (left_over 2 s0) (record_reachability E) (\<lambda>_. left_over 2 s0) ?E"
      by (auto simp: triple_def record_reachability_def env_peek_def eff_defs split: option.splits sum.splits)
    have "triple (left_over 2 s0) (m_bind (m_gets closing_event) (\<lambda>stopping.
           m_then (if stopping then m_return () else record_reachability E) (m_return None))) ?Q ?E"
      by (intro triple_bind_gets triple_then [where R = "\<lambda>_. left_over 2 s0"] triple_if
          triple_return triple_pre [OF rec]) (auto simp: acquisition_post_def left_over_def)
    with None show ?thesis by (simp add: loop_post_def [abs_def])
  next
    case (Some r)
    then show ?thesis
      by (auto intro!: triple_return simp: loop_post_def acquisition_post_def left_over_def
          installed_def split: option.splits)
  qed
  have loop: "triple ?P (acquire_loop E active_scan deadline attempted cand) (loop_post 2 s0) ?E"
    for attempted cand
    by (rule triple_weaken [OF loop_triple])
      (auto simp: left_over_def split: if_splits intro: loop_post_weaken acquired_weaken)
  show ?thesis
    unfolding open_connection_def
    by (rule triple_bind [OF initial]) (auto split: prod.split intro: triple_bind [OF loop tail])
qed

lemma ensure_triple:
  "triple (\<lambda>s. at_rest s \<and> s = s0) (ensure_connected E active_scan i) (acquisition_post s0)
     (\<lambda>e s. e = Cancelled \<and> at_rest s \<and> acquired 2 s0 s)" (is "triple ?P _ ?Q ?E")
proof -
  let ?A = "\<lambda>s. at_rest s \<and> acquired 0 s0 s \<and> client s = client s0"
  have st: "stable ?A" by (intro stable_intros)
  have fail: "triple (\<lambda>s. at_rest s \<and> acquired 0 s0 s) (fail_acquisition f) ?Q ?E" for f
    by (auto simp: fail_acquisition_def triple_def eff_defs acquisition_post_def intro: acquired_weaken)
  have cleaned: "triple ?A (retry_pending_cleanup E) (\<lambda>ok s. ?A s \<and> (ok \<longrightarrow> pending s = None)) ?E"
    unfolding triple_def
    by (auto split: prod.splits sum.splits dest: retry_result intro: acquired_torn acquired_weaken)
  have freed: "triple ?A (disconnect_locked E)
      (\<lambda>ok s. at_rest s \<and> acquired 0 s0 s \<and> (ok \<longrightarrow> owned s = None)) ?E"
    unfolding triple_def
    by (auto split: prod.splits sum.splits dest: disconnect_result intro: acquired_torn acquired_weaken)
  have replace: "triple ?A (m_bind (disconnect_locked E) (\<lambda>freed.
                  if \<not> freed then fail_acquisition AF_CLEANUP
                  else open_connection E active_scan deadline)) ?Q ?E" for deadline
    by (rule triple_bind [OF freed], rule triple_if; rule triple_pre [OF fail] triple_pre [OF open_triple])
      (auto simp: idle_def)
  have live: "triple ?A (m_bind (m_gets (\<lambda>s. case client s of
                None \<Rightarrow> None | Some g \<Rightarrow> if e_connected E g (world s) then Some g else None)) (\<lambda>live.
              case live of
                Some g \<Rightarrow> m_return (Some g)
              | None \<Rightarrow> m_bind (disconnect_locked E) (\<lambda>freed.
                  if \<not> freed then fail_acquisition AF_CLEANUP
                  else open_connection E active_scan deadline))) ?Q ?E" for deadline
    by (intro triple_bind_gets triple_option triple_pre [OF replace] triple_return)
      (auto simp: acquisition_post_def intro: acquired_weaken split: option.splits if_splits)
  have body: "triple ?A (m_bind (m_gets closing) (\<lambda>stopping.
          if stopping then m_return None
          else m_bind (retry_pending_cleanup E) (\<lambda>cleaned.
            if \<not> cleaned then fail_acquisition AF_CLEANUP
            else m_bind (m_gets (\<lambda>s. case client s of
                None \<Rightarrow> None | Some g \<Rightarrow> if e_connected E g (world s) then Some g else None)) (\<lambda>live.
              case live of
                Some g \<Rightarrow> m_return (Some g)
              | None \<Rightarrow> m_bind (disconnect_locked E) (\<lambda>freed.
                  if \<not> freed then fail_acquisition AF_CLEANUP
                  else open_connection E active_scan deadline))))) ?Q ?E" for deadline
    by (intro triple_bind_gets triple_if triple_return triple_pre [OF triple_bind [OF cleaned]]
        triple_pre [OF fail] triple_pre [OF live])
      (auto simp: acquisition_post_def intro: acquired_weaken)
  show ?thesis
    unfolding ensure_connected_def Let_def
    by (rule triple_bind [OF triple_pre [OF triple_env_call [OF st]]])
      (auto intro: triple_then_modify [OF body])
qed

end
