(* ===== verification/ConnOps.thy ===== *)
theory ConnOps
  imports ConnAcquire
begin

section \<open>Queries, management, operation log, life cycle (connection.py)\<close>

text \<open>
  The operations over an acquired client. Each takes the connection lock for its whole body,
  so it runs from a state at rest (\<open>at_rest\<close>) to a state at rest; what other tasks may do
  meanwhile is the interference of the awaits. An error of the SDK ends in a teardown of the
  client and is turned into the integration's own exception; only the cancellation of the
  caller passes through. The reconnect loop is given by its round and a number of rounds.
\<close>

subsection \<open>Operations\<close>

definition teardown_raise :: "'w env \<Rightarrow> exn \<Rightarrow> ('w conn, 'a) eff" where
  "teardown_raise E e = m_bind (disconnect_locked E) (\<lambda>_. m_raise e)"

definition with_diagnostic :: "string \<Rightarrow> 'w conn \<Rightarrow> string" where
  "with_diagnostic msg s = (case reachability s of None \<Rightarrow> msg | Some d \<Rightarrow> msg @ '': '' @ d)"

definition query_state ::
  "'w env \<Rightarrow> bool \<Rightarrow> ('w conn, (int option \<times> int option) option) eff" where
  "query_state E active_scan =
     m_bind (ensure_connected E active_scan (if active_scan then UNKNOWN_BOOTSTRAP else ROUTINE_QUERY))
      (\<lambda>client. case client of
         None \<Rightarrow> m_return None
       | Some g \<Rightarrow> m_then (call (CQuery g)) (m_bind (await (e_query_state E g)) (\<lambda>r. case r of
           Inr v \<Rightarrow> m_return (Some v)
         | Inl e \<Rightarrow>
             if is_exception e then m_bind (disconnect_locked E) (\<lambda>_. m_return None)
             else m_raise e)))"

text \<open>
  \<open>_async_run_management_command\<close>: \<open>operation\<close> is the SDK call of the command, a function of
  the client and the world.
\<close>

definition run_management_command ::
  "'w env \<Rightarrow> string \<Rightarrow> (nat \<Rightarrow> 'w \<Rightarrow> ((exn + 'a) \<times> interf list) \<times> 'w) \<Rightarrow> bool \<Rightarrow> ('w conn, 'a) eff" where
  "run_management_command E name operation active_scan =
     m_bind (ensure_connected E active_scan MANAGEMENT) (\<lambda>client. case client of
       None \<Rightarrow> m_bind (m_gets (\<lambda>s. with_diagnostic
           (''Lock '' @ lock_mac s @ '' is not reachable via Bluetooth'') s))
         (\<lambda>msg. m_raise (TTLockErr msg))
     | Some g \<Rightarrow> m_then (call (CManage g name)) (m_bind (await (operation g)) (\<lambda>r. case r of
         Inr v \<Rightarrow> m_return v
       | Inl e \<Rightarrow> m_bind (m_gets lock_mac) (\<lambda>mac.
           if is_ttlock e then teardown_raise E e
           else if is_timeout e
             then teardown_raise E (TTLockErr (''Lock '' @ mac @ '' timed out during '' @ name))
           else if is_exception e
             then teardown_raise E (TTLockErr (''Lock '' @ mac @ '' failed to '' @ name))
           else m_raise e))))"

text \<open>The management commands: the SDK calls are arguments.\<close>

type_synonym ('w, 'a) sdk_op = "nat \<Rightarrow> 'w \<Rightarrow> ((exn + 'a) \<times> interf list) \<times> 'w"

definition get_auto_lock_time :: "'w env \<Rightarrow> ('w, int) sdk_op \<Rightarrow> ('w conn, int) eff" where
  "get_auto_lock_time E op = run_management_command E ''read auto-lock delay'' op True"

definition set_auto_lock_time ::
  "'w env \<Rightarrow> (int \<Rightarrow> ('w, unit) sdk_op) \<Rightarrow> int \<Rightarrow> ('w conn, unit) eff" where
  "set_auto_lock_time E op seconds = run_management_command E ''set auto-lock delay'' (op seconds) True"

definition add_passcode ::
  "'w env \<Rightarrow> (string \<Rightarrow> int \<Rightarrow> string \<Rightarrow> string \<Rightarrow> ('w, unit) sdk_op) \<Rightarrow>
   string \<Rightarrow> int \<Rightarrow> string \<Rightarrow> string \<Rightarrow> ('w conn, unit) eff" where
  "add_passcode E op pin pwd_type start_date end_date =
     run_management_command E ''add passcode'' (op pin pwd_type start_date end_date) True"

definition delete_passcode ::
  "'w env \<Rightarrow> (string \<Rightarrow> int \<Rightarrow> ('w, unit) sdk_op) \<Rightarrow> string \<Rightarrow> int \<Rightarrow> ('w conn, unit) eff" where
  "delete_passcode E op pin pwd_type =
     run_management_command E ''delete passcode'' (op pin pwd_type) True"

definition clear_passcodes :: "'w env \<Rightarrow> ('w, unit) sdk_op \<Rightarrow> ('w conn, unit) eff" where
  "clear_passcodes E op = run_management_command E ''clear passcodes'' op False"

definition MAX_LOG_ENTRIES_PER_FETCH :: int where "MAX_LOG_ENTRIES_PER_FETCH = 25"

text \<open>Classification and dispatch, after the connection lock was released.\<close>

definition dispatch_new_entries :: "log_entry list \<Rightarrow> 'w conn \<Rightarrow> log_entry list \<times> 'w conn" where
  "dispatch_new_entries entries s =
     (case classify (lock_mac s) entries (conn_history s) of (new, h) \<Rightarrow>
        (new, s\<lparr>conn_history := h, dispatched := dispatched s @ map SLog new\<rparr>))"

definition get_operation_log :: "'w env \<Rightarrow> ('w conn, log_entry list) eff" where
  "get_operation_log E = m_bind (ensure_connected E False OPERATION_LOG) (\<lambda>client. case client of
     None \<Rightarrow> m_return []
   | Some g \<Rightarrow> m_then (call (CLogRead g))
       (m_bind (await (e_operation_log E g MAX_LOG_ENTRIES_PER_FETCH)) (\<lambda>r. case r of
          Inr entries \<Rightarrow> (\<lambda>s. case dispatch_new_entries entries s of (new, s') \<Rightarrow> (Inr new, s'))
        | Inl e \<Rightarrow> if is_exception e then m_return [] else m_raise e)))"

subsection \<open>Life cycle\<close>

definition async_start :: "bool \<Rightarrow> 'w conn \<Rightarrow> 'w conn" where
  "async_start maintain s =
     (if \<not> maintain \<or> maintaining s then s
      else s\<lparr>closing := False, closing_event := False, maintaining := True\<rparr>)"

text \<open>
  \<open>async_stop\<close>: the head, the end of the reconnect task (an await whose cancellation is
  suppressed), then the teardown under the lock.
\<close>

definition cancel_inventory :: "('w conn, unit) eff" where
  "cancel_inventory = m_bind (m_gets inventory_running)
     (\<lambda>running. if running then call CCancelInventory else m_return ())"

definition stop_teardown :: "'w env \<Rightarrow> ('w conn, unit) eff" where
  "stop_teardown E = m_bind (disconnect_locked E) (\<lambda>first.
     m_bind (if first then m_return True else retry_pending_cleanup E) (\<lambda>disconnected.
       if disconnected then m_return ()
       else m_bind (m_gets lock_mac) (\<lambda>mac. m_raise (TTLockErr
         (''Could not confirm BLE disconnect for lock '' @ mac @ '' during shutdown'')))))"

definition async_stop :: "'w env \<Rightarrow> ('w conn, unit) eff" where
  "async_stop E =
     m_then (m_modify stop_begin)
      (m_then cancel_inventory
       (m_bind (m_gets maintaining) (\<lambda>running.
         m_then (if running
                 then m_bind (await (e_gather E)) (\<lambda>_. m_modify (\<lambda>s. s\<lparr>maintaining := False\<rparr>))
                 else m_return ())
          (stop_teardown E))))"

subsection \<open>The reconnect loop\<close>

definition sleep_for :: "'w env \<Rightarrow> rat \<Rightarrow> ('w conn, unit) eff" where
  "sleep_for E t = m_then (call (CSleep t))
     (m_bind (await (e_sleep E t)) (\<lambda>cancelled. if cancelled then m_raise Cancelled else m_return ()))"

definition next_backoff :: "rat \<Rightarrow> rat" where
  "next_backoff b = min (b * 2) RECONNECT_MAX_BACKOFF"

text \<open>One round: the backoff of the next one. The cancellation of the task ends the loop.\<close>

definition maintain_round :: "'w env \<Rightarrow> rat \<Rightarrow> ('w conn, rat) eff" where
  "maintain_round E backoff = m_catch
     (m_bind (ensure_connected E False BACKGROUND_MAINTENANCE) (\<lambda>client. case client of
        None \<Rightarrow> m_then (sleep_for E backoff) (m_return (next_backoff backoff))
      | Some g \<Rightarrow> m_bind (await (e_wait_dropped E)) (\<lambda>cancelled.
          if cancelled then m_raise Cancelled
          else m_bind (m_gets cooldown) (\<lambda>c.
            m_then (sleep_for E c) (m_return RECONNECT_INITIAL_BACKOFF)))))
     (\<lambda>e. if is_exception e
          then m_then (sleep_for E backoff) (m_return (next_backoff backoff))
          else m_raise e)"

fun maintain_rounds :: "'w env \<Rightarrow> nat \<Rightarrow> rat \<Rightarrow> ('w conn, rat) eff" where
  "maintain_rounds E 0 backoff = m_return backoff"
| "maintain_rounds E (Suc n) backoff = m_bind (m_gets closing) (\<lambda>stopping.
     if stopping then m_return backoff
     else m_bind (maintain_round E backoff) (maintain_rounds E n))"

definition async_maintain :: "'w env \<Rightarrow> nat \<Rightarrow> ('w conn, rat) eff" where
  "async_maintain E n = maintain_rounds E n RECONNECT_INITIAL_BACKOFF"

subsection \<open>The common contract\<close>

text \<open>\<open>rest k s0 s\<close>: at rest, and at most \<open>k\<close> control commands were issued since \<open>s0\<close>.\<close>

fun is_control :: "sdk_call \<Rightarrow> bool" where
  "is_control (CControl g a) = True"
| "is_control _ = False"

definition controls :: "sdk_call list \<Rightarrow> nat" where
  "controls cs = length (filter is_control cs)"

definition issued :: "nat \<Rightarrow> 'w conn \<Rightarrow> 'w conn \<Rightarrow> bool" where
  "issued k s0 s \<longleftrightarrow> (\<exists>cs. sdk_log s = sdk_log s0 @ cs \<and> controls cs \<le> k)"

definition rest :: "nat \<Rightarrow> 'w conn \<Rightarrow> 'w conn \<Rightarrow> bool" where
  "rest k s0 s \<longleftrightarrow> at_rest s \<and> issued k s0 s"

lemma controls_simps [simp]:
  "controls [] = 0" "controls (cs @ ds) = controls cs + controls ds"
  "controls [CControl g a] = 1" "controls [CCreate g n] = 0" "controls [CConnect g t] = 0"
  "controls [CDisconnect g] = 0" "controls [CScan i] = 0" "controls [CQuery g] = 0"
  "controls [CManage g nm] = 0" "controls [CLogRead g] = 0" "controls [CInventory g nm b] = 0"
  "controls [CCancelInventory] = 0" "controls [CSleep t] = 0"
  by (simp_all add: controls_def)

lemma acquisition_no_control:
  assumes "list_all acquisition_call cs"
  shows "controls cs = 0"
proof -
  have "\<not> is_control c" if "acquisition_call c" for c
    using that by (cases c) simp_all
  with assms show ?thesis by (simp add: controls_def list_all_iff filter_empty_conv)
qed

lemma issued_refl [simp]: "issued k s s"
  by (auto simp: issued_def)

lemma rest_refl: "at_rest s \<Longrightarrow> rest k s s"
  by (simp add: rest_def)

lemma issued_extend:
  assumes "issued k s0 s" and "sdk_log s' = sdk_log s @ cs" and "controls cs = 0"
  shows "issued k s0 s'"
  using assms by (auto simp: issued_def)

lemma issued_acquired: "issued k s0 s \<Longrightarrow> acquired j s s' \<Longrightarrow> issued k s0 s'"
  by (auto simp: acquired_def acquisition_no_control intro: issued_extend)

lemma issued_torn: "issued k s0 s \<Longrightarrow> torn s s' \<Longrightarrow> issued k s0 s'"
  using acquired_torn [OF acquired_refl] issued_acquired by blast

lemma stable_rest [stable_intros]: "stable (rest k s0)"
  unfolding rest_def [abs_def] by (intro stable_intros) (simp add: stable_def issued_def)

lemma rest_frame [simp]:
  "rest k s0 (s\<lparr>reachability := r\<rparr>) = rest k s0 s"
  "rest k s0 (s\<lparr>inventory_diag := d\<rparr>) = rest k s0 s"
  "rest k s0 (s\<lparr>inventory_running := b\<rparr>) = rest k s0 s"
  "rest k s0 (s\<lparr>conn_history := h\<rparr>) = rest k s0 s"
  "rest k s0 (s\<lparr>advertisement_source := a\<rparr>) = rest k s0 s"
  "rest k s0 (s\<lparr>control_requests := i\<rparr>) = rest k s0 s"
  "rest k s0 (s\<lparr>maintaining := b\<rparr>) = rest k s0 s"
  "rest k s0 (s\<lparr>world := w\<rparr>) = rest k s0 s"
  by (simp_all add: rest_def issued_def)

lemma rest_call: "rest k s0 s \<Longrightarrow> controls [c] = 0 \<Longrightarrow> rest k s0 (s\<lparr>sdk_log := sdk_log s @ [c]\<rparr>)"
  by (auto simp: rest_def intro: issued_extend)

lemma rest_call_control: "rest k s0 s \<Longrightarrow> rest (Suc k) s0 (s\<lparr>sdk_log := sdk_log s @ [CControl g a]\<rparr>)"
  by (auto simp: rest_def issued_def)

lemma triple_call: "controls [c] = 0 \<Longrightarrow> triple (rest k s0) (call c) (\<lambda>_. rest k s0) E"
  unfolding call_def by (intro triple_modify rest_call)

lemma ensure_rest:
  "triple (rest k s0) (ensure_connected E active i) (\<lambda>_. rest k s0)
     (\<lambda>e s. e = Cancelled \<and> rest k s0 s)"
proof -
  have "case ensure_connected E active i s of (Inl e, s') \<Rightarrow> e = Cancelled \<and> rest k s0 s'
      | (Inr a, s') \<Rightarrow> rest k s0 s'" if "rest k s0 s" for s
    using triple_use [OF ensure_triple [of s E active i], of s] that
    by (auto simp: rest_def acquisition_post_def intro: issued_acquired split: prod.splits sum.splits)
  then show ?thesis by (simp add: triple_def)
qed

lemma disc_rest:
  "triple (rest k s0) (disconnect_locked E) (\<lambda>_. rest k s0) (\<lambda>e s. e = Cancelled \<and> rest k s0 s)"
  unfolding triple_def rest_def
  by (auto split: prod.splits sum.splits dest: disc.keeps_rest disc.only_cancelled disc.frame
      intro: issued_torn)

lemma retry_rest:
  "triple (rest k s0) (retry_pending_cleanup E) (\<lambda>_. rest k s0) (\<lambda>e s. e = Cancelled \<and> rest k s0 s)"
  unfolding triple_def rest_def
  by (auto split: prod.splits sum.splits dest: retry.keeps_rest retry.only_cancelled retry.frame
      intro: issued_torn)

text \<open>The same with any exception postcondition that admits the cancellation.\<close>

lemma ensure_restE:
  "(\<And>s. rest k s0 s \<Longrightarrow> X Cancelled s) \<Longrightarrow>
   triple (rest k s0) (ensure_connected E active i) (\<lambda>_. rest k s0) X"
  by (rule triple_post [OF ensure_rest]) auto

lemma disc_restE:
  "(\<And>s. rest k s0 s \<Longrightarrow> X Cancelled s) \<Longrightarrow>
   triple (rest k s0) (disconnect_locked E) (\<lambda>_. rest k s0) X"
  by (rule triple_post [OF disc_rest]) auto

lemma teardown_raise_rest:
  "triple (rest k s0) (teardown_raise E e) Q (\<lambda>x s. x \<in> {e, Cancelled} \<and> rest k s0 s)"
  unfolding teardown_raise_def
  by (rule triple_bind [where R = "\<lambda>_. rest k s0"], rule triple_post [OF disc_rest])
    (auto intro: triple_raise)

subsection \<open>The operations meet it\<close>

lemma query_rest:
  "triple (rest k s0) (query_state E active) (\<lambda>_. rest k s0) (\<lambda>e s. e = Cancelled \<and> rest k s0 s)"
proof -
  have outcome: "triple (rest k s0) (case r of
           Inr v \<Rightarrow> m_return (Some v)
         | Inl e \<Rightarrow>
             if is_exception e then m_bind (disconnect_locked E) (\<lambda>_. m_return None)
             else m_raise e) (\<lambda>_. rest k s0) (\<lambda>e s. e = Cancelled \<and> rest k s0 s)" for r :: "exn + 'b"
    by (cases r) (auto intro!: triple_return triple_raise triple_bind [OF disc_rest] simp: is_exception_def)
  show ?thesis
    unfolding query_state_def
    by (intro triple_bind [OF ensure_rest] triple_option triple_return triple_then [OF triple_call]
        triple_bind [OF triple_await [OF stable_rest]] outcome) simp_all
qed

lemma management_rest:
  "triple (rest k s0) (run_management_command E name op active) (\<lambda>_. rest k s0)
     (\<lambda>e s. (is_ttlock e \<or> e = Cancelled) \<and> rest k s0 s)" (is "triple _ _ ?Q ?E")
proof -
  have tear: "triple (rest k s0) (teardown_raise E e) ?Q ?E" if "is_ttlock e" for e
    by (rule triple_post [OF teardown_raise_rest]) (use that in auto)
  have outcome: "triple (rest k s0) (case r of
         Inr v \<Rightarrow> m_return v
       | Inl e \<Rightarrow> m_bind (m_gets lock_mac) (\<lambda>mac.
           if is_ttlock e then teardown_raise E e
           else if is_timeout e
             then teardown_raise E (TTLockErr (''Lock '' @ mac @ '' timed out during '' @ name))
           else if is_exception e
             then teardown_raise E (TTLockErr (''Lock '' @ mac @ '' failed to '' @ name))
           else m_raise e)) ?Q ?E" for r
  proof (cases r)
    case (Inl e)
    have "triple (rest k s0) (m_bind (m_gets lock_mac) (\<lambda>mac.
           if is_ttlock e then teardown_raise E e
           else if is_timeout e
             then teardown_raise E (TTLockErr (''Lock '' @ mac @ '' timed out during '' @ name))
           else if is_exception e
             then teardown_raise E (TTLockErr (''Lock '' @ mac @ '' failed to '' @ name))
           else m_raise e)) ?Q ?E"
      by (intro triple_bind_gets triple_if triple_pre [OF tear] triple_raise) (auto simp: is_exception_def)
    with Inl show ?thesis by simp
  qed (auto intro: triple_return)
  have missing: "triple (rest k s0) (m_bind (m_gets f) (\<lambda>msg. m_raise (TTLockErr msg))) ?Q ?E" for f
    by (intro triple_bind_gets triple_raise) auto
  show ?thesis
    unfolding run_management_command_def
    by (intro triple_bind [OF ensure_restE] triple_option missing triple_then [OF triple_call]
        triple_bind [OF triple_await [OF stable_rest]] outcome) simp_all
qed

lemma conn_signals_log [simp]: "conn_signals (map SLog xs) = []"
  by (induction xs) simp_all

lemma dispatch_keeps: "at_rest s \<Longrightarrow> at_rest (snd (dispatch_new_entries es s))"
  by (auto simp: dispatch_new_entries_def at_rest_def own_inv_def split: prod.split)

lemma dispatch_rest: "rest k s0 s \<Longrightarrow> rest k s0 (snd (dispatch_new_entries es s))"
  using dispatch_keeps [of s es]
  by (auto simp: rest_def issued_def dispatch_new_entries_def split: prod.splits)

lemma log_rest:
  "triple (rest k s0) (get_operation_log E) (\<lambda>_. rest k s0) (\<lambda>e s. e = Cancelled \<and> rest k s0 s)"
proof -
  have outcome: "triple (rest k s0) (case r of
          Inr entries \<Rightarrow> (\<lambda>s. case dispatch_new_entries entries s of (new, s') \<Rightarrow> (Inr new, s'))
        | Inl e \<Rightarrow> if is_exception e then m_return [] else m_raise e)
      (\<lambda>_. rest k s0) (\<lambda>e s. e = Cancelled \<and> rest k s0 s)" for r
  proof (cases r)
    case (Inl e)
    then show ?thesis by (auto intro!: triple_return triple_raise simp: is_exception_def)
  next
    case (Inr entries)
    have "rest k s0 s \<Longrightarrow> rest k s0 (snd (dispatch_new_entries entries s))" for s
      by (rule dispatch_rest)
    with Inr show ?thesis by (simp add: triple_def split_beta)
  qed
  show ?thesis
    unfolding get_operation_log_def
    by (intro triple_bind [OF ensure_restE] triple_option triple_return triple_then [OF triple_call]
        triple_bind [OF triple_await [OF stable_rest]] outcome) simp_all
qed

lemma sleep_rest:
  "triple (rest k s0) (sleep_for E t) (\<lambda>_. rest k s0) (\<lambda>e s. e = Cancelled \<and> rest k s0 s)"
  unfolding sleep_for_def
  by (intro triple_then [OF triple_call] triple_bind [OF triple_await [OF stable_rest]] triple_if
      triple_raise triple_return) simp_all

text \<open>The backoff stays between its two constants.\<close>

definition backoff_ok :: "rat \<Rightarrow> bool" where
  "backoff_ok b \<longleftrightarrow> RECONNECT_INITIAL_BACKOFF \<le> b \<and> b \<le> RECONNECT_MAX_BACKOFF"

lemma initial_backoff_ok: "backoff_ok RECONNECT_INITIAL_BACKOFF"
  by (simp add: backoff_ok_def RECONNECT_INITIAL_BACKOFF_def RECONNECT_MAX_BACKOFF_def)

lemma next_backoff_ok: "backoff_ok b \<Longrightarrow> backoff_ok (next_backoff b)"
  by (auto simp: backoff_ok_def next_backoff_def RECONNECT_INITIAL_BACKOFF_def RECONNECT_MAX_BACKOFF_def
      min_def)

lemma round_rest:
  assumes "backoff_ok b"
  shows "triple (rest k s0) (maintain_round E b) (\<lambda>b' s. backoff_ok b' \<and> rest k s0 s)
     (\<lambda>e s. e = Cancelled \<and> rest k s0 s)" (is "triple _ _ ?Q ?E")
proof -
  have wait: "triple (rest k s0) (m_then (sleep_for E b) (m_return (next_backoff b))) ?Q ?E"
    by (rule triple_then [OF sleep_rest]) (rule triple_return, simp add: next_backoff_ok assms)
  have cool: "triple (rest k s0) (m_then (sleep_for E c) (m_return RECONNECT_INITIAL_BACKOFF)) ?Q ?E" for c
    by (rule triple_then [OF sleep_rest]) (rule triple_return, simp add: initial_backoff_ok)
  have body: "triple (rest k s0) (m_bind (ensure_connected E False BACKGROUND_MAINTENANCE) (\<lambda>client. case client of
        None \<Rightarrow> m_then (sleep_for E b) (m_return (next_backoff b))
      | Some g \<Rightarrow> m_bind (await (e_wait_dropped E)) (\<lambda>cancelled.
          if cancelled then m_raise Cancelled
          else m_bind (m_gets cooldown) (\<lambda>c.
            m_then (sleep_for E c) (m_return RECONNECT_INITIAL_BACKOFF))))) ?Q ?E"
    by (intro triple_bind [OF ensure_rest] triple_option wait
        triple_bind [OF triple_await [OF stable_rest]] triple_if triple_raise triple_bind_gets
        triple_pre [OF cool]) simp_all
  show ?thesis
    unfolding maintain_round_def
  proof (rule triple_catch [OF body])
    show "triple (\<lambda>s. e = Cancelled \<and> rest k s0 s)
        (if is_exception e then m_then (sleep_for E b) (m_return (next_backoff b)) else m_raise e) ?Q ?E" for e
      by (cases "e = Cancelled") (auto simp: triple_def m_raise_def)
  qed
qed

lemma rounds_rest:
  "backoff_ok b \<Longrightarrow> triple (rest k s0) (maintain_rounds E n b) (\<lambda>b' s. backoff_ok b' \<and> rest k s0 s)
     (\<lambda>e s. e = Cancelled \<and> rest k s0 s)"
proof (induction n arbitrary: b)
  case 0
  then show ?case by (auto intro: triple_return)
next
  case (Suc n)
  have next_rounds: "triple (\<lambda>s. backoff_ok b' \<and> rest k s0 s) (maintain_rounds E n b')
      (\<lambda>b' s. backoff_ok b' \<and> rest k s0 s) (\<lambda>e s. e = Cancelled \<and> rest k s0 s)" for b'
    using Suc.IH [of b'] by (auto simp: triple_def)
  show ?case
    unfolding maintain_rounds.simps
    by (intro triple_bind_gets triple_if triple_return triple_pre [OF triple_bind [OF round_rest next_rounds]])
      (use Suc.prems in auto)
qed

text \<open>Shutdown.\<close>

lemma cancel_inventory_rest: "triple (rest k s0) cancel_inventory (\<lambda>_. rest k s0) X"
  unfolding cancel_inventory_def
  by (intro triple_bind_gets triple_if triple_pre [OF triple_call] triple_return) auto

lemma stop_begin_keeps: "at_rest s \<Longrightarrow> at_rest (stop_begin s)" "stopped (stop_begin s)"
  by (simp_all add: at_rest_def stop_begin_def stopped_def)

lemma stop_teardown_triple:
  "triple (\<lambda>s. at_rest s \<and> stopped s) (stop_teardown E)
     (\<lambda>_ s. at_rest s \<and> stopped s \<and> owned s = None)
     (\<lambda>e s. (is_ttlock e \<or> e = Cancelled) \<and> at_rest s \<and> stopped s)" (is "triple ?P _ ?Q ?E")
proof -
  have first: "triple ?P (disconnect_locked E)
      (\<lambda>ok s. ?P s \<and> client s = None \<and> (ok \<longrightarrow> owned s = None)) ?E"
  proof (rule tripleI)
    fix s s' :: "'a conn" and r
    assume "?P s" "disconnect_locked E s = (r, s')"
    then show "case r of Inl e \<Rightarrow> ?E e s' | Inr ok \<Rightarrow> ?P s' \<and> client s' = None \<and> (ok \<longrightarrow> owned s' = None)"
      using disconnect_result [of s E r s'] by (auto simp: torn_def split: sum.split)
  qed
  have second: "triple (\<lambda>s. ?P s \<and> client s = None) (retry_pending_cleanup E)
      (\<lambda>ok s. ?P s \<and> (ok \<longrightarrow> owned s = None)) ?E"
  proof (rule tripleI)
    fix s s' :: "'a conn" and r
    assume "?P s \<and> client s = None" "retry_pending_cleanup E s = (r, s')"
    then show "case r of Inl e \<Rightarrow> ?E e s' | Inr ok \<Rightarrow> ?P s' \<and> (ok \<longrightarrow> owned s' = None)"
      using retry_result [of s E r s'] by (auto simp: torn_def owned_None split: sum.split)
  qed
  have both: "triple (\<lambda>s. ?P s \<and> client s = None \<and> (ok \<longrightarrow> owned s = None))
      (if ok then m_return True else retry_pending_cleanup E) (\<lambda>ok s. ?P s \<and> (ok \<longrightarrow> owned s = None)) ?E" for ok
    by (intro triple_if triple_return triple_pre [OF second]) auto
  show ?thesis
    unfolding stop_teardown_def
    by (rule triple_bind [OF first], rule triple_bind [OF both])
      (auto intro!: triple_if triple_return triple_bind_gets triple_raise)
qed

lemma stop_triple:
  "triple at_rest (async_stop E) (\<lambda>_ s. at_rest s \<and> stopped s \<and> owned s = None)
     (\<lambda>e s. (is_ttlock e \<or> e = Cancelled) \<and> at_rest s \<and> stopped s)" (is "triple _ _ ?Q ?E")
proof -
  let ?P = "\<lambda>s. at_rest s \<and> stopped s"
  have st: "stable ?P" by (intro stable_intros)
  have cancel: "triple ?P cancel_inventory (\<lambda>_. ?P) ?E"
    by (auto simp: triple_def cancel_inventory_def call_def eff_defs stopped_def)
  have ended: "triple ?P (m_bind (await (e_gather E)) (\<lambda>_. m_modify (\<lambda>s. s\<lparr>maintaining := False\<rparr>))) (\<lambda>_. ?P) ?E"
    by (rule triple_bind [OF triple_await [OF st]]) (rule triple_modify, simp add: stopped_def)
  have body: "triple ?P (m_then cancel_inventory (m_bind (m_gets maintaining) (\<lambda>running.
         m_then (if running
                 then m_bind (await (e_gather E)) (\<lambda>_. m_modify (\<lambda>s. s\<lparr>maintaining := False\<rparr>))
                 else m_return ())
          (stop_teardown E)))) ?Q ?E"
    by (intro triple_then [OF cancel] triple_bind_gets triple_then [where R = "\<lambda>_. ?P"]
        triple_if triple_return triple_pre [OF ended] stop_teardown_triple) auto
  show ?thesis
    unfolding async_stop_def
    by (rule triple_then_modify [OF body]) (simp add: stop_begin_keeps)
qed

end
