(* ===== verification/Services.thy ===== *)
theory Services
  imports ConnOps
begin

section \<open>Service actions (services.py, access.py, admin_api.py)\<close>

text \<open>
  The actions Home Assistant offers for a lock, from the validated call data to the request that
  is made on the connection, or to the response of an inventory read. Home Assistant's
  registries are a view (\<open>hass_view\<close>), a connection is known by its identity, parsing and
  localising a datetime are parameters, and so is what the SDK's inventory result says. The
  schemas and the whole calls are in \<open>ServiceRuns\<close>.
\<close>

definition DOMAIN :: string where "DOMAIN = ''ttlock_ble''"
definition MIN_PASSCODE_LENGTH :: nat where "MIN_PASSCODE_LENGTH = 4"
definition MAX_PASSCODE_LENGTH :: nat where "MAX_PASSCODE_LENGTH = 9"

text \<open>
  \<open>Validation\<close> is a \<open>ServiceValidationError\<close> with a translation key, \<open>SchemaInvalid\<close> what the
  schema of the action raises, \<open>PyTypeError\<close> Python's \<open>TypeError\<close>.
\<close>

datatype service_error = Validation string | ServiceMessage string | SchemaInvalid | PyTypeError

subsection \<open>Passcodes and windows\<close>

datatype passcode_type = PERMANENT | PERIOD

definition PASSCODE_TYPES :: "(string, passcode_type) dict" where
  "PASSCODE_TYPES = [(''permanent'', PERMANENT), (''period'', PERIOD)]"

definition validate_code :: "string \<Rightarrow> service_error + unit" where
  "validate_code pin =
     (if \<not> (MIN_PASSCODE_LENGTH \<le> length pin \<and> length pin \<le> MAX_PASSCODE_LENGTH) \<or> \<not> py_isdigit pin
      then Inl (Validation ''invalid_passcode'') else Inr ())"

text \<open>
  What \<open>dt_util.parse_datetime\<close> returns: a wall clock, with the offset of its zone in minutes if
  it has one. \<open>as_local\<close> gives the wall clock in Home Assistant's own zone.
\<close>

datatype parsed_datetime = Naive datetime | Aware datetime int

record datetime_env =
  de_parse :: "string \<Rightarrow> parsed_datetime option"
  de_as_local :: "datetime \<Rightarrow> int \<Rightarrow> datetime"

text \<open>The result of \<open>_parse_lock_datetime\<close>: a wall clock and whether it carries a zone.\<close>

definition parse_lock_datetime :: "datetime_env \<Rightarrow> string \<Rightarrow> service_error + bool \<times> datetime" where
  "parse_lock_datetime D value = (case de_parse D value of
     None \<Rightarrow> Inl (Validation ''invalid_datetime'')
   | Some (Naive t) \<Rightarrow> Inr (False, t)
   | Some (Aware t zone) \<Rightarrow> Inr (True, de_as_local D t zone))"

text \<open>\<open>strftime("%y%m%d%H%M")\<close>\<close>

definition lock_date :: "datetime \<Rightarrow> string" where
  "lock_date t = pad_nat 2 (dt_year t mod 100) @ pad_nat 2 (dt_month t) @ pad_nat 2 (dt_day t)
     @ pad_nat 2 (dt_hour t) @ pad_nat 2 (dt_minute t)"

record service_call =
  sc_device :: string
  sc_code :: string
  sc_type :: string
  sc_start :: "string option"
  sc_end :: "string option"

text \<open>
  \<open>_period_window\<close>. Python compares two datetimes of the same zone by their wall clocks and
  refuses to order one that has a zone and one that has none.
\<close>

definition period_window :: "datetime_env \<Rightarrow> service_call \<Rightarrow> service_error + string \<times> string" where
  "period_window D c = (case (sc_start c, sc_end c) of
     (Some start_raw, Some end_raw) \<Rightarrow> (case parse_lock_datetime D start_raw of
        Inl e \<Rightarrow> Inl e
      | Inr (za, start) \<Rightarrow> (case parse_lock_datetime D end_raw of
          Inl e \<Rightarrow> Inl e
        | Inr (zb, stop) \<Rightarrow>
            if za \<noteq> zb then Inl PyTypeError
            else if stop \<le> start then Inl (Validation ''invalid_period_window'')
            else Inr (lock_date start, lock_date stop)))
   | _ \<Rightarrow> Inl (Validation ''period_window_required''))"

subsection \<open>Finding the connection\<close>

text \<open>
  A config entry: whether it is loaded, its connections by address, and the locks whose legacy
  PIN writes the administrator disabled (\<open>None\<close> when the private metadata is unavailable).
\<close>

record sv_entry =
  se_loaded :: bool
  se_connections :: "(string \<times> nat) list"
  se_records :: "string set option"

record hass_view =
  hv_device :: "string \<Rightarrow> (string \<times> string) list option"
  hv_entries :: "sv_entry list"
  hv_format_mac :: "string \<Rightarrow> string"

definition device_macs :: "(string \<times> string) list \<Rightarrow> string set" where
  "device_macs identifiers = set (map snd (filter (\<lambda>(domain, i). domain = DOMAIN) identifiers))"

fun find_connection :: "(string \<Rightarrow> string) \<Rightarrow> string set \<Rightarrow> sv_entry list \<Rightarrow> nat option" where
  "find_connection fmt macs [] = None"
| "find_connection fmt macs (e # es) =
     (if \<not> se_loaded e then find_connection fmt macs es
      else case find (\<lambda>(mac, c). fmt mac \<in> macs) (se_connections e) of
        Some (mac, c) \<Rightarrow> Some c
      | None \<Rightarrow> find_connection fmt macs es)"

definition connection_for_device :: "hass_view \<Rightarrow> string \<Rightarrow> service_error + nat" where
  "connection_for_device h device = (case hv_device h device of
     None \<Rightarrow> Inl (Validation ''device_not_found'')
   | Some identifiers \<Rightarrow>
       (case find_connection (hv_format_mac h) (device_macs identifiers) (hv_entries h) of
          None \<Rightarrow> Inl (Validation ''device_not_loaded'')
        | Some c \<Rightarrow> Inr c))"

text \<open>The loop of \<open>_legacy_connection\<close> looks the connection up again, by identity.\<close>

fun legacy_check :: "nat \<Rightarrow> sv_entry list \<Rightarrow> service_error + nat" where
  "legacy_check c [] = Inr c"
| "legacy_check c (e # es) =
     (if \<not> se_loaded e then legacy_check c es
      else case find (\<lambda>(mac, candidate). candidate = c) (se_connections e) of
        None \<Rightarrow> legacy_check c es
      | Some (mac, _) \<Rightarrow> (case se_records e of
          None \<Rightarrow> Inl (ServiceMessage ''Legacy PIN writes disabled by administrator'')
        | Some disabled \<Rightarrow>
            if mac \<in> disabled then Inl (ServiceMessage ''Legacy PIN writes disabled by administrator'')
            else Inr c))"

definition legacy_connection :: "hass_view \<Rightarrow> string \<Rightarrow> service_error + nat" where
  "legacy_connection h device = (case connection_for_device h device of
     Inl e \<Rightarrow> Inl e | Inr c \<Rightarrow> legacy_check c (hv_entries h))"

subsection \<open>PIN actions\<close>

text \<open>The request an action makes on a connection.\<close>

datatype passcode_request =
    AddPasscode (target: nat) string passcode_type string string
  | DeletePasscode (target: nat) string passcode_type
  | ClearPasscodes (target: nat)

text \<open>The schema admits the keys of \<open>PASSCODE_TYPES\<close>; it runs before the handler.\<close>

definition passcode_dates :: "datetime_env \<Rightarrow> service_call \<Rightarrow> passcode_type \<Rightarrow> service_error + string \<times> string" where
  "passcode_dates D c ty = (if ty = PERIOD then period_window D c else Inr (''0001311400'', ''9912311400''))"

definition service_add_passcode :: "hass_view \<Rightarrow> datetime_env \<Rightarrow> service_call \<Rightarrow> service_error + passcode_request" where
  "service_add_passcode h D c = (case dict_get PASSCODE_TYPES (sc_type c) of
     None \<Rightarrow> Inl SchemaInvalid
   | Some ty \<Rightarrow> (case validate_code (sc_code c) of
       Inl e \<Rightarrow> Inl e
     | Inr _ \<Rightarrow> (case passcode_dates D c ty of
         Inl e \<Rightarrow> Inl e
       | Inr (start_date, end_date) \<Rightarrow> (case legacy_connection h (sc_device c) of
           Inl e \<Rightarrow> Inl e
         | Inr conn \<Rightarrow> Inr (AddPasscode conn (sc_code c) ty start_date end_date)))))"

definition service_delete_passcode :: "hass_view \<Rightarrow> service_call \<Rightarrow> service_error + passcode_request" where
  "service_delete_passcode h c = (case dict_get PASSCODE_TYPES (sc_type c) of
     None \<Rightarrow> Inl SchemaInvalid
   | Some ty \<Rightarrow> (case validate_code (sc_code c) of
       Inl e \<Rightarrow> Inl e
     | Inr _ \<Rightarrow> (case legacy_connection h (sc_device c) of
         Inl e \<Rightarrow> Inl e
       | Inr conn \<Rightarrow> Inr (DeletePasscode conn (sc_code c) ty))))"

definition service_clear_passcodes :: "hass_view \<Rightarrow> service_call \<Rightarrow> service_error + passcode_request" where
  "service_clear_passcodes h c = (case legacy_connection h (sc_device c) of
     Inl e \<Rightarrow> Inl e | Inr conn \<Rightarrow> Inr (ClearPasscodes conn))"

text \<open>
  What the request does on its connection; \<open>value_of\<close> gives the SDK's number of a passcode type, the
  operations are the SDK's.
\<close>

record 'w passcode_ops =
  po_type :: "passcode_type \<Rightarrow> int"
  po_add :: "string \<Rightarrow> int \<Rightarrow> string \<Rightarrow> string \<Rightarrow> ('w, unit) sdk_op"
  po_delete :: "string \<Rightarrow> int \<Rightarrow> ('w, unit) sdk_op"
  po_clear :: "('w, unit) sdk_op"

fun perform_request :: "'w env \<Rightarrow> 'w passcode_ops \<Rightarrow> passcode_request \<Rightarrow> ('w conn, unit) eff" where
  "perform_request E P (AddPasscode c pin ty st en) = add_passcode E (po_add P) pin (po_type P ty) st en"
| "perform_request E P (DeletePasscode c pin ty) = delete_passcode E (po_delete P) pin (po_type P ty)"
| "perform_request E P (ClearPasscodes c) = clear_passcodes E (po_clear P)"

text \<open>The auto-lock actions need no permission beyond the loaded device.\<close>

definition service_get_auto_lock :: "hass_view \<Rightarrow> service_call \<Rightarrow> service_error + nat" where
  "service_get_auto_lock h c = connection_for_device h (sc_device c)"

text \<open>\<open>SET_AUTO_LOCK_SCHEMA\<close> keeps the seconds within 16 bits.\<close>

definition service_set_auto_lock :: "hass_view \<Rightarrow> service_call \<Rightarrow> int \<Rightarrow> service_error + nat \<times> int" where
  "service_set_auto_lock h c seconds =
     (if \<not> (0 \<le> seconds \<and> seconds \<le> 65535) then Inl SchemaInvalid
      else case connection_for_device h (sc_device c) of
        Inl e \<Rightarrow> Inl e | Inr conn \<Rightarrow> Inr (conn, seconds))"

subsection \<open>Inventory responses\<close>

definition INVENTORY_METHODS :: "string list" where
  "INVENTORY_METHODS = [''keypad_pin'', ''fingerprint'', ''ic_card'']"

definition count_validity :: "string \<Rightarrow> (string, int) dict \<Rightarrow> (string, int) dict" where
  "count_validity v d = dict_set v (dict_get_or d v 0 + 1) d"

definition validity_counts :: "inv_entry list \<Rightarrow> (string, int) dict" where
  "validity_counts entries = fold (\<lambda>item. count_validity (ie_validity item)) entries []"

definition not_exhaustive :: "string \<Rightarrow> inv_result \<Rightarrow> bool" where
  "not_exhaustive m r \<longleftrightarrow> m = ''keypad_pin'' \<or> \<not> iv_complete r \<or> iv_skipped r \<noteq> 0"

definition pin_only :: "string \<Rightarrow> string" where
  "pin_only m = (if m = ''keypad_pin'' then ''supported'' else ''unsupported'')"

definition inventory_response :: "string \<Rightarrow> inv_result \<Rightarrow> (string, json) dict" where
  "inventory_response m r =
    [(''method'', JStr m),
     (''reason'', JStr (if \<not> iv_reason_complete r then iv_reason r
        else if not_exhaustive m r then ''incomplete_inventory'' else ''complete'')),
     (''stage'', JStr ''inventory''),
     (''read_status'', JStr (if not_exhaustive m r \<or> iv_interrupted r then ''partial'' else ''supported'')),
     (''count'', JInt (int (length (iv_entries r)))),
     (''validity_counts'', JDict (map (\<lambda>(v, n). (v, JInt n)) (validity_counts (iv_entries r)))),
     (''enumeration_complete'', JBool (iv_complete r)),
     (''transport_interrupted'', JBool (iv_interrupted r)),
     (''skipped_unknown_layouts'', JInt (iv_skipped r)),
     (''limitation'', iv_limitation r),
     (''credential_names'', JStr ''unavailable''),
     (''create_capability'', JStr (pin_only m)),
     (''modify_capability'', JStr ''unsupported''),
     (''delete_capability'', JStr (pin_only m))]"

text \<open>\<open>_with_connection_diagnostics\<close>; \<open>metadata\<close> is the dict \<open>connection.inventory_diagnostics\<close>.\<close>

definition with_connection_diagnostics :: "(string, json) dict \<Rightarrow> (string, json) dict \<Rightarrow> (string, json) dict" where
  "with_connection_diagnostics response metadata =
     (if metadata = [] then response
      else let r1 = dict_set ''connection_diagnostics'' (JDict metadata) response
       in if dict_get metadata ''reason'' \<noteq> Some (JStr (failure_value AF_CLEANUP)) then r1
          else let r2 = dict_set ''stage'' (JStr ''cleanup'') (dict_set ''reason'' (JStr (failure_value AF_CLEANUP)) r1)
           in if dict_get r2 ''count'' \<noteq> None then dict_set ''read_status'' (JStr ''partial'') r2 else r2)"

definition unverified :: "string \<Rightarrow> string \<Rightarrow> string \<Rightarrow> (string, json) dict" where
  "unverified m reason stage = [(''method'', JStr m), (''read_status'', JStr ''unverified''),
     (''reason'', JStr reason), (''stage'', JStr stage)]"

text \<open>\<open>InventoryError\<close> and \<open>AccessInventoryError\<close>: their reason and stage.\<close>

fun inventory_failure :: "exn \<Rightarrow> (string \<times> string) option" where
  "inventory_failure (AccessErr f stage) = Some (failure_value f, stage)"
| "inventory_failure (InventoryErr ttlock reason stage msg) = Some (reason, stage)"
| "inventory_failure _ = None"

text \<open>Only the SDK's error carries a diagnostic.\<close>

fun sdk_diagnostic :: "exn \<Rightarrow> json option \<Rightarrow> json option" where
  "sdk_diagnostic (InventoryErr ttlock reason stage msg) d = d"
| "sdk_diagnostic _ d = None"

definition with_metadata :: "json option \<Rightarrow> (string, json) dict \<Rightarrow> (string, json) dict" where
  "with_metadata d r = (case d of None \<Rightarrow> r | Some j \<Rightarrow> dict_set ''response_metadata'' j r)"

text \<open>
  \<open>_async_get_access_inventory\<close> on a connection: whether an administrator key is there, what the
  read gave, the diagnostic of the SDK's error, and the diagnostics of the connection
  afterwards. A cancellation propagates.
\<close>

definition access_inventory_response ::
  "string \<Rightarrow> bool \<Rightarrow> exn + inv_result \<Rightarrow> json option \<Rightarrow> (string, json) dict \<Rightarrow> exn + (string, json) dict" where
  "access_inventory_response m admin outcome err_diagnostic metadata =
     (if \<not> admin then Inr (unverified m ''admin_key_required'' ''admin'')
      else case outcome of
        Inr result \<Rightarrow> Inr (with_connection_diagnostics
          (with_metadata (iv_diagnostic result) (inventory_response m result)) metadata)
      | Inl e \<Rightarrow> (case inventory_failure e of
          Some (reason, stage) \<Rightarrow> (let response = with_metadata (sdk_diagnostic e err_diagnostic) (unverified m reason stage)
            in Inr (if stage = ''queue'' then response else with_connection_diagnostics response metadata))
        | None \<Rightarrow> if is_exception e then Inr (unverified m ''read_failed'' ''inventory'') else Inl e))"

definition service_access_inventory :: "hass_view \<Rightarrow> service_call \<Rightarrow> string \<Rightarrow> service_error + nat" where
  "service_access_inventory h c m =
     (if m \<notin> set INVENTORY_METHODS then Inl SchemaInvalid else connection_for_device h (sc_device c))"

subsection \<open>Capabilities (access.py, admin_api.py)\<close>

definition access_capabilities :: "(string, json) dict" where
  "access_capabilities = map (\<lambda>m. (m, JDict
     [(''read'', JStr (if m = ''keypad_pin'' then ''partially_discoverable'' else ''implemented'')),
      (''device_support'', JStr ''requires_read_confirmation''),
      (''s31_read_evidence'', JStr (if m = ''keypad_pin'' then ''cursor_completion_corroborated'' else ''count_corroborated'')),
      (''identity'', JStr ''unverified''),
      (''schedule_coverage'', JStr ''incomplete''),
      (''create'', JStr (if m = ''keypad_pin'' then ''legacy_pin_action'' else ''disabled'')),
      (''modify'', JStr ''disabled''),
      (''delete'', JStr (if m = ''keypad_pin'' then ''legacy_pin_action'' else ''disabled''))]))
     [''keypad_pin'', ''fingerprint'', ''ic_card'']"

text \<open>\<open>websocket_access_capabilities\<close>: the answer to an administrator.\<close>

definition websocket_capabilities :: "hass_view \<Rightarrow> string \<Rightarrow> (nat \<Rightarrow> (string, json) dict) \<Rightarrow> service_error + (string, json) dict" where
  "websocket_capabilities h device diagnostics = (case connection_for_device h device of
     Inl e \<Rightarrow> Inl e
   | Inr c \<Rightarrow> Inr [(''methods'', JDict access_capabilities), (''last_inventory'', JDict (diagnostics c)),
       (''secret_entry'', JStr ''not_implemented''), (''identity_mapping'', JStr ''not_established''),
       (''new_credential_writes'', JStr ''disabled'')])"

end
