(* ===== verification/ServiceProps.thy ===== *)
theory ServiceProps
  imports Services
begin

section \<open>Properties of the service actions\<close>

text \<open>
  PIN actions reach a lock only through every check; inventory responses carry counts and fixed
  words, nothing of the credentials, and never claim more than was read.
\<close>

subsection \<open>PIN actions\<close>

lemma find_connection_spec:
  assumes "find_connection fmt macs es = Some c"
  shows "\<exists>e\<in>set es. se_loaded e \<and> (\<exists>mac. (mac, c) \<in> set (se_connections e) \<and> fmt mac \<in> macs)"
  using assms
proof (induction es)
  case (Cons e es)
  show ?case
  proof (cases "se_loaded e \<and> find (\<lambda>(mac, c). fmt mac \<in> macs) (se_connections e) \<noteq> None")
    case True
    with Cons.prems obtain mac where "find (\<lambda>(mac, c). fmt mac \<in> macs) (se_connections e) = Some (mac, c)"
      by (auto split: option.splits)
    then have "(mac, c) \<in> set (se_connections e)" "fmt mac \<in> macs"
      by (auto simp: find_Some_iff set_conv_nth)
    with True show ?thesis by auto
  next
    case False
    with Cons.prems have "find_connection fmt macs es = Some c" by (auto split: if_splits option.splits)
    with Cons.IH show ?thesis by auto
  qed
qed simp

definition own_objects :: "sv_entry list \<Rightarrow> bool" where
  "own_objects es \<longleftrightarrow> distinct (concat (map (\<lambda>e. map snd (se_connections e)) es))"

lemma own_objects_Cons:
  "own_objects (e # es) \<longleftrightarrow> distinct (map snd (se_connections e)) \<and> own_objects es
     \<and> set (map snd (se_connections e)) \<inter> (\<Union>e'\<in>set es. set (map snd (se_connections e'))) = {}"
  by (simp add: own_objects_def)

lemma legacy_check_spec:
  assumes "legacy_check c es = Inr c'" and "own_objects es" and "e \<in> set es" and "se_loaded e"
    and "(mac, c) \<in> set (se_connections e)"
  shows "c' = c \<and> (\<exists>disabled. se_records e = Some disabled \<and> mac \<notin> disabled)"
  using assms
proof (induction es)
  case (Cons x es)
  show ?case
  proof (cases "x = e")
    case True
    have "\<exists>m d. find (\<lambda>(mac, candidate). candidate = c) (se_connections e) = Some (m, d)"
      using Cons.prems(5) by (cases "find (\<lambda>(mac, candidate). candidate = c) (se_connections e)") (auto simp: find_None_iff)
    then obtain m d where f: "find (\<lambda>(mac, candidate). candidate = c) (se_connections e) = Some (m, d)" by blast
    then have m: "(m, c) \<in> set (se_connections e)" by (auto simp: find_Some_iff set_conv_nth) metis
    have "inj_on snd (set (se_connections e))"
      using Cons.prems(2) True by (simp add: own_objects_Cons distinct_map)
    from inj_onD [OF this _ m Cons.prems(5)] have "m = mac" by simp
    with f True Cons.prems(1,4) show ?thesis by (auto split: option.splits if_splits)
  next
    case False
    then have e: "e \<in> set es" using Cons.prems(3) by simp
    have "find (\<lambda>(mac, candidate). candidate = c) (se_connections x) = None"
      using Cons.prems(2,5) e by (force simp: own_objects_Cons find_None_iff)
    with Cons.prems(1) have "legacy_check c es = Inr c'" by (auto split: if_splits)
    from Cons.IH [OF this _ e Cons.prems(4,5)] Cons.prems(2) show ?thesis by (simp add: own_objects_Cons)
  qed
qed simp

text \<open>When a PIN action may reach a connection.\<close>

definition write_allowed :: "hass_view \<Rightarrow> string \<Rightarrow> nat \<Rightarrow> bool" where
  "write_allowed h device c \<longleftrightarrow> (\<exists>identifiers e mac disabled. hv_device h device = Some identifiers
     \<and> e \<in> set (hv_entries h) \<and> se_loaded e \<and> (mac, c) \<in> set (se_connections e)
     \<and> (DOMAIN, hv_format_mac h mac) \<in> set identifiers
     \<and> se_records e = Some disabled \<and> mac \<notin> disabled)"

lemma legacy_connection_allowed:
  assumes "legacy_connection h device = Inr c" and "own_objects (hv_entries h)"
  shows "write_allowed h device c"
proof -
  from assms(1) obtain identifiers c0 where
    ids: "hv_device h device = Some identifiers"
      "find_connection (hv_format_mac h) (device_macs identifiers) (hv_entries h) = Some c0"
      "legacy_check c0 (hv_entries h) = Inr c"
    by (auto simp: legacy_connection_def connection_for_device_def split: option.splits sum.splits)
  from find_connection_spec [OF ids(2)] obtain e mac where
    e: "e \<in> set (hv_entries h)" "se_loaded e" "(mac, c0) \<in> set (se_connections e)"
      "hv_format_mac h mac \<in> device_macs identifiers" by blast
  from legacy_check_spec [OF ids(3) assms(2) e(1-3)] e ids(1) show ?thesis
    by (fastforce simp: write_allowed_def device_macs_def)
qed

subsection \<open>Inventory responses\<close>

definition same_summary :: "inv_result \<Rightarrow> inv_result \<Rightarrow> bool" where
  "same_summary a b \<longleftrightarrow> map ie_validity (iv_entries a) = map ie_validity (iv_entries b)
     \<and> iv_reason a = iv_reason b \<and> iv_reason_complete a = iv_reason_complete b \<and> iv_complete a = iv_complete b \<and> iv_skipped a = iv_skipped b
     \<and> iv_interrupted a = iv_interrupted b \<and> iv_limitation a = iv_limitation b \<and> iv_diagnostic a = iv_diagnostic b"

lemma validity_counts_map: "validity_counts es = fold count_validity (map ie_validity es) []"
  by (simp add: validity_counts_def fold_map comp_def)

text \<open>
  Claim C28. An inventory response cannot carry credential material: two reads that agree on the
  validities of their entries and on the flags of the result get the same response, whatever
  identifiers they hold; and any two failures outside the closed
  vocabulary get the same response, whatever their text.
\<close>

theorem inventory_response_private:
  assumes "same_summary a b" and "is_exception e" and "is_exception e'"
    and "inventory_failure e = None" and "inventory_failure e' = None"
  shows "access_inventory_response m admin (Inr a) d metadata = access_inventory_response m admin (Inr b) d metadata
    \<and> access_inventory_response m admin (Inl e :: exn + inv_result) d metadata
      = access_inventory_response m admin (Inl e' :: exn + inv_result) d metadata"
proof -
  have "length (iv_entries a) = length (iv_entries b)"
    using assms(1) by (metis same_summary_def length_map)
  moreover have "not_exhaustive m a = not_exhaustive m b"
    using assms(1) by (simp add: same_summary_def not_exhaustive_def)
  ultimately have "inventory_response m a = inventory_response m b"
    using assms(1) by (simp add: inventory_response_def same_summary_def validity_counts_map)
  with assms show ?thesis by (simp add: access_inventory_response_def same_summary_def)
qed

lemma count_validity_sum:
  "dict_ok d \<Longrightarrow> dict_ok (count_validity v d) \<and> sum_list (map snd (count_validity v d)) = sum_list (map snd d) + 1"
proof (induction d)
  case (Cons p d)
  obtain k n where p: "p = (k, n)" by force
  show ?case
  proof (cases "k = v")
    case True
    then show ?thesis using Cons.prems p by (simp add: count_validity_def dict_get_or_def dict_ok_def)
  next
    case False
    have "dict_ok d" using Cons.prems by (simp add: dict_ok_def)
    from Cons.IH [OF this] False Cons.prems p show ?thesis
      by (simp add: count_validity_def dict_get_or_def dict_ok_def dom_update) 
  qed
qed (simp add: count_validity_def dict_get_or_def dict_ok_def)

lemma validity_counts_sum:
  "dict_ok (validity_counts es) \<and> sum_list (map snd (validity_counts es)) = int (length es)"
proof -
  have "dict_ok d \<Longrightarrow> dict_ok (fold count_validity vs d)
    \<and> sum_list (map snd (fold count_validity vs d)) = sum_list (map snd d) + int (length vs)" for vs d
    by (induction vs arbitrary: d) (use count_validity_sum in force)+
  from this [of "[]" "map ie_validity es"] show ?thesis by (simp add: validity_counts_map)
qed

lemma response_fields:
  "dict_get (inventory_response m r) ''read_status''
     = Some (JStr (if not_exhaustive m r \<or> iv_interrupted r then ''partial'' else ''supported''))"
  "dict_get (inventory_response m r) ''count'' = Some (JInt (int (length (iv_entries r))))"
  by (simp_all add: inventory_response_def)

lemma metadata_fields:
  "dict_get (with_metadata d resp) ''read_status'' = dict_get resp ''read_status''"
  "dict_get (with_metadata d resp) ''count'' = dict_get resp ''count''"
  by (simp_all add: with_metadata_def split: option.split)

lemma diagnostics_count: "dict_get (with_connection_diagnostics resp md) ''count'' = dict_get resp ''count''"
  by (simp add: with_connection_diagnostics_def Let_def)

lemma diagnostics_status:
  "dict_get (with_connection_diagnostics resp md) ''read_status''
    = (if dict_get md ''reason'' = Some (JStr ''cleanup_uncertain'') \<and> dict_get resp ''count'' \<noteq> None
       then Some (JStr ''partial'') else dict_get resp ''read_status'')"
  by (auto simp: with_connection_diagnostics_def Let_def)

text \<open>
  A response never claims more than was read: it says \<open>supported\<close> only for a method other than the
  keypad PIN, after a complete, uninterrupted enumeration without unknown layouts, read with an
  administrator key and without an uncertain cleanup; and its counts by validity add up to the
  number of entries it states.
\<close>

lemma inventory_status_honest:
  assumes "access_inventory_response m admin (Inr r) d md = Inr resp"
    and "dict_get resp ''read_status'' = Some (JStr ''supported'')"
  shows "admin \<and> m \<noteq> ''keypad_pin'' \<and> iv_complete r \<and> iv_skipped r = 0 \<and> \<not> iv_interrupted r
    \<and> dict_get md ''reason'' \<noteq> Some (JStr ''cleanup_uncertain'')
    \<and> dict_get resp ''count'' = Some (JInt (sum_list (map snd (validity_counts (iv_entries r)))))"
proof -
  have admin: "admin" using assms by (auto simp: access_inventory_response_def unverified_def split: if_splits)
  with assms(1) have resp: "resp = with_connection_diagnostics (with_metadata (iv_diagnostic r) (inventory_response m r)) md"
    by (simp add: access_inventory_response_def)
  have count: "dict_get resp ''count'' = Some (JInt (int (length (iv_entries r))))"
    unfolding resp diagnostics_count metadata_fields response_fields ..
  have "dict_get resp ''read_status'' = (if dict_get md ''reason'' = Some (JStr ''cleanup_uncertain'')
      then Some (JStr ''partial'')
      else Some (JStr (if not_exhaustive m r \<or> iv_interrupted r then ''partial'' else ''supported'')))"
    unfolding resp diagnostics_status metadata_fields response_fields by simp
  with assms(2) admin count validity_counts_sum [of "iv_entries r"] show ?thesis
    by (auto simp: not_exhaustive_def split: if_splits)
qed

text \<open>A failed read is never reported as supported.\<close>

lemma failed_status:
  assumes "access_inventory_response m admin (Inl e :: exn + inv_result) d md = Inr resp"
  shows "dict_get resp ''read_status'' \<noteq> Some (JStr ''supported'')"
proof -
  have u: "dict_get (unverified m reason stage) ''read_status'' = Some (JStr ''unverified'')"
    "dict_get (unverified m reason stage) ''count'' = None" for reason stage
    by (simp_all add: unverified_def)
  from assms show ?thesis
    by (auto simp: access_inventory_response_def diagnostics_status metadata_fields u Let_def
        split: if_splits option.splits)
qed

subsection \<open>Concrete runs\<close>

definition sample_view :: hass_view where
  "sample_view = \<lparr>hv_device = (\<lambda>d. if d = ''dev'' then Some [(DOMAIN, ''aa'')] else None),
     hv_entries = [\<lparr>se_loaded = True, se_connections = [(''AA'', 7), (''BB'', 8)], se_records = Some {''BB''}\<rparr>],
     hv_format_mac = py_lower\<rparr>"

definition sample_call :: service_call where
  "sample_call = \<lparr>sc_device = ''dev'', sc_code = ''123456'', sc_type = ''permanent'', sc_start = None, sc_end = None\<rparr>"

definition sample_datetimes :: datetime_env where
  "sample_datetimes = \<lparr>de_parse = (\<lambda>v.
     if v = ''a'' then Some (Naive (DateTime 2026 5 1 10 0 0 0))
     else if v = ''b'' then Some (Naive (DateTime 2026 5 1 10 0 30 0))
     else if v = ''c'' then Some (Aware (DateTime 2026 5 2 10 0 0 0) 0) else None),
     de_as_local = (\<lambda>t zone. t)\<rparr>"

definition sample_result :: "json \<Rightarrow> inv_result" where
  "sample_result x = \<lparr>iv_entries = [\<lparr>ie_validity = ''permanent'', ie_rest = x\<rparr>], iv_reason = ''complete'', iv_reason_complete = True, iv_complete = True,
     iv_skipped = 0, iv_interrupted = False, iv_limitation = JNull, iv_diagnostic = None\<rparr>"

theorem inventory_response_private_witness:
  "access_inventory_response ''ic_card'' True (Inr (sample_result (JInt 7))) None []
     = access_inventory_response ''ic_card'' True (Inr (sample_result (JStr ''4711''))) None []"
  by (rule inventory_response_private [of "sample_result (JInt 7)" "sample_result (JStr ''4711'')" "OtherErr ''a''" "OtherErr ''b''",
      THEN conjunct1]) (simp_all add: same_summary_def sample_result_def)

subsection \<open>What the checks let through\<close>

text \<open>
  \<open>str.isdigit\<close> holds of the superscripts two and three, which are no decimal digits.
\<close>

lemma superscript_pin_accepted:
  "validate_code (map char_of [178, 179, 178, 179 :: nat]) = Inr () \<and> \<not> py_isdecimal (map char_of [178, 179, 178, 179 :: nat])"
  by code_simp

text \<open>
  A window inside one minute is accepted, but both of its ends are the same minute for the
  lock.
\<close>

lemma accepted_window_can_be_empty:
  "period_window sample_datetimes (sample_call\<lparr>sc_start := Some ''a'', sc_end := Some ''b''\<rparr>)
     = Inr (''2605011000'', ''2605011000'')"
  by code_simp

text \<open>A window of which only one end has a zone ends in a \<open>TypeError\<close>, not in a validation error.\<close>

lemma mixed_window_type_error:
  "period_window sample_datetimes (sample_call\<lparr>sc_start := Some ''a'', sc_end := Some ''c''\<rparr>) = Inl PyTypeError"
  by code_simp

end
