(* ===== verification/ConnControl.thy ===== *)
theory ConnControl
  imports ConnOps
begin

section \<open>Explicit bolt control (connection.py)\<close>

text \<open>
  One lock or unlock request. The command runs in a task of its own (\<open>control_wait\<close>, over the
  tracker of client.py): a caller that is cancelled abandons it only as long as no control
  frame may have been written. An ambiguous outcome is resolved by one fresh state query and
  never by sending the command again; every other failure ends in a teardown and a
  \<open>TTLockError\<close>.
\<close>

subsection \<open>Operations\<close>

text \<open>The gate the client consults is \<open>_control_is_allowed\<close> of the connection, at that moment.\<close>

fun gate_event :: "'w conn \<Rightarrow> ctl_event \<Rightarrow> ctl_event" where
  "gate_event s (LockAcquired _) = LockAcquired (control_is_allowed s)"
| "gate_event s (PhaseReturn _) = PhaseReturn (control_is_allowed s)"
| "gate_event s ev = ev"

text \<open>The task after \<open>task.cancel()\<close>: it runs to its end, its outcome is dropped.\<close>

fun drain :: "sdk_cmds \<Rightarrow> wake list \<Rightarrow> ctl \<Rightarrow> 'w conn \<Rightarrow> ctl \<times> 'w conn" where
  "drain c [] t s = (t, s)"
| "drain c (WEvent ev # ws) t s = drain c ws (ctl_step c t (gate_event s ev)) s"
| "drain c (WCancel # ws) t s = drain c ws t s"
| "drain c (WOther i # ws) t s = drain c ws t (interfere i s)"

text \<open>
  \<open>_async_await_control_task_locked\<close>. When the listed wake-ups are over and the command has
  not ended, the SDK raises \<open>final\<close> in the phase it is in.
\<close>

definition finished :: "ctl \<Rightarrow> (exn + unit) option" where
  "finished t = (case point t of PcDone r \<Rightarrow> Some r | _ \<Rightarrow> None)"

definition final_outcome :: "sdk_cmds \<Rightarrow> exn \<Rightarrow> ctl \<Rightarrow> exn + unit" where
  "final_outcome c final t = (case finished t of
     Some r \<Rightarrow> r
   | None \<Rightarrow> (case finished (ctl_step c t (PhaseRaise final)) of Some r \<Rightarrow> r | None \<Rightarrow> Inl final))"

fun control_wait ::
  "sdk_cmds \<Rightarrow> exn \<Rightarrow> wake list \<Rightarrow> ctl \<Rightarrow> 'w conn \<Rightarrow> (exn + unit) \<times> ctl \<times> 'w conn" where
  "control_wait c final [] t s = (final_outcome c final t, t, s)"
| "control_wait c final (w # ws) t s = (case finished t of
     Some r \<Rightarrow> (r, t, s)
   | None \<Rightarrow> (case w of
       WEvent ev \<Rightarrow> control_wait c final ws (ctl_step c t (gate_event s ev)) s
     | WOther i \<Rightarrow> control_wait c final ws t (interfere i s)
     | WCancel \<Rightarrow>
         if control_committed (tr t) then control_wait c final ws t s
         else (Inl Cancelled, drain c ws t s)))"

definition await_control_task :: "'w env \<Rightarrow> action \<Rightarrow> nat \<Rightarrow> ('w conn, unit) eff" where
  "await_control_task E a g =
     m_then (call (CControl g a))
      (\<lambda>s. case e_control E g a (world s) of ((ws, final), w) \<Rightarrow>
         (case control_wait (e_cmds E) final ws
            (begin_control (e_cmds E) a (set_control_allowed new_tracker)) (s\<lparr>world := w\<rparr>) of
          (r, _, s') \<Rightarrow> (r, s')))"

definition expected_state :: "'w env \<Rightarrow> action \<Rightarrow> int" where
  "expected_state E a = (if a = ALock then e_locked E else e_unlocked E)"

definition query_matches :: "'w env \<Rightarrow> action \<Rightarrow> nat \<Rightarrow> ('w conn, bool) eff" where
  "query_matches E a g = m_then (call (CQuery g)) (m_bind (await (e_query_state E g)) (\<lambda>r. case r of
     Inr (state, battery) \<Rightarrow> m_return (state = Some (expected_state E a))
   | Inl e \<Rightarrow> if is_exception e then m_return False else m_raise e))"

definition reconcile_control :: "'w env \<Rightarrow> action \<Rightarrow> nat \<Rightarrow> ('w conn, bool) eff" where
  "reconcile_control E a g = m_bind (m_gets (\<lambda>s. e_connected E g (world s))) (\<lambda>alive.
     if alive then query_matches E a g
     else m_bind (disconnect_locked E) (\<lambda>_.
       m_bind (ensure_connected E True AMBIGUOUS_RECONCILIATION) (\<lambda>replacement. case replacement of
         None \<Rightarrow> m_return False
       | Some g' \<Rightarrow> query_matches E a g')))"

text \<open>\<open>None\<close> is a confirmed command, \<open>Some unknown\<close> the original ambiguity after a teardown.\<close>

definition capture_reconciliation :: "'w env \<Rightarrow> action \<Rightarrow> nat \<Rightarrow> exn \<Rightarrow> ('w conn, exn option) eff" where
  "capture_reconciliation E a g unknown =
     m_bind (m_catch (reconcile_control E a g) (\<lambda>_. m_return False)) (\<lambda>confirmed.
       if confirmed then m_return None
       else m_then (m_catch (m_bind (disconnect_locked E) (\<lambda>_. m_return ())) (\<lambda>_. m_return ()))
              (m_return (Some unknown)))"

text \<open>
  \<open>_async_await_reconciliation_task_locked\<close>: the caller's cancellations are absorbed; a task
  that was itself cancelled before it ran leaves the ambiguity.
\<close>

definition await_reconciliation :: "'w env \<Rightarrow> action \<Rightarrow> nat \<Rightarrow> exn \<Rightarrow> ('w conn, unit) eff" where
  "await_reconciliation E a g unknown =
     m_bind (env_peek (e_reconcile_cancelled E)) (\<lambda>cancelled.
       if cancelled then m_raise unknown
       else m_bind (capture_reconciliation E a g unknown) (\<lambda>outcome. case outcome of
         None \<Rightarrow> m_return ()
       | Some e \<Rightarrow> m_raise e))"

definition control_failed :: "'w env \<Rightarrow> action \<Rightarrow> nat \<Rightarrow> exn \<Rightarrow> ('w conn, unit) eff" where
  "control_failed E a g e = m_bind (m_gets lock_mac) (\<lambda>mac.
     if is_unknown e then await_reconciliation E a g e
     else if is_ttlock e then teardown_raise E e
     else if is_timeout e
       then teardown_raise E (TTLockErr (''Lock '' @ mac @ '' timed out responding to '' @ action_name a))
     else if is_exception e
       then teardown_raise E
         (TTLockErr (''Lock '' @ mac @ '' failed to '' @ action_name a @ '': '' @ exn_text e))
     else m_raise e)"

definition run_control_command :: "'w env \<Rightarrow> action \<Rightarrow> ('w conn, unit) eff" where
  "run_control_command E a =
     m_bind (ensure_connected E True EXPLICIT_CONTROL) (\<lambda>client. case client of
       None \<Rightarrow> m_bind (m_gets (\<lambda>s. with_diagnostic
           (''Lock '' @ lock_mac s @ '' not reachable via Bluetooth'') s))
         (\<lambda>msg. m_raise (TTLockErr msg))
     | Some g \<Rightarrow> m_catch (await_control_task E a g) (control_failed E a g))"

text \<open>\<open>_async_run_command\<close>: explicit control preempts an inventory read.\<close>

definition run_command :: "'w env \<Rightarrow> action \<Rightarrow> ('w conn, unit) eff" where
  "run_command E a =
     m_then (m_modify (\<lambda>s. s\<lparr>control_requests := control_requests s + 1\<rparr>))
      (m_finally (m_then cancel_inventory (run_control_command E a))
        (m_modify (\<lambda>s. s\<lparr>control_requests := control_requests s - 1\<rparr>)))"

subsection \<open>Lemmas\<close>

lemma interfere_rest: "rest k s0 s \<Longrightarrow> rest k s0 (interfere i s)"
  using at_rest_interferes [of s "[i]"] by (simp add: rest_def issued_def)

lemma drain_rest: "rest k s0 s \<Longrightarrow> rest k s0 (snd (drain c ws t s))"
  by (induction c ws t s rule: drain.induct) (simp_all add: interfere_rest)

lemma wait_rest:
  "rest k s0 s \<Longrightarrow> control_wait c final ws t s = (r, t', s') \<Longrightarrow> rest k s0 s'"
proof (induction c final ws t s rule: control_wait.induct)
  case (1 c final t s)
  then show ?case by simp
next
  case (2 c final w ws t s)
  show ?case
  proof (cases "finished t")
    case (Some r)
    with 2 show ?thesis by simp
  next
    case None
    show ?thesis
    proof (cases w)
      case (WEvent ev)
      with None 2 show ?thesis by simp
    next
      case WCancel
      with None 2 drain_rest [of k s0 s c ws t] show ?thesis by (auto split: if_splits)
    next
      case (WOther i)
      with None 2 interfere_rest [of k s0 s i] show ?thesis by simp
    qed
  qed
qed

lemma await_control_rest:
  "triple (rest k s0) (await_control_task E a g) (\<lambda>_. rest (Suc k) s0) (\<lambda>_. rest (Suc k) s0)"
proof -
  have "triple (rest (Suc k) s0) (\<lambda>s. case e_control E g a (world s) of ((ws, final), w) \<Rightarrow>
         (case control_wait (e_cmds E) final ws
            (begin_control (e_cmds E) a (set_control_allowed new_tracker)) (s\<lparr>world := w\<rparr>) of
          (r, _, s') \<Rightarrow> (r, s'))) (\<lambda>_. rest (Suc k) s0) (\<lambda>_. rest (Suc k) s0)"
    by (auto simp: triple_def split: prod.splits sum.splits intro: wait_rest [rotated])
  then show ?thesis
    unfolding await_control_task_def call_def
    by (rule triple_then_modify) (rule rest_call_control)
qed

lemma matches_rest:
  "triple (rest k s0) (query_matches E a g) (\<lambda>_. rest k s0) (\<lambda>e s. e = Cancelled \<and> rest k s0 s)"
  unfolding query_matches_def
  by (intro triple_then [OF triple_call] triple_bind [OF triple_await [OF stable_rest]])
    (auto intro!: triple_return triple_raise simp: is_exception_def split: sum.split prod.split)

lemma reconcile_rest:
  "triple (rest k s0) (reconcile_control E a g) (\<lambda>_. rest k s0) (\<lambda>e s. e = Cancelled \<and> rest k s0 s)"
  unfolding reconcile_control_def
  by (intro triple_bind_gets triple_if triple_pre [OF matches_rest] triple_pre [OF triple_bind [OF disc_rest]]
      triple_bind [OF ensure_rest] triple_option triple_return matches_rest) auto

lemma capture_rest:
  "triple (rest k s0) (capture_reconciliation E a g u) (\<lambda>r s. r \<in> {None, Some u} \<and> rest k s0 s) X"
proof -
  have tear: "triple (rest k s0) (m_catch (m_bind (disconnect_locked E) (\<lambda>_. m_return ())) (\<lambda>_. m_return ()))
      (\<lambda>_. rest k s0) X"
    by (rule triple_catch [OF triple_bind [OF disc_rest]]) (auto intro!: triple_return)
  have rec: "triple (rest k s0) (m_catch (reconcile_control E a g) (\<lambda>_. m_return False)) (\<lambda>_. rest k s0) X"
    by (rule triple_catch [OF reconcile_rest]) (auto intro!: triple_return)
  show ?thesis
    unfolding capture_reconciliation_def
    by (intro triple_bind [OF rec] triple_if triple_return triple_then [OF tear]) auto
qed

lemma failed_rest:
  "triple (rest k s0) (control_failed E a g e) (\<lambda>_. rest k s0)
     (\<lambda>e s. (is_ttlock e \<or> e = Cancelled) \<and> rest k s0 s)" (is "triple _ _ ?Q ?E")
proof -
  have tear: "triple (rest k s0) (teardown_raise E x) ?Q ?E" if "is_ttlock x" for x
    by (rule triple_post [OF teardown_raise_rest]) (use that in auto)
  have unknown: "triple (rest k s0) (await_reconciliation E a g e) ?Q ?E" if "is_unknown e"
  proof -
    have tt: "is_ttlock e" using that by (cases e) simp_all
    have "triple (\<lambda>s. r \<in> {None, Some e} \<and> rest k s0 s)
        (case r of None \<Rightarrow> m_return () | Some e \<Rightarrow> m_raise e) ?Q ?E" for r
      using tt by (auto intro!: triple_option triple_return triple_raise)
    then show ?thesis
      unfolding await_reconciliation_def
      using tt by (intro triple_bind [OF triple_env_peek] triple_if triple_raise triple_bind [OF capture_rest]) auto
  qed
  show ?thesis
    unfolding control_failed_def
    by (intro triple_bind_gets triple_if triple_pre [OF unknown] triple_pre [OF tear] triple_raise)
      (auto simp: is_exception_def)
qed

lemma control_rest:
  "triple (rest k s0) (run_control_command E a) (\<lambda>_. rest (Suc k) s0)
     (\<lambda>e s. (is_ttlock e \<or> e = Cancelled) \<and> rest (Suc k) s0 s)" (is "triple _ _ ?Q ?E")
proof -
  have more: "rest k s0 s \<Longrightarrow> rest (Suc k) s0 s" for s
    by (auto simp: rest_def issued_def)
  have missing: "triple (rest k s0) (m_bind (m_gets f) (\<lambda>msg. m_raise (TTLockErr msg))) ?Q ?E" for f
    by (intro triple_bind_gets triple_raise) (auto intro: more)
  show ?thesis
    unfolding run_control_command_def
    by (intro triple_bind [OF ensure_restE] triple_option missing
        triple_catch [OF await_control_rest] failed_rest) (auto intro: more)
qed

lemma command_rest:
  "triple (rest k s0) (run_command E a) (\<lambda>_. rest (Suc k) s0)
     (\<lambda>e s. (is_ttlock e \<or> e = Cancelled) \<and> rest (Suc k) s0 s)" (is "triple _ _ ?Q ?E")
proof -
  have body: "triple (rest k s0) (m_then cancel_inventory (run_control_command E a)) ?Q ?E"
    by (rule triple_then [OF cancel_inventory_rest control_rest])
  have "triple (rest k s0) (m_finally (m_then cancel_inventory (run_control_command E a))
        (m_modify (\<lambda>s. s\<lparr>control_requests := control_requests s - 1\<rparr>))) ?Q ?E"
    by (rule triple_finally [OF body]) (auto intro!: triple_modify)
  then show ?thesis
    unfolding run_command_def by (rule triple_then_modify) simp
qed

end
