(* ===== verification/ConnInventory.thy ===== *)
theory ConnInventory
  imports ConnControl
begin

section \<open>Access inventory reads (connection.py)\<close>

text \<open>
  A low-priority read of the credentials a lock holds. It refuses to queue behind anything,
  shares one deadline between acquisition and reading, always tears its session down, and
  keeps a small diagnostic record. Exceptions leave it only in the closed vocabulary of
  access.py, or as the SDK's own inventory error, or as the caller's cancellation.
\<close>

definition inventory_admin_available :: "'w conn \<Rightarrow> bool" where
  "inventory_admin_available s \<longleftrightarrow> admin_ps s \<noteq> [] \<and> py_isdecimal (admin_ps s)"

definition inventory_methods :: "string list" where
  "inventory_methods = [''keypad_pin'', ''fingerprint'', ''ic_card'']"

definition failure_stage :: "access_failure \<Rightarrow> string" where
  "failure_stage f = (if f = AF_GATT then ''gatt'' else if f = AF_CLEANUP then ''cleanup'' else ''discovery'')"

definition diag_update :: "(string \<times> diag_value) list \<Rightarrow> 'w conn \<Rightarrow> 'w conn" where
  "diag_update kvs s = s\<lparr>inventory_diag := fold (\<lambda>(k, v) d. dict_set k v d) kvs (inventory_diag s)\<rparr>"

definition diag_reason :: "string \<Rightarrow> string \<Rightarrow> 'w conn \<Rightarrow> 'w conn" where
  "diag_reason reason stage = diag_update [(''reason'', DStr reason), (''stage'', DStr stage)]"

text \<open>Python's \<open>round\<close> of a number to an integer: ties go to the even neighbour.\<close>

definition py_round :: "rat \<Rightarrow> int" where
  "py_round x = (let f = \<lfloor>x\<rfloor>; d = x - of_int f in
     if d < 1 / 2 then f else if 1 / 2 < d then f + 1 else if even f then f else f + 1)"

text \<open>
  The two kinds of read: the SDK call and the summary of what it returns. \<open>ik_private\<close> is the
  argument \<open>private\<close> of the code, by which \<open>_async_inventory_result\<close> chooses the call.
\<close>

record ('w, 'a) inventory_kind =
  ik_private :: bool
  ik_read :: "string \<Rightarrow> ('w, 'a) sdk_op"
  ik_summary :: "'a \<Rightarrow> inv_result"

definition public_read :: "'w env \<Rightarrow> ('w, inv_result) inventory_kind" where
  "public_read E = \<lparr>ik_private = False, ik_read = (\<lambda>method g. e_inventory E g method), ik_summary = id\<rparr>"

definition private_read :: "'w env \<Rightarrow> ('w, admin_result) inventory_kind" where
  "private_read E = \<lparr>ik_private = True, ik_read = (\<lambda>method g. e_admin_inventory E g method), ik_summary = snd\<rparr>"

text \<open>The block under \<open>asyncio.timeout\<close>.\<close>

definition inventory_block :: "'w env \<Rightarrow> ('w, 'a) inventory_kind \<Rightarrow> string \<Rightarrow> ('w conn, 'a) eff" where
  "inventory_block E K method =
     m_bind (ensure_connected E True INVENTORY) (\<lambda>client. case client of
       None \<Rightarrow> m_bind (m_gets acquisition_failure) (\<lambda>f. m_raise (AccessErr f (failure_stage f)))
     | Some g \<Rightarrow> m_then (m_modify (diag_update [(''stage'', DStr ''inventory'')]))
         (m_then (call (CInventory g method (ik_private K)))
          (m_bind (await (ik_read K method g)) (\<lambda>r. case r of
             Inl e \<Rightarrow> m_raise e
           | Inr res \<Rightarrow> m_then (m_modify (diag_reason (iv_reason (ik_summary K res)) ''inventory'')) (m_return res)))))"

text \<open>Its exit: a cancellation that is the deadline's own becomes \<open>TimeoutError\<close>.\<close>

definition inventory_timed :: "'w env \<Rightarrow> ('w, 'a) inventory_kind \<Rightarrow> string \<Rightarrow> ('w conn, 'a) eff" where
  "inventory_timed E K method = m_catch (inventory_block E K method)
     (\<lambda>e. m_bind (env_peek (e_timeout_expired E)) (\<lambda>expired.
        if e = Cancelled \<and> expired then m_raise (TimeoutErr []) else m_raise e))"

definition diag_stage :: "'w conn \<Rightarrow> string" where
  "diag_stage s = (case dict_get (inventory_diag s) ''stage'' of Some (DStr st) \<Rightarrow> st | _ \<Rightarrow> [])"

text \<open>The handlers, by the class of the exception.\<close>

definition cancel_reason :: "'w conn \<Rightarrow> access_failure" where
  "cancel_reason s = (if control_requests s \<noteq> 0 then AF_PREEMPTED else AF_CANCELLED)"

fun inventory_handler :: "exn \<Rightarrow> ('w conn, 'a) eff" where
  "inventory_handler (AccessErr f st) =
     m_then (m_modify (diag_reason (failure_value f) st)) (m_raise (AccessErr f st))"
| "inventory_handler (InventoryErr t r st msg) =
     m_then (m_modify (diag_reason r st)) (m_raise (InventoryErr t r st msg))"
| "inventory_handler (TimeoutErr msg) =
     m_then (m_modify (diag_reason (failure_value AF_DEADLINE) ''inventory''))
       (m_raise (AccessErr AF_DEADLINE ''inventory''))"
| "inventory_handler Cancelled =
     m_then (m_modify (\<lambda>s. diag_reason (failure_value (cancel_reason s)) (diag_stage s) s))
       (m_raise Cancelled)"
| "inventory_handler _ =
     m_then (m_modify (diag_reason (failure_value AF_UNKNOWN) ''inventory''))
       (m_raise (AccessErr AF_UNKNOWN ''inventory''))"

text \<open>The inner \<open>finally\<close>: what the diagnostics say at the end.\<close>

definition inventory_closing :: "'w env \<Rightarrow> rat \<Rightarrow> ('w conn, unit) eff" where
  "inventory_closing E started = m_bind (m_gets (\<lambda>s. client s = None \<and> pending s = None)) (\<lambda>cleaned.
     m_bind (env_call (e_monotonic E)) (\<lambda>now.
       m_modify (\<lambda>s.
         (let s1 = diag_update [(''cleanup_confirmed'', DBool cleaned),
              (''elapsed_ms'', DInt (py_round ((now - started) * 1000))),
              (''advertisement_source'',
                 case advertisement_source s of None \<Rightarrow> DNone | Some a \<Rightarrow> DStr a),
              (''gatt_backend_source'', DStr ''unverified'')] s
          in if cleaned then s1 else diag_reason (failure_value AF_CLEANUP) ''cleanup'' s1))))"

definition read_access_inventory :: "'w env \<Rightarrow> ('w, 'a) inventory_kind \<Rightarrow> string \<Rightarrow> ('w conn, 'a) eff" where
  "read_access_inventory E K method =
     m_bind (m_gets (\<lambda>s. control_requests s \<noteq> 0 \<or> e_lock_held E (world s) \<or> closing s)) (\<lambda>busy.
       if busy then m_raise (AccessErr AF_BUSY ''queue'')
       else m_bind (env_call (e_monotonic E)) (\<lambda>started.
         m_then (m_modify (\<lambda>s. s\<lparr>inventory_diag :=
             [(''reason'', DStr ''in_progress''), (''stage'', DStr ''acquisition'')],
             advertisement_source := None\<rparr>))
          (m_finally (m_catch (inventory_timed E K method) inventory_handler)
            (m_finally (m_bind (disconnect_locked E) (\<lambda>_. m_return ()))
              (inventory_closing E started)))))"

text \<open>\<open>_async_start_inventory\<close>: one task at a time, forgotten when it is done.\<close>

definition start_inventory :: "'w env \<Rightarrow> ('w, 'a) inventory_kind \<Rightarrow> string \<Rightarrow> ('w conn, 'a) eff" where
  "start_inventory E K method =
     m_bind (m_gets (\<lambda>s. (inventory_admin_available s, inventory_running s))) (\<lambda>(admin, running).
       if \<not> admin then m_raise (TTLockErr ''Credential inventory requires an admin key'')
       else if method \<notin> set inventory_methods then m_raise (ValueErr ''Unknown inventory method'')
       else if running then m_raise (AccessErr AF_BUSY ''queue'')
       else m_then (m_modify (\<lambda>s. s\<lparr>inventory_running := True\<rparr>))
         (m_finally (read_access_inventory E K method)
           (m_modify (\<lambda>s. s\<lparr>inventory_running := False\<rparr>))))"

definition get_access_inventory :: "'w env \<Rightarrow> string \<Rightarrow> ('w conn, inv_result) eff" where
  "get_access_inventory E method = start_inventory E (public_read E) method"

definition get_administrative_inventory :: "'w env \<Rightarrow> string \<Rightarrow> ('w conn, admin_result) eff" where
  "get_administrative_inventory E method = start_inventory E (private_read E) method"

subsection \<open>Lemmas\<close>

lemma diag_rest [simp]:
  "rest k s0 (diag_update kvs s) = rest k s0 s" "rest k s0 (diag_reason r st s) = rest k s0 s"
  by (simp_all add: diag_update_def diag_reason_def)

text \<open>The exceptions a read may end with.\<close>

fun inventory_exn :: "exn \<Rightarrow> bool" where
  "inventory_exn (AccessErr _ _) = True"
| "inventory_exn (InventoryErr _ _ _ _) = True"
| "inventory_exn Cancelled = True"
| "inventory_exn _ = False"

lemma block_rest:
  "triple (rest k s0) (inventory_block E K method) (\<lambda>_. rest k s0) (\<lambda>_. rest k s0)"
proof -
  have outcome: "triple (rest k s0) (case r of
             Inl e \<Rightarrow> m_raise e
           | Inr res \<Rightarrow> m_then (m_modify (diag_reason (iv_reason (ik_summary K res)) ''inventory'')) (m_return res))
      (\<lambda>_. rest k s0) (\<lambda>_. rest k s0)" for r
    by (cases r) (auto simp: triple_def eff_defs)
  have reading: "triple (rest k s0) (m_then (call (CInventory g method (ik_private K)))
      (m_bind (await (ik_read K method g)) (\<lambda>r. case r of
             Inl e \<Rightarrow> m_raise e
           | Inr res \<Rightarrow> m_then (m_modify (diag_reason (iv_reason (ik_summary K res)) ''inventory'')) (m_return res))))
      (\<lambda>_. rest k s0) (\<lambda>_. rest k s0)" for g
    by (intro triple_then [OF triple_call] triple_bind [OF triple_await [OF stable_rest]] outcome) simp
  show ?thesis
    unfolding inventory_block_def
    by (intro triple_bind [OF ensure_restE] triple_option triple_bind_gets triple_raise
        triple_then_modify [OF reading]) simp_all
qed

lemma timed_rest:
  "triple (rest k s0) (inventory_timed E K method) (\<lambda>_. rest k s0) (\<lambda>_. rest k s0)"
  unfolding inventory_timed_def
  by (intro triple_catch [OF block_rest] triple_bind [OF triple_env_peek] triple_if triple_raise)

lemma handler_rest:
  "triple (rest k s0) (inventory_handler e) (\<lambda>_. rest k s0) (\<lambda>e s. inventory_exn e \<and> rest k s0 s)"
  by (cases e) (auto simp: triple_def eff_defs)

text \<open>The end of a read: nothing owned exactly when the diagnostics say so.\<close>

definition diag_honest :: "'w conn \<Rightarrow> bool" where
  "diag_honest s \<longleftrightarrow> dict_get (inventory_diag s) ''cleanup_confirmed'' = Some (DBool (owned s = None))
     \<and> (owned s \<noteq> None \<longrightarrow> dict_get (inventory_diag s) ''reason'' = Some (DStr (failure_value AF_CLEANUP)))"

lemma closing_rest:
  "triple (rest k s0) (inventory_closing E t) (\<lambda>_ s. rest k s0 s \<and> diag_honest s) X"
  unfolding inventory_closing_def
  by (auto simp: triple_def eff_defs env_call_def Let_def diag_honest_def diag_update_def diag_reason_def
      owned_None [symmetric] update_conv')

lemma read_rest:
  "triple (rest k s0) (read_access_inventory E K method)
     (\<lambda>_ s. rest k s0 s \<and> diag_honest s)
     (\<lambda>e s. inventory_exn e \<and> rest k s0 s \<and> (e = AccessErr AF_BUSY ''queue'' \<or> diag_honest s))"
    (is "triple ?P _ ?Q ?E")
proof -
  have caught: "triple ?P (m_catch (inventory_timed E K method) inventory_handler)
      (\<lambda>_. ?P) (\<lambda>e s. inventory_exn e \<and> ?P s)"
    by (rule triple_catch [OF timed_rest handler_rest])
  have disc: "triple ?P (m_bind (disconnect_locked E) (\<lambda>_. m_return ())) (\<lambda>_. ?P) (\<lambda>e s. e = Cancelled \<and> ?P s)"
    by (rule triple_bind [OF disc_rest]) (rule triple_return)
  have fin: "triple ?P (m_finally (m_bind (disconnect_locked E) (\<lambda>_. m_return ())) (inventory_closing E t))
      (\<lambda>_ s. ?P s \<and> diag_honest s) ?E" for t
  proof (rule triple_finally [OF disc closing_rest])
    show "triple (\<lambda>s. e = Cancelled \<and> ?P s) (inventory_closing E t) (\<lambda>_. ?E e) ?E" for e
      using closing_rest [of k s0 E t] by (cases "e = Cancelled") (auto simp: triple_def split: sum.split)
  qed
  have all: "triple ?P (m_finally (m_catch (inventory_timed E K method) inventory_handler)
            (m_finally (m_bind (disconnect_locked E) (\<lambda>_. m_return ())) (inventory_closing E t))) ?Q ?E" for t
  proof (rule triple_finally [OF caught fin])
    show "triple (\<lambda>s. inventory_exn e \<and> ?P s)
        (m_finally (m_bind (disconnect_locked E) (\<lambda>_. m_return ())) (inventory_closing E t)) (\<lambda>_. ?E e) ?E" for e
      by (cases "inventory_exn e") (auto intro!: triple_post [OF fin] simp: triple_def [of "\<lambda>s. False"])
  qed
  show ?thesis
    unfolding read_access_inventory_def
    by (intro triple_bind_gets triple_if triple_raise triple_bind [where R = "\<lambda>_. ?P"]
        triple_pre [OF triple_env_call [OF stable_rest]] triple_then_modify [OF all]) auto
qed

lemma start_rest:
  "triple (rest k s0) (start_inventory E K method) (\<lambda>_. rest k s0)
     (\<lambda>e s. (inventory_exn e \<or> is_ttlock e \<or> (\<exists>m. e = ValueErr m)) \<and> rest k s0 s)"
proof -
  have body: "triple (rest k s0) (m_finally (read_access_inventory E K method)
           (m_modify (\<lambda>s. s\<lparr>inventory_running := False\<rparr>))) (\<lambda>_. rest k s0) (\<lambda>e s. inventory_exn e \<and> rest k s0 s)"
    by (rule triple_finally [OF read_rest]) (auto intro!: triple_modify)
  have body': "triple (rest k s0) (m_finally (read_access_inventory E K method)
           (m_modify (\<lambda>s. s\<lparr>inventory_running := False\<rparr>))) (\<lambda>_. rest k s0)
      (\<lambda>e s. (inventory_exn e \<or> is_ttlock e \<or> (\<exists>m. e = ValueErr m)) \<and> rest k s0 s)"
    by (rule triple_post [OF body]) auto
  have "triple (\<lambda>s. rest k s0 s \<and> a = (inventory_admin_available s, inventory_running s))
      (case a of (admin, running) \<Rightarrow>
       if \<not> admin then m_raise (TTLockErr ''Credential inventory requires an admin key'')
       else if method \<notin> set inventory_methods then m_raise (ValueErr ''Unknown inventory method'')
       else if running then m_raise (AccessErr AF_BUSY ''queue'')
       else m_then (m_modify (\<lambda>s. s\<lparr>inventory_running := True\<rparr>))
         (m_finally (read_access_inventory E K method)
           (m_modify (\<lambda>s. s\<lparr>inventory_running := False\<rparr>)))) (\<lambda>_. rest k s0)
      (\<lambda>e s. (inventory_exn e \<or> is_ttlock e \<or> (\<exists>m. e = ValueErr m)) \<and> rest k s0 s)" for a
    by (cases a) (auto intro!: triple_raise triple_then_modify [OF body'])
  then show ?thesis
    unfolding start_inventory_def by (rule triple_bind_gets)
qed

text \<open>A read that returned left honest diagnostics.\<close>

lemma read_result_honest:
  assumes "at_rest s" and "start_inventory E K m s = (Inr r, s')"
  shows "diag_honest s' \<and> inventory_admin_available s"
proof -
  let ?s = "s\<lparr>inventory_running := True\<rparr>"
  have "at_rest ?s" using assms(1) by simp
  from assms(2) obtain t where t: "read_access_inventory E K m ?s = (Inr r, t)"
    "s' = t\<lparr>inventory_running := False\<rparr>" "inventory_admin_available s"
    by (auto simp: start_inventory_def eff_defs split: prod.splits sum.splits if_splits)
  from triple_result [OF read_rest [of 0 ?s E K m] rest_refl [OF \<open>at_rest ?s\<close>] t(1)]
  have "diag_honest t" by simp
  with t(2,3) show ?thesis by (simp add: diag_honest_def)
qed

end
