(* ===== verification/ConnProps.thy ===== *)
theory ConnProps
  imports ConnInventory
begin

section \<open>Properties of the connection\<close>

text \<open>
  The contracts of the operations, stated over the model, with a sample environment in which
  a lock answers. \<open>conn_reach\<close> is every history of one connection: operations in any order,
  each over any environment, with callbacks between them. A round of the reconnect loop holds the
  lock for its acquisition only: \<open>reach_acquire\<close> is that part alone, so that anything may follow
  while the loop waits for the link to drop.
\<close>

subsection \<open>Histories\<close>

inductive conn_reach :: "'w conn \<Rightarrow> bool" where
  reach_new: "conn_reach (new_conn m ps cool h w)"
| reach_callback: "conn_reach s \<Longrightarrow> conn_reach (interfere i s)"
| reach_start: "conn_reach s \<Longrightarrow> conn_reach (async_start b s)"
| reach_query: "conn_reach s \<Longrightarrow> query_state E a s = (rq, s') \<Longrightarrow> conn_reach s'"
| reach_manage: "conn_reach s \<Longrightarrow> run_management_command E nm op a s = (rm :: exn + int, s') \<Longrightarrow> conn_reach s'"
| reach_log: "conn_reach s \<Longrightarrow> get_operation_log E s = (rl, s') \<Longrightarrow> conn_reach s'"
| reach_command: "conn_reach s \<Longrightarrow> run_command E ac s = (ru, s') \<Longrightarrow> conn_reach s'"
| reach_inventory: "conn_reach s \<Longrightarrow> get_access_inventory E nm s = (ri, s') \<Longrightarrow> conn_reach s'"
| reach_administrative: "conn_reach s \<Longrightarrow> get_administrative_inventory E nm s = (rp, s') \<Longrightarrow> conn_reach s'"
| reach_round: "conn_reach s \<Longrightarrow> maintain_rounds E n 1 s = (rr, s') \<Longrightarrow> conn_reach s'"
| reach_acquire: "conn_reach s \<Longrightarrow> ensure_connected E a i s = (rn, s') \<Longrightarrow> conn_reach s'"
| reach_stop: "conn_reach s \<Longrightarrow> async_stop E s = (ru, s') \<Longrightarrow> conn_reach s'"

lemma rest_at_rest: "rest k s0 s \<Longrightarrow> at_rest s"
  by (simp add: rest_def)

lemma result_at_rest:
  assumes "triple (rest k s0) m Q X" and "at_rest s0" and "m s0 = (r, s')"
    and "\<And>a s. Q a s \<Longrightarrow> at_rest s" and "\<And>e s. X e s \<Longrightarrow> at_rest s"
  shows "at_rest s'"
  using triple_result [OF assms(1) rest_refl [OF assms(2)] assms(3)] assms(4,5)
  by (cases r) auto

lemma backoff_one: "backoff_ok 1"
  using initial_backoff_ok by (simp add: RECONNECT_INITIAL_BACKOFF_def)

lemma reach_at_rest: "conn_reach s \<Longrightarrow> at_rest s"
proof (induction rule: conn_reach.induct)
  case (reach_new m ps cool h w)
  show ?case by (rule new_conn_at_rest)
next
  case (reach_callback s i)
  then show ?case using at_rest_interferes [of s "[i]"] by simp
next
  case (reach_start s b)
  then show ?case by (simp add: async_start_def)
next
  case (reach_query s E a rq s')
  show ?case
    by (rule result_at_rest [OF query_rest [of 0] reach_query(3,2)]) (auto dest: rest_at_rest)
next
  case (reach_manage s E nm op a rm s')
  show ?case
    by (rule result_at_rest [OF management_rest [of 0] reach_manage(3,2)]) (auto dest: rest_at_rest)
next
  case (reach_log s E rl s')
  show ?case
    by (rule result_at_rest [OF log_rest [of 0] reach_log(3,2)]) (auto dest: rest_at_rest)
next
  case (reach_command s E ac ru s')
  show ?case
    by (rule result_at_rest [OF command_rest [of 0] reach_command(3,2)]) (auto dest: rest_at_rest)
next
  case (reach_inventory s E nm ri s')
  show ?case
    by (rule result_at_rest [OF start_rest [of 0] reach_inventory(3) reach_inventory(2) [unfolded get_access_inventory_def]])
      (auto dest: rest_at_rest)
next
  case (reach_administrative s E nm rp s')
  show ?case
    by (rule result_at_rest [OF start_rest [of 0] reach_administrative(3)
        reach_administrative(2) [unfolded get_administrative_inventory_def]]) (auto dest: rest_at_rest)
next
  case (reach_round s E n rr s')
  show ?case
    by (rule result_at_rest [OF rounds_rest [OF backoff_one, of 0] reach_round(3,2)])
      (auto dest: rest_at_rest)
next
  case (reach_acquire s E a i rn s')
  show ?case
    by (rule result_at_rest [OF ensure_rest [of 0] reach_acquire(3,2)]) (auto dest: rest_at_rest)
next
  case (reach_stop s E ru s')
  then show ?case using triple_result [OF stop_triple [of E] reach_stop(3,2)] by (cases ru) auto
qed

subsection \<open>A sample environment\<close>

text \<open>
  One route in Home Assistant's history; the connect succeeds, the state is \<open>1\<close> with battery
  \<open>80\<close>, a disconnect is confirmed. The world counts clock reads.
\<close>

definition sample_sdk :: sdk_cmds where
  "sample_sdk = \<lparr>CMD_UNLOCK = 71, CMD_LOCK = 88, CMD_CHECK_USER_TIME = 85\<rparr>"

definition sample_env :: "nat env" where
  "sample_env = \<lparr>
     e_monotonic = (\<lambda>w. (of_nat w, Suc w)), e_ha_time = (\<lambda>w. (of_nat w, w)),
     e_device = (\<lambda>_. Some ''dev''),
     e_last_info = (\<lambda>_. Some \<lparr>si_device = ''dev'', si_source = ''hci0'', si_rssi = -60, si_time = 0\<rparr>),
     e_scanners = (\<lambda>_. []), e_learned_interval = (\<lambda>_. None), e_reachability = (\<lambda>_. None),
     e_connected = (\<lambda>_ _. True), e_cleanup_confirmed = (\<lambda>_ _. Some False),
     e_connect = (\<lambda>_ _ w. ((\<lparr>cr_outcome = Inr (), cr_expired = False, cr_cancelled = False\<rparr>, []), w)),
     e_disconnect = (\<lambda>_ w. ((Inr (), []), w)), e_interrupts = (\<lambda>w. ((0, []), w)),
     e_scan = (\<lambda>_ w. ((\<lparr>sr_deliveries = [], sr_cancelled = False, sr_outcome = Inl (TimeoutErr [])\<rparr>, []), w)),
     e_gather = (\<lambda>w. ((False, []), w)),
     e_query_state = (\<lambda>_ w. ((Inr (Some 1, Some 80), []), w)),
     e_operation_log = (\<lambda>_ _ w. ((Inr [], []), w)),
     e_inventory = (\<lambda>_ _ w. ((Inl (TTLockErr ''no''), []), w)),
     e_admin_inventory = (\<lambda>_ _ w. ((Inl (TTLockErr ''no''), []), w)),
     e_timeout_expired = (\<lambda>_. False), e_lock_held = (\<lambda>_. False),
     e_control = (\<lambda>_ _ w. (([WEvent (LockAcquired True), WEvent (SendBegin 85), WEvent (SendEnd 85),
        WEvent (PhaseReturn True), WEvent (SendBegin 88), WEvent (SendEnd 88), WCancel,
        WEvent LinkDropped], TimeoutErr []), w)),
     e_reconcile_cancelled = (\<lambda>_. False),
     e_sleep = (\<lambda>_ w. ((False, []), w)), e_wait_dropped = (\<lambda>w. ((False, [IfDropped (Some 1)]), w)),
     e_cmds = sample_sdk, e_locked = 1, e_unlocked = 0\<rparr>"

definition sample_conn :: "nat conn" where
  "sample_conn = new_conn ''AA'' ''123'' 5 (new_history (DateTime 2026 8 24 12 0 0 0) False) 0"

lemma sample_rest: "at_rest sample_conn"
  unfolding sample_conn_def by (rule new_conn_at_rest)

definition sample_locked :: "nat conn" where
  "sample_locked = snd (run_command sample_env ALock sample_conn)"

lemma sample_locked_reach: "conn_reach sample_locked"
proof -
  have "conn_reach sample_conn" unfolding sample_conn_def by (rule reach_new)
  from reach_command [OF this prod.collapse [symmetric]] show ?thesis
    unfolding sample_locked_def .
qed

subsection \<open>Ownership\<close>

text \<open>
  Claim C6. In every history of a connection at most one client is owned, the installed or the
  pending one; the generation the disconnect callbacks are checked against is its own; only
  the installed client has the event listener; no teardown is left running; the link is
  announced as up only while a client is owned, and the announcements sent to Home Assistant
  alternate, starting with up.
\<close>

theorem connection_invariant:
  assumes "conn_reach s"
  shows "(client s = None \<or> pending s = None) \<and> owned_generation s = owned s
    \<and> listeners s = (case client s of None \<Rightarrow> [] | Some g \<Rightarrow> [g])
    \<and> cleanup_task s = None \<and> (broadcast_connected s \<longrightarrow> owned s \<noteq> None)
    \<and> alternating False (conn_signals (dispatched s))
    \<and> last_signal (conn_signals (dispatched s)) = broadcast_connected s"
  using reach_at_rest [OF assms] by (auto simp: at_rest_def own_inv_def)

theorem connection_invariant_witness:
  "owned sample_locked = Some 1 \<and> owned_generation sample_locked = owned sample_locked
    \<and> alternating False (conn_signals (dispatched sample_locked))"
proof -
  have "owned sample_locked = Some 1" by code_simp
  with connection_invariant [OF sample_locked_reach] show ?thesis by simp
qed

text \<open>
  A disconnect callback of a client that is no longer owned changes nothing: a late
  callback of a replaced client cannot mark its successor as dropped.
\<close>

lemma retired_callback_ignored:
  assumes "conn_reach s" and "owned s \<noteq> Some g"
  shows "interfere (IfDropped (Some g)) s = s"
  using reach_at_rest [OF assms(1)] assms(2) by (simp add: on_disconnected_def at_rest_def own_inv_def)

lemma retired_callback_ignored_witness:
  "interfere (IfDropped (Some 7)) sample_locked = sample_locked"
proof -
  have "owned sample_locked \<noteq> Some 7" by code_simp
  then show ?thesis by (rule retired_callback_ignored [OF sample_locked_reach])
qed

subsection \<open>Acquisition\<close>

lemma ensure_result:
  assumes "at_rest s" and "ensure_connected E a i s = (r, s')"
  shows "case r of Inl e \<Rightarrow> e = Cancelled \<and> at_rest s' \<and> acquired 2 s s' | Inr x \<Rightarrow> acquisition_post s x s'"
  using triple_result [OF ensure_triple [of s E a i] _ assms(2)] assms(1) by simp

text \<open>
  Claim C23. One acquisition, for every behaviour of Home Assistant, the SDK and the callbacks. It
  creates at most two clients, and all it asks of the SDK and the scanner is creating,
  connecting and disconnecting clients and scanning, never a command: each connect is given
  between 0 and 42 seconds, each scan between 1 and 25. It raises the caller's cancellation and
  nothing else (the internal \<open>RuntimeError\<close>s are unreachable), returns no client, or returns the
  client that is now installed, and then shutdown has not begun unless that client was already
  installed. The connection is at rest again in each case.
\<close>

theorem ensure_connected_bounded:
  assumes "at_rest s" and "ensure_connected E a i s = (r, s')"
  shows "(\<exists>cs. sdk_log s' = sdk_log s @ cs \<and> creates cs \<le> 2 \<and> list_all acquisition_call cs)
    \<and> at_rest s' \<and> (case r of Inl e \<Rightarrow> e = Cancelled
      | Inr None \<Rightarrow> True
      | Inr (Some g) \<Rightarrow> client s' = Some g \<and> (client s = Some g \<or> \<not> closing_event s'))"
  using ensure_result [OF assms]
  by (auto simp: acquisition_post_def acquired_def split: sum.splits option.splits)

theorem ensure_connected_bounded_witness:
  "fst (ensure_connected sample_env True EXPLICIT_CONTROL sample_conn) = Inr (Some 1)
    \<and> client (snd (ensure_connected sample_env True EXPLICIT_CONTROL sample_conn)) = Some 1
    \<and> (\<exists>cs. sdk_log (snd (ensure_connected sample_env True EXPLICIT_CONTROL sample_conn)) = sdk_log sample_conn @ cs
      \<and> creates cs \<le> 2 \<and> list_all acquisition_call cs)"
proof -
  have ok: "fst (ensure_connected sample_env True EXPLICIT_CONTROL sample_conn) = Inr (Some 1)"
    by code_simp
  from ensure_connected_bounded [OF sample_rest prod.collapse [symmetric],
      of sample_env True EXPLICIT_CONTROL] ok show ?thesis by simp
qed

text \<open>
  Once shutdown has begun, an acquisition returns no client, makes no call to the SDK
  or the scanner, and leaves what is owned alone.
\<close>

lemma ensure_connected_closing:
  assumes "closing s"
  shows "fst (ensure_connected E a i s) = Inr None
    \<and> sdk_log (snd (ensure_connected E a i s)) = sdk_log s
    \<and> owned (snd (ensure_connected E a i s)) = owned s"
  using assms by (simp add: ensure_connected_def eff_defs env_call_def Let_def)

lemma ensure_connected_closing_witness:
  "fst (ensure_connected sample_env True EXPLICIT_CONTROL (stop_begin sample_conn)) = Inr None"
  using ensure_connected_closing [of "stop_begin sample_conn" sample_env True EXPLICIT_CONTROL]
  by (simp add: stop_begin_def)

text \<open>A client whose teardown never succeeds: nothing the SDK says confirms it.\<close>

definition never_confirmed :: "'w env \<Rightarrow> nat \<Rightarrow> bool" where
  "never_confirmed E g \<longleftrightarrow> (\<forall>w. e_cleanup_confirmed E g w \<noteq> Some True)
     \<and> (\<forall>w. isl (fst (fst (e_disconnect E g w))))"

lemma disconnect_once_uncertain:
  assumes "never_confirmed E g" and "disconnect_once E g s = (r, s')"
  shows "r \<noteq> Inr True" "pending s' = pending s"
  using assms
  by (auto simp: never_confirmed_def disconnect_once_def eff_defs await_def call_def
      client_is_disconnected_def split: prod.splits sum.splits if_splits)
    (metis fst_conv isl_def sum.distinct(1))+

lemma cleanup_uncertain:
  assumes "never_confirmed E g" and "cleanup_candidate E g s = (r, s')"
  shows "r \<noteq> Inr True" "pending s' = pending s"
  using assms(2) disconnect_once_uncertain [OF assms(1)]
  by (auto simp: cleanup_candidate_def eff_defs await_def split: prod.splits sum.splits if_splits)
    fastforce+

lemma retry_uncertain:
  assumes "never_confirmed E g" and "pending s = Some g" and "retry_pending_cleanup E s = (r, s')"
  shows "r \<noteq> Inr True" "pending s' = Some g"
  using assms cleanup_uncertain [OF assms(1), of s r s']
  by (auto simp: retry_pending_cleanup_def eff_defs)

lemma disconnect_uncertain:
  assumes "never_confirmed E g" and "owned s = Some g" and "at_rest s"
    and "disconnect_locked E s = (r, s')"
  shows "r \<noteq> Inr True" "owned s' = Some g"
proof -
  have "r \<noteq> Inr True \<and> pending s' = Some g"
  proof (cases "client s")
    case None
    with assms retry_uncertain [OF assms(1), of s r s'] show ?thesis
      by (auto simp: disconnect_locked_def eff_defs owned_def)
  next
    case (Some h)
    with assms(2,3) have "h = g" "pending s = None" by (auto simp: owned_def at_rest_def own_inv_def)
    with Some assms(4) cleanup_uncertain [OF assms(1), of "retire_client g s" r s'] show ?thesis
      by (auto simp: disconnect_locked_def eff_defs retire_client_def)
  qed
  then show "r \<noteq> Inr True" "owned s' = Some g"
    using disconnect_result(3) [OF assms(3,4)] by (auto simp: owned_def)
qed

text \<open>
  The one case in which an acquisition hands out a client it already has: outside shutdown, the
  installed client \<open>g\<close> whose link the SDK reports as connected after the deadline's clock reading.
\<close>

definition link_reused :: "'w env \<Rightarrow> nat \<Rightarrow> 'w conn \<Rightarrow> bool" where
  "link_reused E g s \<longleftrightarrow>
     \<not> closing s \<and> client s = Some g \<and> e_connected E g (snd (e_monotonic E (world s)))"

lemma ensure_uncertain:
  assumes "never_confirmed E g" and "owned s = Some g" and "at_rest s"
    and "ensure_connected E a i s = (r, s')"
  shows "owned s' = Some g \<and> (\<exists>cs. sdk_log s' = sdk_log s @ cs \<and> creates cs = 0)
    \<and> (if link_reused E g s then r = Inr (Some g) \<and> client s' = Some g
       else r = Inr None \<or> r = Inl Cancelled)"
proof -
  let ?s = "s\<lparr>world := snd (e_monotonic E (world s)), reachability := None,
    acquisition_failure := AF_NO_CANDIDATE\<rparr>"
  have rest: "at_rest ?s" and own: "owned ?s = Some g" using assms(2,3) by simp_all
  have frame: "\<exists>cs. sdk_log u = sdk_log s @ cs \<and> creates cs = 0" if "torn ?s u" for u
    using that only_disconnects_acquisition by (force simp: torn_def)
  have start: "ensure_connected E a i s =
      (if closing s then (Inr None, ?s)
       else m_bind (retry_pending_cleanup E) (\<lambda>cleaned.
            if \<not> cleaned then fail_acquisition AF_CLEANUP
            else m_bind (m_gets (\<lambda>s. case client s of
                None \<Rightarrow> None | Some g \<Rightarrow> if e_connected E g (world s) then Some g else None)) (\<lambda>live.
              case live of
                Some g \<Rightarrow> m_return (Some g)
              | None \<Rightarrow> m_bind (disconnect_locked E) (\<lambda>freed.
                  if \<not> freed then fail_acquisition AF_CLEANUP
                  else open_connection E a (fst (e_monotonic E (world s)) + acquisition_budget i)))) ?s)"
    by (simp add: ensure_connected_def eff_defs env_call_def Let_def)
  show ?thesis
  proof (cases "closing s")
    case True
    with start assms(2,4) show ?thesis by (auto simp: link_reused_def intro: exI [of _ "[]"])
  next
    case running: False
    show ?thesis
    proof (cases "client s")
      case None
      then have p: "pending ?s = Some g" using assms(2) by (simp add: owned_def)
      obtain q u where q: "retry_pending_cleanup E ?s = (q, u)" by (metis prod.collapse)
      note u = retry_uncertain [OF assms(1) p q] retry_result [OF rest q]
      have cu: "client u = None" using u(5) None by simp
      have ou: "owned u = Some g" using u(2) cu by (simp add: owned_def)
      from start running None q assms(4) u(1,7) ou frame [OF u(4)] show ?thesis
        by (cases q) (auto simp: eff_defs fail_acquisition_def link_reused_def)
    next
      case (Some h)
      with assms(2,3) have h: "h = g" "pending s = None"
        by (auto simp: owned_def at_rest_def own_inv_def)
      obtain q u where q: "disconnect_locked E ?s = (q, u)" by (metis prod.collapse)
      note u = disconnect_uncertain [OF assms(1) own rest q] disconnect_result [OF rest q]
      show ?thesis
      proof (cases "link_reused E g s")
        case True
        with start running assms(2,4) h Some show ?thesis
          by (auto simp: link_reused_def retry_pending_cleanup_def eff_defs intro: exI [of _ "[]"])
      next
        case False
        with start running q assms(4) u(1,2,7) h Some frame [OF u(4)] show ?thesis
          by (cases q) (auto simp: link_reused_def retry_pending_cleanup_def eff_defs fail_acquisition_def)
      qed
    qed
  qed
qed

text \<open>
  Claim C4. A client whose teardown cannot be confirmed is never forgotten and never doubled:
  as long as no disconnect of it returns and the SDK never reports its cleanup as confirmed,
  every acquisition still owns it and creates no second client. The only client it can hand out
  is that same one, and it does so exactly when the client is still the installed one, its link
  is reported as connected and no shutdown has begun; in every other case, and always once the
  client has been retired to await its teardown, it returns none or raises the caller's
  cancellation.
\<close>

theorem uncertain_client_blocks:
  assumes "at_rest s" and "owned s = Some g"
    and "never_confirmed E g"
    and "ensure_connected E a i s = (r, s')"
  shows "owned s' = Some g \<and> (\<exists>cs. sdk_log s' = sdk_log s @ cs \<and> creates cs = 0)
    \<and> (if link_reused E g s then r = Inr (Some g) \<and> client s' = Some g
       else r = Inr None \<or> r = Inl Cancelled)
    \<and> (pending s = Some g \<longrightarrow> \<not> link_reused E g s)"
  using ensure_uncertain [OF assms(3,2,1,4)] assms(1)
  by (auto simp: link_reused_def at_rest_def own_inv_def)

definition sample_stuck :: "nat env" where
  "sample_stuck = sample_env\<lparr>e_connected := (\<lambda>_ _. False),
     e_disconnect := (\<lambda>_ w. ((Inl (OtherErr ''bleak''), []), w))\<rparr>"

text \<open>The same stuck client on a link that still reports connected.\<close>

definition sample_held :: "nat env" where
  "sample_held = sample_stuck\<lparr>e_connected := (\<lambda>_ _. True)\<rparr>"

lemma sample_uncertain: "never_confirmed sample_stuck g" "never_confirmed sample_held g"
  by (simp_all add: never_confirmed_def sample_held_def sample_stuck_def sample_env_def)

theorem uncertain_client_blocks_witness:
  "owned (snd (ensure_connected sample_stuck True EXPLICIT_CONTROL sample_locked)) = Some 1
   \<and> fst (ensure_connected sample_stuck True EXPLICIT_CONTROL sample_locked) \<noteq> Inr (Some 1)
   \<and> fst (ensure_connected sample_held True EXPLICIT_CONTROL sample_locked) = Inr (Some 1)"
proof -
  have own: "owned sample_locked = Some 1" by code_simp
  have idle: "\<not> closing sample_locked" "client sample_locked = Some 1" by code_simp+
  note blocks = uncertain_client_blocks [OF reach_at_rest [OF sample_locked_reach] own _ prod.collapse [symmetric]]
  have "\<not> link_reused sample_stuck 1 sample_locked" "link_reused sample_held 1 sample_locked"
    using idle by (simp_all add: link_reused_def sample_held_def sample_stuck_def)
  with blocks [OF sample_uncertain(1), of True EXPLICIT_CONTROL]
    blocks [OF sample_uncertain(2), of True EXPLICIT_CONTROL] show ?thesis by auto
qed

subsection \<open>Bolt control\<close>

lemma command_result:
  assumes "at_rest s" and "run_command E a s = (r, s')"
  shows "case r of Inl e \<Rightarrow> (is_ttlock e \<or> e = Cancelled) \<and> rest 1 s s' | Inr u \<Rightarrow> rest 1 s s'"
  using triple_result [OF command_rest [of 0 s E a] rest_refl [OF assms(1)] assms(2)]
  by (cases r) simp_all

text \<open>
  Claim C2. A request for lock or unlock issues the physical command at most once, whatever
  fails, including in the reconciliation of an ambiguous outcome and its new connection; and
  it ends normally, with a \<open>TTLockError\<close>, or with the caller's cancellation.
\<close>

theorem command_at_most_once:
  assumes "at_rest s" and "run_command E a s = (r, s')"
  shows "(\<exists>cs. sdk_log s' = sdk_log s @ cs \<and> controls cs \<le> 1)
    \<and> (\<forall>e. r = Inl e \<longrightarrow> is_ttlock e \<or> e = Cancelled)"
  using command_result [OF assms] by (auto simp: rest_def issued_def split: sum.splits)

theorem command_at_most_once_witness:
  "sdk_log (snd (run_command sample_env ALock sample_conn))
     = [CCreate 1 1, CConnect 1 16, CControl 1 ALock, CQuery 1]
   \<and> (\<exists>cs. sdk_log (snd (run_command sample_env ALock sample_conn)) = sdk_log sample_conn @ cs \<and> controls cs \<le> 1)"
proof
  show "sdk_log (snd (run_command sample_env ALock sample_conn))
     = [CCreate 1 1, CConnect 1 16, CControl 1 ALock, CQuery 1]" by code_simp
  show "\<exists>cs. sdk_log (snd (run_command sample_env ALock sample_conn)) = sdk_log sample_conn @ cs \<and> controls cs \<le> 1"
    using command_at_most_once [OF sample_rest prod.collapse [symmetric], of sample_env ALock] by simp
qed

text \<open>What counts as proof that a command took effect.\<close>

text \<open>
  Nothing is asked of the lock after the proof: the last call of the run is the command itself,
  which returned on the SDK's acknowledgement, or a state query that answered the state the
  command was to reach, and the world is the one that call left.
\<close>

definition sdk_acknowledged :: "'w env \<Rightarrow> action \<Rightarrow> 'w conn \<Rightarrow> bool" where
  "sdk_acknowledged E a s' \<longleftrightarrow> (\<exists>g w ws final s cs. sdk_log s' = cs @ [CControl g a] \<and> world s = world s'
     \<and> e_control E g a w = ((ws, final), world s')
     \<and> fst (control_wait (e_cmds E) final ws (begin_control (e_cmds E) a (set_control_allowed new_tracker)) s) = Inr ())"

definition fresh_state_seen :: "'w env \<Rightarrow> action \<Rightarrow> 'w conn \<Rightarrow> bool" where
  "fresh_state_seen E a s' \<longleftrightarrow> (\<exists>g w b fs cs. sdk_log s' = cs @ [CQuery g]
     \<and> e_query_state E g w = ((Inr (Some (expected_state E a), b), fs), world s'))"

lemma interfere_log [simp]: "sdk_log (interfere i s) = sdk_log s" "world (interfere i s) = world s"
  by (cases i; simp add: on_disconnected_def broadcast_state_def stop_begin_def on_event_def)+

lemma interferes_log [simp]: "sdk_log (fold interfere is s) = sdk_log s" "world (fold interfere is s) = world s"
  by (induction "is" arbitrary: s) simp_all

lemma drain_log: "sdk_log (snd (drain c ws t s)) = sdk_log s \<and> world (snd (drain c ws t s)) = world s"
  by (induction c ws t s rule: drain.induct) simp_all

lemma wait_log:
  "control_wait c final ws t s = (r, t', s') \<Longrightarrow> sdk_log s' = sdk_log s \<and> world s' = world s"
proof (induction c final ws t s rule: control_wait.induct)
  case (2 c final w ws t s)
  then show ?case using drain_log [of c ws t s] by (auto split: option.splits wake.splits if_splits)
qed simp

lemma triple_never: "(\<And>s r s'. P s \<Longrightarrow> m s \<noteq> (Inr r, s')) \<Longrightarrow> triple P m (\<lambda>_ _. False) (\<lambda>_ _. True)"
  by (auto simp: triple_def split: prod.split sum.split)

lemma matches_seen:
  "triple (\<lambda>_. True) (query_matches E a g) (\<lambda>ok s. ok \<longrightarrow> fresh_state_seen E a s) (\<lambda>_ _. True)"
proof (rule tripleI)
  fix s s' :: "'a conn" and r
  assume "query_matches E a g s = (r, s')"
  then show "case r of Inl e \<Rightarrow> True | Inr ok \<Rightarrow> ok \<longrightarrow> fresh_state_seen E a s'"
    unfolding fresh_state_seen_def
    by (auto simp: query_matches_def call_def await_def eff_defs split: prod.splits sum.splits if_splits) blast
qed

lemma reconcile_seen:
  "triple (\<lambda>_. True) (reconcile_control E a g) (\<lambda>ok s. ok \<longrightarrow> fresh_state_seen E a s) (\<lambda>_ _. True)"
proof -
  have any: "triple (\<lambda>_. True) m (\<lambda>_ _. True) (\<lambda>_ _. True)" for m :: "('a conn, 'b) eff"
    by (auto simp: triple_def split: prod.split sum.split)
  show ?thesis
    unfolding reconcile_control_def
    by (intro triple_bind_gets triple_if triple_pre [OF matches_seen] triple_pre [OF triple_bind [OF any]]
        triple_bind [OF any] triple_option triple_return) auto
qed

lemma capture_seen:
  "triple (\<lambda>_. True) (capture_reconciliation E a g u) (\<lambda>r s. r = None \<longrightarrow> fresh_state_seen E a s) (\<lambda>_ _. True)"
proof -
  have any: "triple (\<lambda>_. True) m (\<lambda>_ _. True) (\<lambda>_ _. True)" for m :: "('a conn, 'b) eff"
    by (auto simp: triple_def split: prod.split sum.split)
  have caught: "triple (\<lambda>_. True) (m_catch (reconcile_control E a g) (\<lambda>_. m_return False))
      (\<lambda>ok s. ok \<longrightarrow> fresh_state_seen E a s) (\<lambda>_ _. True)"
    by (rule triple_catch [OF reconcile_seen]) (rule triple_return, simp)
  show ?thesis
    unfolding capture_reconciliation_def
    by (intro triple_bind [OF caught] triple_if triple_return triple_pre [OF triple_then [OF any]]) auto
qed

lemma teardown_raise_raises: "teardown_raise E e s \<noteq> (Inr r, s')"
  by (auto simp: teardown_raise_def eff_defs split: prod.splits sum.splits)

lemma failed_seen:
  "triple (\<lambda>_. True) (control_failed E a g e) (\<lambda>_. fresh_state_seen E a) (\<lambda>_ _. True)"
proof -
  have rec: "triple (\<lambda>_. True) (await_reconciliation E a g e) (\<lambda>_. fresh_state_seen E a) (\<lambda>_ _. True)"
    unfolding await_reconciliation_def
    by (intro triple_bind [OF triple_env_peek] triple_if triple_raise triple_bind [OF capture_seen] triple_option
        triple_return) auto
  have tear: "triple (\<lambda>_. True) (teardown_raise E x) (\<lambda>_. fresh_state_seen E a) (\<lambda>_ _. True)" for x
    by (rule triple_post [OF triple_never]) (auto simp: teardown_raise_raises)
  show ?thesis
    unfolding control_failed_def
    by (intro triple_bind_gets triple_if triple_pre [OF rec] triple_pre [OF tear] triple_raise) auto
qed

lemma control_seen:
  "triple (\<lambda>_. True) (run_control_command E a)
     (\<lambda>_ s. sdk_acknowledged E a s \<or> fresh_state_seen E a s) (\<lambda>_ _. True)"
proof -
  have any: "triple (\<lambda>_. True) m (\<lambda>_ _. True) (\<lambda>_ _. True)" for m :: "('a conn, 'b) eff"
    by (auto simp: triple_def split: prod.split sum.split)
  have task: "triple (\<lambda>_. True) (await_control_task E a g) (\<lambda>_. sdk_acknowledged E a) (\<lambda>_ _. True)" for g
  proof (rule tripleI)
    fix s s' :: "'a conn" and r
    assume "await_control_task E a g s = (r, s')"
    then obtain ws final w t where run: "e_control E g a (world s) = ((ws, final), w)"
        "control_wait (e_cmds E) final ws (begin_control (e_cmds E) a (set_control_allowed new_tracker))
           (s\<lparr>sdk_log := sdk_log s @ [CControl g a], world := w\<rparr>) = (r, t, s')"
      by (auto simp: await_control_task_def call_def eff_defs split: prod.splits)
    from wait_log [OF run(2)] have "sdk_log s' = sdk_log s @ [CControl g a]" "world s' = w" by simp_all
    with run show "case r of Inl e \<Rightarrow> True | Inr u \<Rightarrow> sdk_acknowledged E a s'"
      unfolding sdk_acknowledged_def
      by (cases r) (auto intro!: exI [of _ g] exI [of _ "world s"] exI [of _ ws] exI [of _ final]
        exI [of _ "s\<lparr>sdk_log := sdk_log s @ [CControl g a], world := w\<rparr>"])
  qed
  have failed: "triple (\<lambda>_. True) (control_failed E a g e)
      (\<lambda>_ s. sdk_acknowledged E a s \<or> fresh_state_seen E a s) (\<lambda>_ _. True)" for g e
    by (rule triple_post [OF failed_seen]) auto
  have run: "triple (\<lambda>_. True) (m_catch (await_control_task E a g) (control_failed E a g))
      (\<lambda>_ s. sdk_acknowledged E a s \<or> fresh_state_seen E a s) (\<lambda>_ _. True)" for g
    by (rule triple_catch [OF triple_post [OF task] failed]) auto
  show ?thesis
    unfolding run_control_command_def
    by (intro triple_bind [OF any] triple_option triple_bind_gets triple_raise run) auto
qed

lemma command_confirmed:
  assumes "run_command E a s = (Inr u, s')"
  shows "sdk_acknowledged E a s' \<or> fresh_state_seen E a s'"
proof -
  have any: "triple (\<lambda>_. True) m (\<lambda>_ _. True) (\<lambda>_ _. True)" for m :: "('a conn, 'b) eff"
    by (auto simp: triple_def split: prod.split sum.split)
  let ?Q = "\<lambda>_ s. sdk_acknowledged E a s \<or> fresh_state_seen E a s"
  have "triple (\<lambda>_. True) (run_command E a) ?Q (\<lambda>_ _. True)"
    unfolding run_command_def
  proof (rule triple_then_modify [OF triple_finally])
    show "triple (\<lambda>_. True) (m_then cancel_inventory (run_control_command E a)) ?Q (\<lambda>_ _. True)"
      by (rule triple_then [OF any control_seen])
  qed (auto intro!: triple_modify simp: sdk_acknowledged_def fresh_state_seen_def)
  from triple_result [OF this _ assms] show ?thesis by simp
qed

text \<open>
  Claim C3. A lock or unlock request that returns normally took effect: the last thing it asked of
  the lock is the command itself, whose SDK call returned on an acknowledgement, or, after an
  ambiguous outcome, a state query on a live client that reported the state the command was to
  reach. Nothing happens to the lock between that answer and the return.
\<close>

theorem command_success_confirmed:
  assumes "run_command E a s = (Inr u, s')"
  shows "sdk_acknowledged E a s' \<or> fresh_state_seen E a s'"
  using assms by (rule command_confirmed)

theorem command_success_confirmed_witness:
  "fst (run_command sample_env ALock sample_conn) = Inr ()
    \<and> fresh_state_seen sample_env ALock (snd (run_command sample_env ALock sample_conn))"
proof -
  let ?run = "run_command sample_env ALock sample_conn"
  have ok: "fst ?run = Inr ()" and calls: "sdk_log (snd ?run) = [CCreate 1 1, CConnect 1 16, CControl 1 ALock, CQuery 1]"
    by code_simp+
  from ok have "?run = (Inr (), snd ?run)" by (metis prod.collapse)
  from command_success_confirmed [OF this] calls ok show ?thesis by (auto simp: sdk_acknowledged_def)
qed

text \<open>What may wake the control phase once authentication is over.\<close>

fun control_phase_wake :: "sdk_cmds \<Rightarrow> wake \<Rightarrow> bool" where
  "control_phase_wake c (WEvent (SendBegin k)) = (k \<noteq> CMD_CHECK_USER_TIME c)"
| "control_phase_wake c (WEvent (SendEnd k)) = (k \<noteq> CMD_CHECK_USER_TIME c)"
| "control_phase_wake c _ = True"

lemma committed_step:
  assumes "point t = PcControl" and "control_committed (tr t)" and "control_phase_wake c (WEvent ev)"
  shows "finished (ctl_step c t (gate_event s ev)) \<noteq> None
    \<or> point (ctl_step c t (gate_event s ev)) = PcControl \<and> control_committed (tr (ctl_step c t (gate_event s ev)))"
  using assms
  by (cases ev)
    (auto simp: ctl_step_def control_raised_def finish_def finished_def hook_defs control_committed_def
      split: if_splits sum.splits)

lemma finished_wait: "finished t = Some r \<Longrightarrow> control_wait c f ws t s = (r, t, s)"
  by (cases ws) (simp_all add: final_outcome_def)

lemma committed_wait:
  assumes "point t = PcControl" and "control_committed (tr t)" and "list_all (control_phase_wake c) ws"
  shows "control_wait c f ws t s = control_wait c f (filter (\<lambda>w. w \<noteq> WCancel) ws) t s"
  using assms
proof (induction ws arbitrary: t s)
  case (Cons w ws)
  have running: "finished t = None" using Cons.prems by (simp add: finished_def)
  show ?case
  proof (cases w)
    case (WEvent ev)
    let ?t = "ctl_step c t (gate_event s ev)"
    have "control_wait c f ws ?t s = control_wait c f (filter (\<lambda>w. w \<noteq> WCancel) ws) ?t s"
    proof (cases "finished ?t")
      case None
      with committed_step [OF Cons.prems(1,2), of c ev s] Cons WEvent show ?thesis by simp
    next
      case (Some r)
      then show ?thesis by (simp add: finished_wait)
    qed
    with WEvent running show ?thesis by simp
  qed (use Cons running in auto)
qed simp

text \<open>
  Claim C20. Once the first control frame may have been written, the caller's cancellations have
  no effect on the command: its outcome and the state it leaves are those of the same wake-ups
  without them. (The SDK authenticates only before the control phase.)
\<close>

theorem committed_command_retained:
  assumes "point t = PcControl" and "control_committed (tr t)" and "list_all (control_phase_wake c) ws"
  shows "control_wait c f ws t s = control_wait c f (filter (\<lambda>w. w \<noteq> WCancel) ws) t s"
  using assms by (rule committed_wait)

definition sample_committed :: ctl where
  "sample_committed = ha_run_control sample_sdk ALock (set_control_allowed new_tracker)
     [LockAcquired True, SendBegin 85, SendEnd 85, PhaseReturn True, SendBegin 88]"

theorem committed_command_retained_witness:
  "control_wait sample_sdk (TimeoutErr []) [WCancel, WEvent (SendEnd 88), WCancel, WEvent (PhaseReturn True)]
     sample_committed sample_conn
   = control_wait sample_sdk (TimeoutErr []) [WEvent (SendEnd 88), WEvent (PhaseReturn True)]
     sample_committed sample_conn"
proof -
  let ?ws = "[WCancel, WEvent (SendEnd 88), WCancel, WEvent (PhaseReturn True)]"
  have pre: "point sample_committed = PcControl" "control_committed (tr sample_committed)"
    "list_all (control_phase_wake sample_sdk) ?ws" by code_simp+
  have "filter (\<lambda>w. w \<noteq> WCancel) ?ws = [WEvent (SendEnd 88), WEvent (PhaseReturn True)]" by simp
  with committed_command_retained [OF pre, of "TimeoutErr []" sample_conn] show ?thesis by (simp only:)
qed

subsection \<open>Reads, management, shutdown\<close>

text \<open>
  The reads of a poll never fail it: whatever the SDK raises, a state query and an
  operation-log fetch raise nothing but the caller's cancellation.
\<close>

lemma reads_contained:
  assumes "at_rest s"
  shows "(\<forall>e s'. query_state E a s = (Inl e, s') \<longrightarrow> e = Cancelled)
    \<and> (\<forall>e s'. get_operation_log E s = (Inl e, s') \<longrightarrow> e = Cancelled)"
  using triple_result [OF query_rest [of 0 s E a] rest_refl [OF assms]]
    triple_result [OF log_rest [of 0 s E] rest_refl [OF assms]] by fastforce

definition sample_broken :: "nat env" where
  "sample_broken = sample_env\<lparr>e_query_state := (\<lambda>_ w. ((Inl (ValueErr ''garbled''), []), w))\<rparr>"

definition sample_cut :: "nat env" where
  "sample_cut = sample_env\<lparr>e_query_state := (\<lambda>_ w. ((Inl Cancelled, []), w))\<rparr>"

lemma reads_contained_witness:
  "fst (query_state sample_broken True sample_conn) = Inr None
    \<and> fst (query_state sample_cut True sample_conn) = Inl Cancelled"
proof
  show "fst (query_state sample_broken True sample_conn) = Inr None" by code_simp
  have "isl (fst (query_state sample_cut True sample_conn))" by code_simp
  then obtain e where e: "fst (query_state sample_cut True sample_conn) = Inl e" by (auto simp: isl_def)
  then have "query_state sample_cut True sample_conn = (Inl e, snd (query_state sample_cut True sample_conn))"
    by (metis prod.collapse)
  with reads_contained [OF sample_rest, of sample_cut True] have "e = Cancelled" by blast
  with e show "fst (query_state sample_cut True sample_conn) = Inl Cancelled" by simp
qed

text \<open>
  Claim C33. A management command shows its caller only \<open>TTLockError\<close>s and its own cancellation,
  and issues no bolt command.
\<close>

theorem management_contained:
  assumes "at_rest s" and "run_management_command E name op a s = (r, s')"
  shows "(\<forall>e. r = Inl e \<longrightarrow> is_ttlock e \<or> e = Cancelled)
    \<and> (\<exists>cs. sdk_log s' = sdk_log s @ cs \<and> controls cs = 0)"
  using triple_result [OF management_rest [of 0 s E name op a] rest_refl [OF assms(1)] assms(2)]
  by (cases r) (auto simp: rest_def issued_def)

theorem management_contained_witness:
  "fst (get_auto_lock_time sample_env (\<lambda>_ w. ((Inl (ValueErr ''garbled'') :: exn + int, []), w)) sample_conn)
    = Inl (TTLockErr ''Lock AA failed to read auto-lock delay'')
   \<and> (\<exists>cs. sdk_log (snd (get_auto_lock_time sample_env
        (\<lambda>_ w. ((Inl (ValueErr ''garbled'') :: exn + int, []), w)) sample_conn)) = sdk_log sample_conn @ cs
      \<and> controls cs = 0)"
proof
  show "fst (get_auto_lock_time sample_env (\<lambda>_ w. ((Inl (ValueErr ''garbled'') :: exn + int, []), w)) sample_conn)
    = Inl (TTLockErr ''Lock AA failed to read auto-lock delay'')" by code_simp
  show "\<exists>cs. sdk_log (snd (get_auto_lock_time sample_env
        (\<lambda>_ w. ((Inl (ValueErr ''garbled'') :: exn + int, []), w)) sample_conn)) = sdk_log sample_conn @ cs
      \<and> controls cs = 0"
    using management_contained [OF sample_rest prod.collapse [symmetric], of sample_env "''read auto-lock delay''"
        "\<lambda>_ w. ((Inl (ValueErr ''garbled'') :: exn + int, []), w)" True]
    unfolding get_auto_lock_time_def by blast
qed

text \<open>
  Claim C21. When \<open>async_stop\<close> returns, no client is owned any more and the connection refuses
  new ones; when it cannot confirm the release it raises a \<open>TTLockError\<close> instead, or the
  cancellation of its own task.
\<close>

theorem stop_releases:
  assumes "at_rest s" and "async_stop E s = (r, s')"
  shows "closing s' \<and> closing_event s' \<and> (case r of
      Inr _ \<Rightarrow> client s' = None \<and> pending s' = None \<and> \<not> broadcast_connected s'
    | Inl e \<Rightarrow> is_ttlock e \<or> e = Cancelled)"
  using triple_result [OF stop_triple [of E] assms]
  by (auto simp: stopped_def owned_None at_rest_def own_inv_def split: sum.splits)

theorem stop_releases_witness:
  "fst (async_stop sample_env sample_locked) = Inr ()
    \<and> client (snd (async_stop sample_env sample_locked)) = None
    \<and> fst (async_stop sample_stuck sample_locked)
      = Inl (TTLockErr ''Could not confirm BLE disconnect for lock AA during shutdown'')"
proof -
  have ok: "fst (async_stop sample_env sample_locked) = Inr ()" by code_simp
  have no: "fst (async_stop sample_stuck sample_locked)
      = Inl (TTLockErr ''Could not confirm BLE disconnect for lock AA during shutdown'')" by code_simp
  from stop_releases [OF reach_at_rest [OF sample_locked_reach] prod.collapse [symmetric], of sample_env] ok no
  show ?thesis by simp
qed

text \<open>
  Every inventory read that is not refused as busy ends with its session torn down or
  says so: \<open>cleanup_confirmed\<close> in the diagnostics is true exactly when no client is owned, the
  reason is \<open>cleanup_uncertain\<close> otherwise, and the only exceptions are the closed vocabulary,
  the SDK's inventory error and the caller's cancellation.
\<close>

lemma inventory_read_closes:
  assumes "at_rest s" and "read_access_inventory E K nm s = (r, s')"
  shows "(r = Inl (AccessErr AF_BUSY ''queue'') \<or> diag_honest s')
    \<and> (\<forall>e. r = Inl e \<longrightarrow> inventory_exn e)"
  using triple_result [OF read_rest [of 0 s E K nm] rest_refl [OF assms(1)] assms(2)]
  by (cases r) auto

lemma inventory_read_closes_witness:
  "fst (read_access_inventory sample_env (public_read sample_env) ''ic_card'' sample_conn) = Inl (AccessErr AF_UNKNOWN ''inventory'')
    \<and> diag_honest (snd (read_access_inventory sample_env (public_read sample_env) ''ic_card'' sample_conn))"
proof -
  have r: "fst (read_access_inventory sample_env (public_read sample_env) ''ic_card'' sample_conn)
      = Inl (AccessErr AF_UNKNOWN ''inventory'')" by code_simp
  from inventory_read_closes [OF sample_rest prod.collapse [symmetric], of sample_env "public_read sample_env" "''ic_card''"] r
  show ?thesis by simp
qed

text \<open>
  The reconnect loop, for any number of rounds: its backoff stays between 1 and 300
  seconds, it issues no bolt command, and only its own cancellation ends it with an exception.
\<close>

lemma maintain_backoff_bounded:
  assumes "at_rest s" and "async_maintain E n s = (r, s')"
  shows "case r of Inl e \<Rightarrow> e = Cancelled
    | Inr b \<Rightarrow> 1 \<le> b \<and> b \<le> 300 \<and> (\<exists>cs. sdk_log s' = sdk_log s @ cs \<and> controls cs = 0)"
  using triple_result [OF rounds_rest [OF initial_backoff_ok, of 0 s E n] rest_refl [OF assms(1)]
      assms(2) [unfolded async_maintain_def]]
  by (cases r)
    (auto simp: backoff_ok_def RECONNECT_INITIAL_BACKOFF_def RECONNECT_MAX_BACKOFF_def rest_def issued_def)

definition sample_absent :: "nat env" where
  "sample_absent = sample_env\<lparr>e_device := (\<lambda>_. None)\<rparr>"

lemma maintain_backoff_bounded_witness:
  "fst (async_maintain sample_absent 12 sample_conn) = Inr 300
    \<and> (\<exists>cs. sdk_log (snd (async_maintain sample_absent 12 sample_conn)) = sdk_log sample_conn @ cs \<and> controls cs = 0)"
proof -
  have r: "fst (async_maintain sample_absent 12 sample_conn) = Inr 300" by code_simp
  from maintain_backoff_bounded [OF sample_rest prod.collapse [symmetric], of sample_absent 12] r
  show ?thesis by simp
qed

end
