(* ===== verification/House.thy ===== *)
theory House
  imports ConnProps
begin

section \<open>All connections of the installation\<close>

text \<open>
  Every lock has a connection object of its own; an action of Home Assistant runs on one of them
  and leaves the others alone. \<open>house\<close> is the state of all of them, \<open>house_op\<close> what the
  integration does with a connection: polls, log fetches, inventory reads, rounds of the
  reconnect loop, management commands, bolt commands, start, stop and the callbacks between
  them. The locale \<open>house_steps\<close> is the contract all ways to use connections share.
\<close>

type_synonym 'w house = "nat \<Rightarrow> 'w conn"

definition on_connection :: "nat \<Rightarrow> ('w conn, 'a) eff \<Rightarrow> ('w house, 'a) eff" where
  "on_connection c m H = (case m (H c) of (r, s) \<Rightarrow> (r, H(c := s)))"

definition house_at_rest :: "'w house \<Rightarrow> bool" where
  "house_at_rest H \<longleftrightarrow> (\<forall>c. at_rest (H c))"

text \<open>\<open>house_within b H\<^sub>0 H\<close>: at rest, and at most \<open>b c\<close> bolt commands on connection \<open>c\<close> since \<open>H\<^sub>0\<close>.\<close>

definition house_within :: "(nat \<Rightarrow> nat) \<Rightarrow> 'w house \<Rightarrow> 'w house \<Rightarrow> bool" where
  "house_within b H0 H \<longleftrightarrow> (\<forall>c. rest (b c) (H0 c) (H c))"

lemma house_within_refl: "house_at_rest H \<Longrightarrow> house_within (\<lambda>_. 0) H H"
  by (simp add: house_within_def house_at_rest_def rest_refl)

lemma house_within_rest: "house_within b H0 H \<Longrightarrow> house_at_rest H"
  by (simp add: house_within_def house_at_rest_def rest_def)

subsection \<open>The contract\<close>

text \<open>
  A way to use connections: a step per request, and for each request and connection a bound on
  the bolt commands it may write there.
\<close>

locale house_steps =
  fixes step :: "'q \<Rightarrow> 'w house \<Rightarrow> 'w house" and commands :: "'q \<Rightarrow> nat \<Rightarrow> nat"
  assumes step_within: "house_within b H0 H \<Longrightarrow> house_within (\<lambda>c. b c + commands q c) H0 (step q H)"
begin

lemma steps_within:
  "house_within b H0 H \<Longrightarrow> house_within (\<lambda>c. b c + (\<Sum>q\<leftarrow>qs. commands q c)) H0 (fold step qs H)"
proof (induction qs arbitrary: b H)
  case (Cons q qs)
  from Cons.IH [OF step_within [OF Cons.prems, of q]] show ?case by (simp add: add.assoc)
qed simp

lemma run_within:
  "house_at_rest H \<Longrightarrow> house_within (\<lambda>c. \<Sum>q\<leftarrow>qs. commands q c) H (fold step qs H)"
  using steps_within [OF house_within_refl] by simp

end

text \<open>One operation on one connection, from its triple.\<close>

lemma on_connection_within:
  assumes "\<And>k s0. triple (rest k s0) m (\<lambda>_. rest (k + n) s0) (\<lambda>_. rest (k + n) s0)"
    and "house_within b H0 H" and "on_connection c m H = (r, H')"
  shows "house_within (\<lambda>i. b i + (if i = c then n else 0)) H0 H'"
proof -
  obtain s' where m: "m (H c) = (r, s')" and H': "H' = H(c := s')"
    using assms(3) by (auto simp: on_connection_def split: prod.splits)
  from assms(2) have "rest (b c) (H0 c) (H c)" by (simp add: house_within_def)
  from triple_result [OF assms(1) this m] have "rest (b c + n) (H0 c) s'" by (cases r) simp_all
  with assms(2) H' show ?thesis by (simp add: house_within_def)
qed

lemma on_connection_other: "on_connection c m H = (r, H') \<Longrightarrow> c' \<noteq> c \<Longrightarrow> H' c' = H c'"
  by (auto simp: on_connection_def split: prod.splits)

lemma on_connection_own:
  "on_connection c m H = (r, H') \<Longrightarrow> m (H c) = (r, H' c) \<and> H' = H(c := H' c)"
  by (auto simp: on_connection_def split: prod.splits)

subsection \<open>What the integration does with a connection\<close>

text \<open>
  A round of the reconnect loop holds the connection's lock only for its acquisition; \<open>HAcquire\<close> is
  that part alone, with anything after it while the loop waits.
\<close>

datatype house_op =
    HStart nat bool
  | HQuery nat bool
  | HLogFetch nat
  | HInventory nat string
  | HAdminInventory nat string
  | HCommand nat action
  | HReconnect nat nat
  | HAcquire nat
  | HStop nat
  | HCallback nat interf

fun house_step :: "(nat \<Rightarrow> 'w env) \<Rightarrow> house_op \<Rightarrow> 'w house \<Rightarrow> 'w house" where
  "house_step E (HStart c maintain) H = H(c := async_start maintain (H c))"
| "house_step E (HQuery c active) H = snd (on_connection c (query_state (E c) active) H)"
| "house_step E (HLogFetch c) H = snd (on_connection c (get_operation_log (E c)) H)"
| "house_step E (HInventory c method) H = snd (on_connection c (get_access_inventory (E c) method) H)"
| "house_step E (HAdminInventory c method) H = snd (on_connection c (get_administrative_inventory (E c) method) H)"
| "house_step E (HCommand c a) H = snd (on_connection c (run_command (E c) a) H)"
| "house_step E (HReconnect c n) H = snd (on_connection c (async_maintain (E c) n) H)"
| "house_step E (HAcquire c) H = snd (on_connection c (ensure_connected (E c) False BACKGROUND_MAINTENANCE) H)"
| "house_step E (HStop c) H = snd (on_connection c (async_stop (E c)) H)"
| "house_step E (HCallback c i) H = H(c := interfere i (H c))"

text \<open>The bolt commands a step stands for: one for a lock or unlock request, none for all others.\<close>

fun house_commands :: "house_op \<Rightarrow> nat \<Rightarrow> nat" where
  "house_commands (HCommand c a) i = (if i = c then 1 else 0)"
| "house_commands _ i = 0"

lemma rest_mono: "rest k s0 s \<Longrightarrow> k \<le> n \<Longrightarrow> rest n s0 s"
  by (auto simp: rest_def issued_def)

lemma stop_begin_rest: "rest k s0 s \<Longrightarrow> rest k s0 (stop_begin s)"
  by (simp add: rest_def stop_begin_def issued_def at_rest_def)

lemma interfere_keeps_rest: "rest k s0 s \<Longrightarrow> rest k s0 (interfere i s)"
  using stable_rest [of k s0] unfolding stable_def
  by (metis (no_types, lifting) conn.surjective conn.update_convs(25) fold_simps)

lemma async_start_rest: "rest k s0 s \<Longrightarrow> rest k s0 (async_start b s)"
  by (auto simp: async_start_def rest_def issued_def)

lemma teardown_stop_rest:
  "triple (rest k s0) (stop_teardown E) (\<lambda>_. rest k s0) (\<lambda>_. rest k s0)"
proof -
  have first: "triple (rest k s0) (disconnect_locked E) (\<lambda>_. rest k s0) (\<lambda>_. rest k s0)"
    by (rule triple_post [OF disc_rest]) auto
  have second: "triple (rest k s0) (if ok then m_return True else retry_pending_cleanup E)
      (\<lambda>_. rest k s0) (\<lambda>_. rest k s0)" for ok
    by (intro triple_if triple_return triple_post [OF retry_rest]) auto
  show ?thesis
    unfolding stop_teardown_def
    by (rule triple_bind [OF first], rule triple_bind [OF second])
      (auto intro!: triple_if triple_return triple_bind_gets triple_raise)
qed

lemma stop_rest: "triple (rest k s0) (async_stop E) (\<lambda>_. rest k s0) (\<lambda>_. rest k s0)"
proof -
  have ended: "triple (rest k s0) (m_bind (await (e_gather E)) (\<lambda>_. m_modify (\<lambda>s. s\<lparr>maintaining := False\<rparr>)))
      (\<lambda>_. rest k s0) (\<lambda>_. rest k s0)"
    by (rule triple_bind [OF triple_await [OF stable_rest]]) (rule triple_modify, simp)
  have body: "triple (rest k s0) (m_then cancel_inventory (m_bind (m_gets maintaining) (\<lambda>running.
         m_then (if running
                 then m_bind (await (e_gather E)) (\<lambda>_. m_modify (\<lambda>s. s\<lparr>maintaining := False\<rparr>))
                 else m_return ())
          (stop_teardown E)))) (\<lambda>_. rest k s0) (\<lambda>_. rest k s0)"
    by (intro triple_then [OF cancel_inventory_rest] triple_bind_gets triple_then [where R = "\<lambda>_. rest k s0"]
        triple_if triple_return triple_pre [OF ended] teardown_stop_rest) auto
  show ?thesis
    unfolding async_stop_def by (rule triple_then_modify [OF body]) (simp add: stop_begin_rest)
qed

text \<open>The triples in the form the contract asks for.\<close>

lemma quiet_triple:
  assumes "\<And>k s0. triple (rest k s0) m (Q k s0) (X k s0)"
    and "\<And>k s0 a s. Q k s0 a s \<Longrightarrow> rest k s0 s" and "\<And>k s0 e s. X k s0 e s \<Longrightarrow> rest k s0 s"
  shows "\<And>k s0. triple (rest k s0) m (\<lambda>_. rest (k + 0) s0) (\<lambda>_. rest (k + 0) s0)"
  by (rule triple_post [OF assms(1)]) (auto dest: assms(2,3))

lemma quiet_within:
  assumes "\<And>k s0. triple (rest k s0) m (\<lambda>_. rest (k + 0) s0) (\<lambda>_. rest (k + 0) s0)" and "house_within b H0 H"
  shows "house_within (\<lambda>i. b i + 0) H0 (snd (on_connection c m H))"
  using on_connection_within [OF assms prod.collapse [symmetric], of c] by simp

lemma command_within:
  assumes "house_within b H0 H"
  shows "house_within (\<lambda>i. b i + (if i = c then 1 else 0)) H0 (snd (on_connection c (run_command E a) H))"
  by (rule on_connection_within [OF _ assms prod.collapse [symmetric]], rule triple_post [OF command_rest]) simp_all

lemma rounds_quiet: "triple (rest k s0) (async_maintain E n) (\<lambda>_. rest k s0) (\<lambda>_. rest k s0)"
  unfolding async_maintain_def by (rule triple_post [OF rounds_rest [OF initial_backoff_ok]]) auto

lemma house_update:
  assumes "house_within b H0 H" and "\<And>k s0 s. rest k s0 s \<Longrightarrow> rest k s0 (f s)"
  shows "house_within (\<lambda>i. b i + 0) H0 (H(c := f (H c)))"
  using assms by (simp add: house_within_def)

lemma house_step_within:
  assumes "house_within b H0 H"
  shows "house_within (\<lambda>i. b i + house_commands q i) H0 (house_step E q H)"
proof (cases q)
  case (HStart c m)
  then show ?thesis using house_update [OF assms async_start_rest] by simp
next
  case (HQuery c a)
  then show ?thesis using quiet_within [OF quiet_triple [OF query_rest] assms] by simp
next
  case (HLogFetch c)
  then show ?thesis using quiet_within [OF quiet_triple [OF log_rest] assms] by simp
next
  case (HInventory c m)
  then show ?thesis using quiet_within [OF quiet_triple [OF start_rest] assms]
    by (simp add: get_access_inventory_def)
next
  case (HAdminInventory c m)
  then show ?thesis using quiet_within [OF quiet_triple [OF start_rest] assms]
    by (simp add: get_administrative_inventory_def)
next
  case (HCommand c a)
  then show ?thesis using command_within [OF assms] by simp
next
  case (HReconnect c n)
  then show ?thesis using quiet_within [OF quiet_triple [OF rounds_quiet] assms] by simp
next
  case (HAcquire c)
  then show ?thesis using quiet_within [OF quiet_triple [OF ensure_rest] assms] by simp
next
  case (HStop c)
  then show ?thesis using quiet_within [OF quiet_triple [OF stop_rest] assms] by simp
next
  case (HCallback c i)
  then show ?thesis using house_update [OF assms interfere_keeps_rest] by simp
qed

interpretation ops: house_steps "house_step E" house_commands
  by unfold_locales (rule house_step_within)

end
