(* ===== verification/CredentialReferences.thy ===== *)
theory CredentialReferences
  imports PyDict Sha256
begin

section \<open>Opaque credential references (credential_references.py)\<close>

text \<open>
  A handle for a credential is an HMAC of its lock, method, epoch and identifier under a private
  key that is created once and stored. Storage and randomness are the record \<open>store_env\<close>; the
  stored JSON is part of the state. The store is used under a lock of its own, so an operation
  runs to its end.
\<close>

subsection \<open>State and environment\<close>

definition METHODS :: "string list" where
  "METHODS = [''keypad_pin'', ''fingerprint'', ''ic_card'', ''fob'']"

definition REFERENCE_KEY_BYTES :: nat where "REFERENCE_KEY_BYTES = 32"

record 'w refs =
  ref_key :: "byte list option"
  ref_saved :: "json option"
  ref_world :: 'w

text \<open>
  A load or save returns the exception it raised, if any; what it does to the stored value is
  in the operations.
\<close>

record 'w refs_env =
  r_load :: "'w \<Rightarrow> exn option \<times> 'w"
  r_save :: "'w \<Rightarrow> exn option \<times> 'w"
  r_remove :: "'w \<Rightarrow> exn option \<times> 'w"
  r_token_bytes :: "'w \<Rightarrow> byte list \<times> 'w"

definition refs_step :: "('w \<Rightarrow> 'a \<times> 'w) \<Rightarrow> ('w refs, 'a) eff" where
  "refs_step f = (\<lambda>s. (Inr (fst (f (ref_world s))), s\<lparr>ref_world := snd (f (ref_world s))\<rparr>))"

text \<open>An awaited storage call with its effect when it succeeds.\<close>

definition refs_store :: "('w \<Rightarrow> exn option \<times> 'w) \<Rightarrow> ('w refs \<Rightarrow> 'w refs) \<Rightarrow> ('w refs, unit) eff" where
  "refs_store f upd = m_bind (refs_step f) (\<lambda>r. case r of
     Some e \<Rightarrow> m_raise e | None \<Rightarrow> m_modify upd)"

definition new_refs :: "json option \<Rightarrow> 'w \<Rightarrow> 'w refs" where
  "new_refs stored w = \<lparr>ref_key = None, ref_saved = stored, ref_world = w\<rparr>"

subsection \<open>Loading the key\<close>

definition invalid_reference_storage :: exn where
  "invalid_reference_storage = ValueErr ''Protected credential reference storage is invalid''"

text \<open>\<open>bytes.fromhex(data["key"])\<close> with the exceptions the code catches, and the length check.\<close>

definition stored_key :: "json \<Rightarrow> exn + byte list" where
  "stored_key data = (case data of
     JDict d \<Rightarrow> (case dict_get d ''key'' of
        Some (JStr h) \<Rightarrow> (case bytes_fromhex h of
           Some key \<Rightarrow> if length key = REFERENCE_KEY_BYTES then Inr key else Inl invalid_reference_storage
         | None \<Rightarrow> Inl invalid_reference_storage)
      | _ \<Rightarrow> Inl invalid_reference_storage)
   | _ \<Rightarrow> Inl invalid_reference_storage)"

definition refs_load :: "'w refs_env \<Rightarrow> ('w refs, unit) eff" where
  "refs_load R = m_bind (m_gets ref_key) (\<lambda>k. if k \<noteq> None then m_return ()
     else m_then (refs_store (r_load R) id) (m_bind (m_gets ref_saved) (\<lambda>data. case data of
       None \<Rightarrow> m_bind (refs_step (r_token_bytes R)) (\<lambda>key.
         m_then (refs_store (r_save R) (\<lambda>s. s\<lparr>ref_saved := Some (JDict [(''key'', JStr (bytes_hex key))])\<rparr>))
           (m_modify (\<lambda>s. s\<lparr>ref_key := Some key\<rparr>)))
     | Some j \<Rightarrow> (case stored_key j of
         Inl e \<Rightarrow> m_raise e
       | Inr key \<Rightarrow> m_modify (\<lambda>s. s\<lparr>ref_key := Some key\<rparr>)))))"

definition refs_remove :: "'w refs_env \<Rightarrow> ('w refs, unit) eff" where
  "refs_remove R = m_then (m_modify (\<lambda>s. s\<lparr>ref_key := None\<rparr>))
     (refs_store (r_remove R) (\<lambda>s. s\<lparr>ref_saved := None\<rparr>))"

subsection \<open>Deriving a handle\<close>

text \<open>Each part is preceded by its length in four bytes, so the parts cannot run together.\<close>

definition framed :: "byte list \<Rightarrow> byte list" where
  "framed part = nat_be 4 (length part) @ part"

definition reference_material :: "byte list list \<Rightarrow> byte list" where
  "reference_material parts = concat (map framed parts)"

text \<open>
  The four parts the code authenticates, in its order. Each is taken to be shorter than \<open>2 ^ 32\<close>
  bytes; \<open>to_bytes\<close> raises for a longer one.
\<close>

definition mac_input :: "string \<Rightarrow> string \<Rightarrow> string \<Rightarrow> byte list \<Rightarrow> byte list" where
  "mac_input lock method epoch identifier =
     reference_material [py_encode lock, py_encode method, py_encode epoch, identifier]"

definition from_verified_record ::
  "byte list option \<Rightarrow> string \<Rightarrow> string \<Rightarrow> string \<Rightarrow> byte list \<Rightarrow> exn + string" where
  "from_verified_record key lock method epoch identifier = (case key of
     None \<Rightarrow> Inl (ValueErr ''Protected credential reference cannot be derived'')
   | Some k \<Rightarrow>
       if method \<notin> set METHODS \<or> epoch = [] \<or> identifier = []
       then Inl (ValueErr ''Protected credential reference cannot be derived'')
       else Inr (hmac_hexdigest k (mac_input lock method epoch identifier)))"

subsection \<open>Lemmas\<close>

lemma nat_be_inj: "m < 256 ^ k \<Longrightarrow> n < 256 ^ k \<Longrightarrow> nat_be k m = nat_be k n \<Longrightarrow> m = n"
proof (induction k arbitrary: m n)
  case (Suc k)
  have "unat (of_nat (m mod 256) :: byte) = unat (of_nat (n mod 256) :: byte)"
    using Suc.prems(3) by simp
  then have low: "m mod 256 = n mod 256"
    by (simp add: unat_of_nat)
  have "m div 256 = n div 256"
    by (rule Suc.IH) (use Suc.prems in \<open>auto simp: less_mult_imp_div_less mult.commute\<close>)
  with low show ?case by (metis div_mult_mod_eq)
qed simp

lemma framed_append_inj:
  assumes "length p < 2 ^ 32" and "length q < 2 ^ 32" and "framed p @ xs = framed q @ ys"
  shows "p = q \<and> xs = ys"
proof -
  from assms(3) have "nat_be 4 (length p) = nat_be 4 (length q)" and rest: "p @ xs = q @ ys"
    unfolding framed_def by (simp_all add: append_eq_append_conv)
  then have "length p = length q"
    using nat_be_inj [of "length p" 4 "length q"] assms(1,2) by simp
  with rest show ?thesis by simp
qed

lemma reference_material_inj:
  assumes "list_all (\<lambda>p. length p < 2 ^ 32) ps" and "list_all (\<lambda>p. length p < 2 ^ 32) qs"
    and "length ps = length qs" and "reference_material ps = reference_material qs"
  shows "ps = qs"
  using assms(3,1,2,4)
proof (induction ps qs rule: list_induct2)
  case (Cons p ps q qs)
  then have "framed p @ reference_material ps = framed q @ reference_material qs"
    by (simp add: reference_material_def)
  with framed_append_inj [of p q] Cons show ?case by auto
qed simp

lemma byte_of_nat_inj:
  assumes "(of_nat m :: byte) = of_nat n" and "m < 256" and "n < 256"
  shows "m = n"
proof -
  from assms(1) have "unat (of_nat m :: byte) = unat (of_nat n :: byte)" by simp
  with assms(2,3) show ?thesis by (simp add: unat_of_nat)
qed

lemma utf8_char_append:
  assumes "utf8_char c @ xs = utf8_char d @ ys"
  shows "c = d \<and> xs = ys"
proof -
  have hi: "192 + code x div 64 < 256" "128 + code x mod 64 < 256" for x
  proof -
    have "code x div 64 \<le> 255 div 64" by (rule div_le_mono) (use code_less [of x] in linarith)
    then show "192 + code x div 64 < 256" by simp
    have "code x mod 64 < 64" by simp
    then show "128 + code x mod 64 < 256" by linarith
  qed
  show ?thesis
  proof (cases "code c < 128"; cases "code d < 128")
    assume c: "code c < 128" and d: "code d < 128"
    with assms have "(of_nat (code c) :: byte) = of_nat (code d)" "xs = ys"
      by (simp_all add: utf8_char_def)
    with byte_of_nat_inj [of "code c" "code d"] show ?thesis by simp
  next
    assume c: "code c < 128" and d: "\<not> code d < 128"
    with assms have "(of_nat (code c) :: byte) = of_nat (192 + code d div 64)"
      by (simp add: utf8_char_def del: of_nat_add)
    with byte_of_nat_inj [OF this] hi [of d] c show ?thesis by simp
  next
    assume c: "\<not> code c < 128" and d: "code d < 128"
    with assms have "(of_nat (192 + code c div 64) :: byte) = of_nat (code d)"
      by (simp add: utf8_char_def del: of_nat_add)
    with byte_of_nat_inj [OF this] hi [of c] d show ?thesis by simp
  next
    assume c: "\<not> code c < 128" and d: "\<not> code d < 128"
    with assms have *: "(of_nat (192 + code c div 64) :: byte) = of_nat (192 + code d div 64)"
      "(of_nat (128 + code c mod 64) :: byte) = of_nat (128 + code d mod 64)" "xs = ys"
      by (simp_all add: utf8_char_def del: of_nat_add)
    from byte_of_nat_inj [OF *(1)] byte_of_nat_inj [OF *(2)] hi [of c] hi [of d]
    have "code c div 64 = code d div 64" "code c mod 64 = code d mod 64" by simp_all
    then have "code c = code d" by (metis div_mult_mod_eq)
    with *(3) show ?thesis by simp
  qed
qed

lemma py_encode_inj: "py_encode s = py_encode t \<Longrightarrow> s = t"
proof (induction s arbitrary: t)
  case Nil
  then show ?case by (cases t) (auto simp: py_encode_def utf8_char_def split: if_splits)
next
  case (Cons c s)
  show ?case
  proof (cases t)
    case Nil
    with Cons.prems show ?thesis by (simp add: py_encode_def utf8_char_def split: if_splits)
  next
    case (Cons d t')
    with Cons.prems utf8_char_append [of c "py_encode s" d "py_encode t'"]
    have "c = d" "py_encode s = py_encode t'" by (auto simp: py_encode_def)
    with Cons Cons.IH show ?thesis by simp
  qed
qed

lemma length_py_encode: "length (py_encode s) \<le> 2 * length s"
  by (induction s) (auto simp: py_encode_def utf8_char_def)

lemma derived_handle_shape:
  "from_verified_record key l m e i = Inr t \<Longrightarrow> length t = 64 \<and> lower_hex t"
  by (auto simp: from_verified_record_def split: option.splits if_splits)

subsection \<open>Properties\<close>

text \<open>What a handle can be derived for: one of the four methods, an epoch and an identifier.\<close>

definition derivable :: "string \<Rightarrow> string \<Rightarrow> string \<Rightarrow> byte list \<Rightarrow> bool" where
  "derivable lock method epoch identifier \<longleftrightarrow>
     method \<in> {''keypad_pin'', ''fingerprint'', ''ic_card'', ''fob''} \<and> epoch \<noteq> [] \<and> identifier \<noteq> []
     \<and> list_all (\<lambda>part. length part < 2 ^ 32) [py_encode lock, py_encode method, py_encode epoch, identifier]"

lemma derived_handle:
  "derivable lock method epoch identifier \<Longrightarrow> from_verified_record (Some k) lock method epoch identifier
     = Inr (hmac_hexdigest k (mac_input lock method epoch identifier))"
  by (auto simp: from_verified_record_def derivable_def METHODS_def)

lemma mac_input_inj:
  assumes "derivable lock method epoch identifier" and "derivable lock' method' epoch' identifier'"
    and "mac_input lock method epoch identifier = mac_input lock' method' epoch' identifier'"
  shows "(lock, method, epoch, identifier) = (lock', method', epoch', identifier')"
  using reference_material_inj [OF _ _ _ assms(3) [unfolded mac_input_def]] assms(1,2)
  by (auto simp: derivable_def dest: py_encode_inj)

text \<open>
  Claim C37. The handle of a credential is bound to its lock, method, epoch and identifier: for
  every derivable credential \<open>from_verified_record\<close> returns the HMAC under the private key of one
  message, the message determines all four (however the texts are split), and so the handles
  derived for two credentials under one key are equal exactly when lock, method, epoch and
  identifier all are, unless the HMAC collides on the two messages.
\<close>

theorem reference_input_unambiguous:
  assumes "derivable lock method epoch identifier" and "derivable lock' method' epoch' identifier'"
  shows "from_verified_record (Some k) lock method epoch identifier
      = Inr (hmac_hexdigest k (mac_input lock method epoch identifier))
    \<and> (mac_input lock method epoch identifier = mac_input lock' method' epoch' identifier'
        \<longrightarrow> (lock, method, epoch, identifier) = (lock', method', epoch', identifier'))
    \<and> (inj_on (hmac_hexdigest k) {mac_input lock method epoch identifier, mac_input lock' method' epoch' identifier'}
        \<longrightarrow> (from_verified_record (Some k) lock method epoch identifier
             = from_verified_record (Some k) lock' method' epoch' identifier'
           \<longleftrightarrow> (lock, method, epoch, identifier) = (lock', method', epoch', identifier')))"
  using derived_handle [OF assms(1)] derived_handle [OF assms(2)] mac_input_inj [OF assms]
  by (auto simp: inj_on_def)

theorem reference_input_unambiguous_witness:
  "mac_input ''AB'' ''fob'' ''e'' [1] \<noteq> mac_input ''ABf'' ''fob'' ''e'' [1]
   \<and> from_verified_record (Some []) ''AB'' ''fob'' ''e'' [1] = Inr (hmac_hexdigest [] (mac_input ''AB'' ''fob'' ''e'' [1]))"
proof -
  have parts: "derivable l ''fob'' ''e'' [1]" if "length l < 4" for l
    using that length_py_encode [of l] length_py_encode [of "''fob''"] length_py_encode [of "''e''"]
    by (simp add: derivable_def)
  show ?thesis
    using reference_input_unambiguous [OF parts [of "''AB''"] parts [of "''ABf''"], of "[]"] by simp
qed

definition key_ok :: "'w refs \<Rightarrow> bool" where
  "key_ok s \<longleftrightarrow> (\<forall>k. ref_key s = Some k \<longrightarrow>
     length k = REFERENCE_KEY_BYTES \<and> (\<exists>j. ref_saved s = Some j \<and> stored_key j = Inr k))"

lemma stored_key_saved:
  "length key = REFERENCE_KEY_BYTES \<Longrightarrow> stored_key (JDict [(''key'', JStr (bytes_hex key))]) = Inr key"
  by (simp add: stored_key_def bytes_fromhex_hex)

lemma stored_key_length: "stored_key j = Inr k \<Longrightarrow> length k = REFERENCE_KEY_BYTES"
  by (auto simp: stored_key_def split: json.splits option.splits if_splits)

lemma load_result:
  assumes "refs_load R s = (Inr u, s')" and "ref_key s = None"
    and "\<forall>w. length (fst (r_token_bytes R w)) = REFERENCE_KEY_BYTES"
  shows "\<exists>j k. ref_saved s' = Some j \<and> stored_key j = Inr k \<and> ref_key s' = Some k
    \<and> (\<forall>j0. ref_saved s = Some j0 \<longrightarrow> j = j0)"
proof (cases "ref_saved s")
  case None
  let ?w = "snd (r_load R (ref_world s))"
  let ?key = "fst (r_token_bytes R ?w)"
  have ok: "stored_key (JDict [(''key'', JStr (bytes_hex ?key))]) = Inr ?key"
    using assms(3) by (intro stored_key_saved) simp
  from None assms(1,2) have "ref_key s' = Some ?key" "ref_saved s' = Some (JDict [(''key'', JStr (bytes_hex ?key))])"
    by (auto simp: refs_load_def refs_store_def refs_step_def eff_defs split: option.splits)
  with None ok show ?thesis by simp
next
  case (Some j)
  with assms show ?thesis
    by (cases "stored_key j")
      (auto simp: refs_load_def refs_store_def refs_step_def eff_defs split: option.splits)
qed

text \<open>
  The private key is created once and survives: after a load that created the key, a
  restarted integration that loads the same storage without an error holds the same key; and a
  load that succeeds always leaves a key of 32 bytes that is the stored one, provided the random
  source returns 32 bytes.
\<close>

lemma reference_key_persists:
  assumes "\<forall>w. length (fst (r_token_bytes R w)) = REFERENCE_KEY_BYTES"
    and "refs_load R (new_refs stored w) = (Inr u, s)"
    and "refs_load R (new_refs (ref_saved s) w') = (Inr u', s')"
  shows "ref_key s \<noteq> None \<and> key_ok s \<and> ref_key s' = ref_key s"
proof -
  from load_result [OF assms(2) _ assms(1)] obtain j k where
    j: "ref_saved s = Some j" "stored_key j = Inr k" "ref_key s = Some k" by (auto simp: new_refs_def)
  from load_result [OF assms(3) _ assms(1)] j(1) have "ref_key s' = Some k"
    using j(2) by (auto simp: new_refs_def)
  with j stored_key_length [OF j(2)] show ?thesis by (simp add: key_ok_def)
qed

definition sample_refs_env :: "nat refs_env" where
  "sample_refs_env = \<lparr>r_load = (\<lambda>w. (None, w)), r_save = (\<lambda>w. (None, w)), r_remove = (\<lambda>w. (None, w)),
     r_token_bytes = (\<lambda>w. (replicate 32 (of_nat w), Suc w))\<rparr>"

definition sample_refs :: "nat refs" where
  "sample_refs = snd (refs_load sample_refs_env (new_refs None 7))"

lemma reference_key_persists_witness:
  "ref_key (snd (refs_load sample_refs_env (new_refs (ref_saved sample_refs) 9))) = ref_key sample_refs
    \<and> ref_key sample_refs = Some (replicate 32 7)"
proof -
  have rnd: "\<forall>w. length (fst (r_token_bytes sample_refs_env w)) = REFERENCE_KEY_BYTES"
    by (simp add: sample_refs_env_def REFERENCE_KEY_BYTES_def)
  have key: "ref_key sample_refs = Some (replicate 32 7)"
    by (simp add: sample_refs_def refs_load_def refs_store_def refs_step_def eff_defs sample_refs_env_def new_refs_def)
  have one: "refs_load sample_refs_env (new_refs None 7) = (Inr (), sample_refs)"
    by (simp add: sample_refs_def refs_load_def refs_store_def refs_step_def eff_defs sample_refs_env_def new_refs_def)
  have two: "refs_load sample_refs_env (new_refs (ref_saved sample_refs) 9)
      = (Inr (), snd (refs_load sample_refs_env (new_refs (ref_saved sample_refs) 9)))"
    by (simp add: sample_refs_def refs_load_def refs_store_def refs_step_def eff_defs sample_refs_env_def
        new_refs_def stored_key_saved REFERENCE_KEY_BYTES_def)
  from reference_key_persists [OF rnd one two] key show ?thesis by simp
qed

end
