(* ===== verification/AccessRecords.thy ===== *)
theory AccessRecords
  imports CredentialReferences InventoryData "HOL-Library.List_Lexorder" "HOL-Library.Char_ord"
begin

section \<open>Private access records (access_records.py)\<close>

text \<open>
  Labels for the credentials an inventory read observed. A read is only believed when its
  ticket (\<open>revision\<close>) is still the current one, so whatever invalidates a scope meanwhile
  makes an older read harmless. The environment \<open>store_env\<close> is storage, clock and
  randomness; at every await it also says what other tasks did to this store meanwhile
  (\<open>store_event\<close>). The SDK's inventory is an argument.
\<close>

subsection \<open>Data\<close>

definition ACCESS_METHODS :: "string list" where
  "ACCESS_METHODS = [''keypad_pin'', ''fingerprint'', ''ic_card'']"

definition FRESH_SECONDS :: rat where "FRESH_SECONDS = 300"
definition MAX_RECORDS :: nat where "MAX_RECORDS = 512"
definition MAX_NAME :: nat where "MAX_NAME = 64"
definition SPACE_ORDINAL :: nat where "SPACE_ORDINAL = 32"

definition RECORD_TYPES :: "string list" where
  "RECORD_TYPES = [''pin_type_1'', ''pin_type_3'', ''pin_type_4'', ''fingerprint_record'', ''card_4byte'']"

definition VALIDITIES :: "string list" where
  "VALIDITIES = [''permanent'', ''time_window'', ''cyclic'', ''unknown'']"

record private_record =
  pr_base :: string
  pr_reference :: string
  pr_record_type :: string
  pr_validity :: string
  pr_alias :: string
  pr_active :: bool

record scope_state =
  ss_epoch :: string
  ss_records :: "private_record list"

record 'w access_store =
  refs_key :: "byte list option"
  saved :: "json option"
  loaded :: bool
  scopes :: "(string, scope_state) dict"
  legacy_set :: "string set"
  fresh :: "(string, rat) dict"
  revision :: "(string, nat) dict"
  confirmed :: "string set"
  observed :: "(string, string set) dict"
  store_world :: 'w

definition new_access_store :: "json option \<Rightarrow> 'w \<Rightarrow> 'w access_store" where
  "new_access_store stored w = \<lparr>refs_key = None, saved = stored, loaded = False, scopes = [],
     legacy_set = {}, fresh = [], revision = [], confirmed = {}, observed = [], store_world = w\<rparr>"

subsection \<open>Stored form\<close>

definition record_json :: "private_record \<Rightarrow> json" where
  "record_json r = JDict [(''base'', JStr (pr_base r)), (''reference'', JStr (pr_reference r)),
     (''record_type'', JStr (pr_record_type r)), (''validity'', JStr (pr_validity r)),
     (''alias'', JStr (pr_alias r)), (''active'', JBool (pr_active r))]"

definition scope_json :: "scope_state \<Rightarrow> json" where
  "scope_json st = JDict [(''epoch'', JStr (ss_epoch st)), (''records'', JList (map record_json (ss_records st)))]"

definition store_json :: "(string, scope_state) dict \<Rightarrow> string set \<Rightarrow> json" where
  "store_json sc legacy = JDict [(''scopes'', JDict (map (\<lambda>(k, st). (k, scope_json st)) sc)),
     (''legacy_disabled'', JList (map JStr (sorted_list_of_set legacy)))]"

text \<open>
  The schema \<open>_DATA\<close>. \<open>_HEX\<close> is \<open>re.match\<close> of 32 to 64 lower-case hex digits up to \<open>$\<close>, which
  also matches before a final line feed.
\<close>

definition hex_match :: "nat \<Rightarrow> nat \<Rightarrow> string \<Rightarrow> bool" where
  "hex_match lo hi s = (let t = (if s \<noteq> [] \<and> last s = CHR 10 then butlast s else s)
     in lo \<le> length t \<and> length t \<le> hi \<and> lower_hex t)"

text \<open>A schema with required keys and no others; the value is a function of the key.\<close>

definition exact_keys :: "string list \<Rightarrow> (string \<times> json) list \<Rightarrow> bool" where
  "exact_keys ks d \<longleftrightarrow> (\<forall>k\<in>set ks. dict_get d k \<noteq> None) \<and> (\<forall>(k, v)\<in>set d. k \<in> set ks)"

fun hex_field :: "json \<Rightarrow> string option" where
  "hex_field (JStr s) = (if hex_match 32 64 s then Some s else None)"
| "hex_field _ = None"

fun choice_field :: "string list \<Rightarrow> json \<Rightarrow> string option" where
  "choice_field xs (JStr s) = (if s \<in> set xs then Some s else None)"
| "choice_field xs _ = None"

fun text_field :: "nat \<Rightarrow> json \<Rightarrow> string option" where
  "text_field n (JStr s) = (if length s \<le> n then Some s else None)"
| "text_field n _ = None"

fun bool_field :: "json \<Rightarrow> bool option" where
  "bool_field (JBool b) = Some b"
| "bool_field _ = None"

definition field :: "(json \<Rightarrow> 'a option) \<Rightarrow> (string \<times> json) list \<Rightarrow> string \<Rightarrow> 'a option" where
  "field f d k = Option.bind (dict_get d k) f"

fun option_list :: "'a option list \<Rightarrow> 'a list option" where
  "option_list [] = Some []"
| "option_list (None # xs) = None"
| "option_list (Some x # xs) = map_option ((#) x) (option_list xs)"

fun valid_record :: "json \<Rightarrow> private_record option" where
  "valid_record (JDict d) =
     (if exact_keys [''base'', ''reference'', ''record_type'', ''validity'', ''alias'', ''active''] d
      then (case (field hex_field d ''base'', field hex_field d ''reference'',
          field (choice_field RECORD_TYPES) d ''record_type'', field (choice_field VALIDITIES) d ''validity'',
          field (text_field 64) d ''alias'', field bool_field d ''active'') of
        (Some b, Some r, Some t, Some v, Some a, Some act) \<Rightarrow>
          Some \<lparr>pr_base = b, pr_reference = r, pr_record_type = t, pr_validity = v, pr_alias = a, pr_active = act\<rparr>
      | _ \<Rightarrow> None)
      else None)"
| "valid_record _ = None"

fun records_field :: "json \<Rightarrow> private_record list option" where
  "records_field (JList xs) =
     (case option_list (map valid_record xs) of
        Some rs \<Rightarrow> if length rs \<le> MAX_RECORDS then Some rs else None
      | None \<Rightarrow> None)"
| "records_field _ = None"

fun valid_scope :: "json \<Rightarrow> scope_state option" where
  "valid_scope (JDict d) =
     (if exact_keys [''epoch'', ''records''] d
      then (case (field hex_field d ''epoch'', field records_field d ''records'') of
        (Some e, Some rs) \<Rightarrow> Some \<lparr>ss_epoch = e, ss_records = rs\<rparr>
      | _ \<Rightarrow> None)
      else None)"
| "valid_scope _ = None"

fun scopes_field :: "json \<Rightarrow> (string, scope_state) dict option" where
  "scopes_field (JDict d) = option_list (map (\<lambda>(k, j). map_option (Pair k) (valid_scope j)) d)"
| "scopes_field _ = None"

fun plain_text :: "json \<Rightarrow> string option" where
  "plain_text (JStr s) = Some s"
| "plain_text _ = None"

fun legacy_field :: "json \<Rightarrow> string list option" where
  "legacy_field (JList xs) = option_list (map plain_text xs)"
| "legacy_field _ = None"

fun valid_data :: "json \<Rightarrow> ((string, scope_state) dict \<times> string list) option" where
  "valid_data (JDict d) =
     (if exact_keys [''scopes'', ''legacy_disabled''] d
      then (case (field scopes_field d ''scopes'', field legacy_field d ''legacy_disabled'') of
        (Some sc, Some lg) \<Rightarrow> Some (sc, lg)
      | _ \<Rightarrow> None)
      else None)"
| "valid_data _ = None"

subsection \<open>Scopes and tickets\<close>

definition access_scope :: "string \<Rightarrow> string \<Rightarrow> exn + string" where
  "access_scope lock method =
     (if method \<in> set ACCESS_METHODS then Inr (lock @ ''/'' @ method)
      else Inl (ValueErr ''Unsupported access method''))"

definition stale_scope :: "string \<Rightarrow> 'w access_store \<Rightarrow> 'w access_store" where
  "stale_scope scope s = s\<lparr>fresh := dict_pop scope (fresh s), observed := dict_pop scope (observed s),
     revision := dict_set scope (dict_get_or (revision s) scope 0 + 1) (revision s)\<rparr>"

definition raise_or :: "exn + 'a \<Rightarrow> ('s, 'a) eff" where
  "raise_or r = (case r of Inl e \<Rightarrow> m_raise e | Inr a \<Rightarrow> m_return a)"

definition mark_stale :: "string \<Rightarrow> string \<Rightarrow> ('w access_store, nat) eff" where
  "mark_stale lock method = m_bind (raise_or (access_scope lock method)) (\<lambda>scope.
     m_then (m_modify (stale_scope scope)) (m_gets (\<lambda>s. dict_get_or (revision s) scope 0)))"

definition legacy_disabled :: "string \<Rightarrow> 'w access_store \<Rightarrow> bool" where
  "legacy_disabled lock s \<longleftrightarrow> lock \<in> legacy_set s"

text \<open>The state changes of \<open>async_reset\<close> and \<open>async_remove\<close>, before their storage calls.\<close>

definition forget_scope :: "string \<Rightarrow> 'w access_store \<Rightarrow> 'w access_store" where
  "forget_scope scope s =
     (let gone = (case dict_get (scopes s) scope of None \<Rightarrow> [] | Some st \<Rightarrow> map pr_reference (ss_records st))
      in stale_scope scope (s\<lparr>scopes := dict_pop scope (scopes s), confirmed := confirmed s - set gone\<rparr>))"

definition forget_all :: "'w access_store \<Rightarrow> 'w access_store" where
  "forget_all s = s\<lparr>revision := map (\<lambda>(k, n). (k, n + 1)) (revision s), fresh := [], observed := [],
     confirmed := {}, scopes := [], legacy_set := {}, loaded := False\<rparr>"

text \<open>The checks and the change of \<open>async_name\<close>.\<close>

definition bad_name :: "string \<Rightarrow> bool" where
  "bad_name name \<longleftrightarrow> MAX_NAME < length name \<or> list_ex (\<lambda>c. code c < SPACE_ORDINAL) name"

text \<open>The first record the loop of \<open>async_name\<close> accepts, relabelled.\<close>

fun name_first :: "string set \<Rightarrow> string \<Rightarrow> string \<Rightarrow> private_record list \<Rightarrow> private_record list option" where
  "name_first obs ref name [] = None"
| "name_first obs ref name (r # rs) =
     (if pr_reference r = ref \<and> pr_active r \<and> ref \<in> obs then Some (r\<lparr>pr_alias := py_strip name\<rparr> # rs)
      else map_option ((#) r) (name_first obs ref name rs))"

definition name_scope :: "string \<Rightarrow> string \<Rightarrow> string \<Rightarrow> 'w access_store \<Rightarrow> 'w access_store option" where
  "name_scope scope ref name s = (case dict_get (scopes s) scope of
     None \<Rightarrow> None
   | Some st \<Rightarrow> map_option (\<lambda>rs. s\<lparr>scopes := dict_set scope (st\<lparr>ss_records := rs\<rparr>) (scopes s)\<rparr>)
       (name_first (dict_get_or (observed s) scope {}) ref name (ss_records st)))"

definition set_legacy :: "string \<Rightarrow> bool \<Rightarrow> string set \<Rightarrow> string set" where
  "set_legacy lock disabled locks = (if disabled then insert lock locks else locks - {lock})"

subsection \<open>Environment\<close>

text \<open>
  What other tasks do to this store while a task waits: a new ticket, and, while it waits for
  the lock, a whole reset or removal, a name whose clock reading found the scope fresh, or a
  change of the legacy setting, each with whether its storage call succeeded. While the lock is
  held only tickets are possible. Another task's reconciliation is not among them: the reads of a
  lock pass its connection's lock in the order of their tickets, so one that is ahead in this
  lock has an older ticket of the scope and returns without effect, or belongs to another scope,
  whose records and freshness are all that it changes.
\<close>

datatype store_event =
    SvTicket string
  | SvReset string bool
  | SvRemove bool
  | SvName string string string bool
  | SvLegacy string bool bool

fun apply_event :: "store_event \<Rightarrow> 'w access_store \<Rightarrow> 'w access_store" where
  "apply_event (SvTicket scope) s = stale_scope scope s"
| "apply_event (SvReset scope stored) s = (forget_scope scope s)
     \<lparr>saved := (if stored then Some (store_json (scopes (forget_scope scope s)) (legacy_set s)) else saved s)\<rparr>"
| "apply_event (SvRemove removed) s = (forget_all s)
     \<lparr>saved := (if removed then None else saved s), refs_key := (if removed then None else refs_key s)\<rparr>"
| "apply_event (SvName scope ref name stored) s =
     (if bad_name name \<or> dict_get (fresh s) scope = None then s
      else case name_scope scope ref name s of
        None \<Rightarrow> s
      | Some s' \<Rightarrow> if stored then s'\<lparr>saved := Some (store_json (scopes s') (legacy_set s')),
            confirmed := insert ref (confirmed s')\<rparr>
          else s')"
| "apply_event (SvLegacy lock disabled stored) s =
     (if stored then s\<lparr>saved := Some (store_json (scopes s) (set_legacy lock disabled (legacy_set s))),
        legacy_set := set_legacy lock disabled (legacy_set s)\<rparr>
      else s)"

record 'w store_env =
  v_lock :: "'w \<Rightarrow> store_event list \<times> 'w"
  v_save :: "'w \<Rightarrow> (exn option \<times> string list) \<times> 'w"
  v_load :: "'w \<Rightarrow> (exn option \<times> string list) \<times> 'w"
  v_remove :: "'w \<Rightarrow> (exn option \<times> string list) \<times> 'w"
  v_refs_load :: "'w \<Rightarrow> ((exn + byte list) \<times> string list) \<times> 'w"
  v_refs_remove :: "'w \<Rightarrow> (exn option \<times> string list) \<times> 'w"
  v_monotonic :: "'w \<Rightarrow> rat \<times> 'w"
  v_token_hex :: "'w \<Rightarrow> string \<times> 'w"

definition store_step :: "('w \<Rightarrow> 'a \<times> 'w) \<Rightarrow> ('w access_store, 'a) eff" where
  "store_step f = (\<lambda>s. (Inr (fst (f (store_world s))), s\<lparr>store_world := snd (f (store_world s))\<rparr>))"

text \<open>Waiting for the lock.\<close>

definition take_lock :: "'w store_env \<Rightarrow> ('w access_store, unit) eff" where
  "take_lock V = m_bind (store_step (v_lock V)) (\<lambda>evs. m_modify (fold apply_event evs))"

text \<open>A storage call: its effect on the stored value if it succeeds, then the tickets taken meanwhile.\<close>

definition storage_call ::
  "('w \<Rightarrow> (exn option \<times> string list) \<times> 'w) \<Rightarrow> ('w access_store \<Rightarrow> 'w access_store) \<Rightarrow> ('w access_store, unit) eff" where
  "storage_call f upd = m_bind (store_step f) (\<lambda>(err, tickets).
     m_then (m_modify (\<lambda>s. fold stale_scope tickets (if err = None then upd s else s)))
       (case err of Some e \<Rightarrow> m_raise e | None \<Rightarrow> m_return ()))"

definition save_store :: "'w store_env \<Rightarrow> ('w access_store, unit) eff" where
  "save_store V = storage_call (v_save V) (\<lambda>s. s\<lparr>saved := Some (store_json (scopes s) (legacy_set s))\<rparr>)"

subsection \<open>Loading and settings\<close>

definition access_load :: "'w store_env \<Rightarrow> ('w access_store, unit) eff" where
  "access_load V = m_then (take_lock V) (m_bind (m_gets loaded) (\<lambda>done_before.
     if done_before then m_return ()
     else m_then (storage_call (v_load V) id)
      (m_bind (m_gets saved) (\<lambda>data.
        m_then (case data of
            None \<Rightarrow> m_return ()
          | Some j \<Rightarrow> (case valid_data j of
              None \<Rightarrow> m_raise (ValueErr ''Private access metadata is invalid'')
            | Some (sc, lg) \<Rightarrow> m_modify (\<lambda>s. s\<lparr>scopes := sc, legacy_set := set lg\<rparr>)))
         (m_bind (store_step (v_refs_load V)) (\<lambda>(r, tickets).
           m_then (m_modify (fold stale_scope tickets))
            (case r of
               Inl e \<Rightarrow> m_raise e
             | Inr key \<Rightarrow> m_modify (\<lambda>s. s\<lparr>refs_key := Some key, loaded := True\<rparr>))))))))"

definition set_legacy_disabled :: "'w store_env \<Rightarrow> string \<Rightarrow> bool \<Rightarrow> ('w access_store, unit) eff" where
  "set_legacy_disabled V lock disabled = m_then (take_lock V)
     (m_bind (m_gets (\<lambda>s. set_legacy lock disabled (legacy_set s))) (\<lambda>updated.
       m_then (storage_call (v_save V) (\<lambda>s. s\<lparr>saved := Some (store_json (scopes s) updated)\<rparr>))
         (m_modify (\<lambda>s. s\<lparr>legacy_set := updated\<rparr>))))"

subsection \<open>Reconciling an inventory\<close>

text \<open>
  The loop over the items. \<open>active\<close> maps a base to the position of its record, for the records
  there were before; \<open>seen\<close> collects bases, \<open>observed\<close> references.
\<close>

record loop_state =
  lp_records :: "private_record list"
  lp_seen :: "string set"
  lp_observed :: "string set"

definition active_index :: "string \<Rightarrow> private_record list \<Rightarrow> (string, nat) dict" where
  "active_index method rs = fold (\<lambda>(i, r) d.
     if pr_active r \<or> method = ''keypad_pin'' then dict_set (pr_base r) i d else d) (enumerate 0 rs) []"

definition observe_item ::
  "'w store_env \<Rightarrow> string \<Rightarrow> string \<Rightarrow> string \<Rightarrow> (string, nat) dict \<Rightarrow> inventory_item \<Rightarrow> loop_state \<Rightarrow>
   ('w access_store, loop_state) eff" where
  "observe_item V lock method epoch active item lp =
     m_bind (m_gets refs_key) (\<lambda>key.
       m_bind (raise_or (from_verified_record key lock method (epoch @ ''/'' @ it_record_type item)
           (it_identifier item))) (\<lambda>base.
         case dict_get active base of
           Some i \<Rightarrow> (let r = (lp_records lp ! i)\<lparr>pr_active := True, pr_validity := it_validity item\<rparr>
             in m_return \<lparr>lp_records = (lp_records lp)[i := r], lp_seen = insert base (lp_seen lp),
                  lp_observed = insert (pr_reference r) (lp_observed lp)\<rparr>)
         | None \<Rightarrow> m_bind (store_step (v_token_hex V)) (\<lambda>ref.
             m_return \<lparr>lp_records = lp_records lp @ [\<lparr>pr_base = base, pr_reference = ref,
                    pr_record_type = it_record_type item, pr_validity = it_validity item,
                    pr_alias = [], pr_active = True\<rparr>],
                  lp_seen = insert base (lp_seen lp), lp_observed = insert ref (lp_observed lp)\<rparr>)))"

fun observe_items ::
  "'w store_env \<Rightarrow> string \<Rightarrow> string \<Rightarrow> string \<Rightarrow> (string, nat) dict \<Rightarrow> inventory_item list \<Rightarrow> loop_state \<Rightarrow>
   ('w access_store, loop_state) eff" where
  "observe_items V lock method epoch active [] lp = m_return lp"
| "observe_items V lock method epoch active (it # its) lp =
     m_bind (observe_item V lock method epoch active it lp)
       (observe_items V lock method epoch active its)"

definition retire_unseen :: "string \<Rightarrow> string set \<Rightarrow> private_record list \<Rightarrow> private_record list" where
  "retire_unseen method seen rs = map (\<lambda>r. if pr_base r \<in> seen then r
     else r\<lparr>pr_active := pr_active r \<and> method = ''keypad_pin''\<rparr>) rs"

definition unseen_references :: "string set \<Rightarrow> private_record list \<Rightarrow> string set" where
  "unseen_references seen rs = set (map pr_reference (filter (\<lambda>r. pr_base r \<notin> seen) rs))"

text \<open>The part under the lock.\<close>

definition reconcile_locked ::
  "'w store_env \<Rightarrow> string \<Rightarrow> string \<Rightarrow> string \<Rightarrow> inventory_item list \<Rightarrow> nat \<Rightarrow> ('w access_store, unit) eff" where
  "reconcile_locked V lock method scope items ticket =
     m_bind (m_gets (\<lambda>s. dict_get (revision s) scope)) (\<lambda>current.
       if current \<noteq> Some ticket then m_return ()
       else m_bind (store_step (v_token_hex V)) (\<lambda>new_epoch.
        m_then (m_modify (\<lambda>s. s\<lparr>scopes :=
            dict_setdefault scope \<lparr>ss_epoch = new_epoch, ss_records = []\<rparr> (scopes s)\<rparr>))
         (m_bind (m_gets (\<lambda>s. dict_get_or (scopes s) scope \<lparr>ss_epoch = new_epoch, ss_records = []\<rparr>)) (\<lambda>st.
           m_bind (observe_items V lock method (ss_epoch st) (active_index method (ss_records st)) items
               \<lparr>lp_records = ss_records st, lp_seen = {}, lp_observed = {}\<rparr>) (\<lambda>lp.
             let rs = retire_unseen method (lp_seen lp) (lp_records lp) in
             m_then (m_modify (\<lambda>s. s\<lparr>confirmed := confirmed s - unseen_references (lp_seen lp) (lp_records lp)\<rparr>))
              (if MAX_RECORDS < length rs
               then m_raise (ValueErr ''Private inventory capacity exceeded; reset local references'')
               else m_then (m_modify (\<lambda>s. s\<lparr>scopes := dict_set scope (st\<lparr>ss_records := rs\<rparr>) (scopes s)\<rparr>))
                (m_then (save_store V)
                 (m_bind (m_gets (\<lambda>s. dict_get (revision s) scope)) (\<lambda>after.
                   if after = Some ticket
                   then m_bind (store_step (v_monotonic V)) (\<lambda>now. m_modify (\<lambda>s.
                     s\<lparr>observed := dict_set scope (lp_observed lp) (observed s),
                       fresh := dict_set scope now (fresh s)\<rparr>))
                   else m_return ())))))))))"

definition access_reconcile ::
  "'w store_env \<Rightarrow> string \<Rightarrow> string \<Rightarrow> admin_inventory \<Rightarrow> bool \<Rightarrow> nat option \<Rightarrow> ('w access_store, unit) eff" where
  "access_reconcile V lock method inventory cleaned given =
     m_bind (raise_or (access_scope lock method)) (\<lambda>scope.
       m_bind (case given of Some n \<Rightarrow> m_return n | None \<Rightarrow> mark_stale lock method) (\<lambda>ticket.
         m_bind (m_gets (\<lambda>s. loaded s \<and> dict_get (revision s) scope = Some ticket)) (\<lambda>current.
           if \<not> current \<or> \<not> cleaned \<or> \<not> ai_complete inventory then m_return ()
           else if list_ex (\<lambda>r. it_method r \<noteq> method) (ai_records inventory)
             then m_raise (ValueErr ''Private inventory method mismatch'')
           else if MAX_RECORDS < length (ai_records inventory)
             then m_raise (ValueErr ''Private inventory capacity exceeded'')
           else m_then (take_lock V)
             (reconcile_locked V lock method scope (ai_records inventory) ticket))))"

subsection \<open>Reading and labelling\<close>

record snap_record =
  sn_reference :: string
  sn_name :: string
  sn_record_type :: string
  sn_validity :: string
  sn_schedule_verified :: bool
  sn_identity_verified :: bool
  sn_present :: "bool option"
  sn_observation :: string
  sn_revocation_verified :: bool
  sn_limited_pin_coverage :: bool
  sn_stale :: bool
  sn_alias_confirmed :: bool

record snap =
  sn_fresh :: bool
  sn_records :: "snap_record list"
  sn_legacy_disabled :: bool

definition scope_fresh :: "string \<Rightarrow> rat \<Rightarrow> 'w access_store \<Rightarrow> bool" where
  "scope_fresh scope now s = (case dict_get (fresh s) scope of
     None \<Rightarrow> False | Some t \<Rightarrow> now - t < FRESH_SECONDS)"

definition snap_of :: "bool \<Rightarrow> string set \<Rightarrow> string set \<Rightarrow> string \<Rightarrow> private_record \<Rightarrow> snap_record" where
  "snap_of is_fresh obs conf method r = (let here = pr_reference r \<in> obs in
     \<lparr>sn_reference = pr_reference r, sn_name = pr_alias r, sn_record_type = pr_record_type r,
      sn_validity = pr_validity r, sn_schedule_verified = False, sn_identity_verified = False,
      sn_present = (if is_fresh then Some here else None),
      sn_observation = (if is_fresh then (if here then ''observed'' else ''not_observed'')
        else ''previously_observed_unverified''),
      sn_revocation_verified = False, sn_limited_pin_coverage = (method = ''keypad_pin''),
      sn_stale = (\<not> is_fresh \<or> \<not> here), sn_alias_confirmed = (pr_reference r \<in> conf)\<rparr>)"

text \<open>\<open>snapshot\<close> reads the clock only when the scope has a time.\<close>

definition access_snapshot :: "'w store_env \<Rightarrow> string \<Rightarrow> string \<Rightarrow> ('w access_store, snap) eff" where
  "access_snapshot V lock method =
     m_bind (raise_or (access_scope lock method)) (\<lambda>scope.
       m_bind (m_gets (\<lambda>s. dict_get (fresh s) scope)) (\<lambda>t.
         m_bind (if t = None then m_return 0 else store_step (v_monotonic V)) (\<lambda>now.
           m_gets (\<lambda>s. let f = scope_fresh scope now s in
             \<lparr>sn_fresh = f,
              sn_records = map (snap_of f (dict_get_or (observed s) scope {}) (confirmed s) method)
                (case dict_get (scopes s) scope of None \<Rightarrow> [] | Some st \<Rightarrow> ss_records st),
              sn_legacy_disabled = legacy_disabled lock s\<rparr>))))"

definition access_name ::
  "'w store_env \<Rightarrow> string \<Rightarrow> string \<Rightarrow> string \<Rightarrow> string \<Rightarrow> ('w access_store, unit) eff" where
  "access_name V lock method ref name =
     (if bad_name name then m_raise (ValueErr ''Invalid display name'')
      else m_bind (raise_or (access_scope lock method)) (\<lambda>scope.
        m_then (take_lock V) (m_bind (access_snapshot V lock method) (\<lambda>sn.
          if \<not> sn_fresh sn then m_raise (ValueErr ''Read a fresh inventory before assigning a name'')
          else m_bind (m_gets (\<lambda>s. (dict_get (scopes s) scope, dict_get_or (observed s) scope {}))) (\<lambda>(st, obs).
            case st of
              None \<Rightarrow> m_raise (KeyErr scope)
            | Some st \<Rightarrow> (case name_first obs ref name (ss_records st) of
                None \<Rightarrow> m_raise (ValueErr ''Reference is stale or belongs to a different scope'')
              | Some rs \<Rightarrow>
                  m_then (m_modify (\<lambda>s. s\<lparr>scopes := dict_set scope (st\<lparr>ss_records := rs\<rparr>) (scopes s)\<rparr>))
                   (m_then (save_store V)
                     (m_modify (\<lambda>s. s\<lparr>confirmed := insert ref (confirmed s)\<rparr>)))))))))"

definition access_reset :: "'w store_env \<Rightarrow> string \<Rightarrow> string \<Rightarrow> ('w access_store, unit) eff" where
  "access_reset V lock method = m_bind (raise_or (access_scope lock method)) (\<lambda>scope.
     m_then (take_lock V) (m_then (m_modify (forget_scope scope)) (save_store V)))"

definition access_remove :: "'w store_env \<Rightarrow> ('w access_store, unit) eff" where
  "access_remove V = m_then (take_lock V) (m_then (m_modify forget_all)
     (m_then (storage_call (v_remove V) (\<lambda>s. s\<lparr>saved := None\<rparr>))
       (m_then (m_modify (\<lambda>s. s\<lparr>refs_key := None\<rparr>)) (storage_call (v_refs_remove V) id))))"

end
