(* ===== verification/ServiceRuns.thy ===== *)
theory ServiceRuns
  imports ServiceProps House AccessRecords
begin

section \<open>Service actions from the call to the lock (services.py)\<close>

text \<open>
  A whole service call: the schema of the action on the raw data, the checks of \<open>Services\<close>, the
  operation on the connection that was found, and the response. The state is the \<open>house\<close> of all
  connections. Home Assistant's coercions (\<open>cv.string\<close>, \<open>vol.Coerce(int)\<close>) and the SDK calls are
  parameters.
\<close>

subsection \<open>Schemas\<close>

record schema_env =
  sm_string :: "json \<Rightarrow> string option"
  sm_int :: "json \<Rightarrow> int option"

datatype service_request =
    RqAddPasscode service_call
  | RqDeletePasscode service_call
  | RqClearPasscodes service_call
  | RqGetAutoLock service_call
  | RqSetAutoLock service_call int
  | RqAccessInventory service_call string

datatype service_kind =
    AddPasscodeAction | DeletePasscodeAction | ClearPasscodesAction
  | GetAutoLockAction | SetAutoLockAction | AccessInventoryAction

definition schema_keys :: "string list \<Rightarrow> string list \<Rightarrow> (string \<times> json) list \<Rightarrow> bool" where
  "schema_keys required optional d \<longleftrightarrow> (\<forall>k\<in>set required. dict_get d k \<noteq> None)
     \<and> (\<forall>(k, v)\<in>set d. k \<in> set required \<union> set optional)"

text \<open>The value of an optional key: absent, or present and valid.\<close>

definition optional_field :: "(json \<Rightarrow> 'a option) \<Rightarrow> (string \<times> json) list \<Rightarrow> string \<Rightarrow> 'a option option" where
  "optional_field f d k = (case dict_get d k of None \<Rightarrow> Some None | Some v \<Rightarrow> map_option Some (f v))"

definition device_call :: "string \<Rightarrow> service_call" where
  "device_call device = \<lparr>sc_device = device, sc_code = [], sc_type = [], sc_start = None, sc_end = None\<rparr>"

definition add_passcode_schema :: "schema_env \<Rightarrow> (string \<times> json) list \<Rightarrow> service_call option" where
  "add_passcode_schema S d =
     (if schema_keys [''device_id'', ''code'', ''type''] [''start'', ''end''] d
      then (case (field (sm_string S) d ''device_id'', field (sm_string S) d ''code'',
          field (choice_field (map fst PASSCODE_TYPES)) d ''type'',
          optional_field (sm_string S) d ''start'', optional_field (sm_string S) d ''end'') of
        (Some dev, Some pin, Some ty, Some st, Some en) \<Rightarrow>
          Some \<lparr>sc_device = dev, sc_code = pin, sc_type = ty, sc_start = st, sc_end = en\<rparr>
      | _ \<Rightarrow> None)
      else None)"

definition delete_passcode_schema :: "schema_env \<Rightarrow> (string \<times> json) list \<Rightarrow> service_call option" where
  "delete_passcode_schema S d =
     (if schema_keys [''device_id'', ''code'', ''type''] [] d
      then (case (field (sm_string S) d ''device_id'', field (sm_string S) d ''code'',
          field (choice_field (map fst PASSCODE_TYPES)) d ''type'') of
        (Some dev, Some pin, Some ty) \<Rightarrow> Some ((device_call dev)\<lparr>sc_code := pin, sc_type := ty\<rparr>)
      | _ \<Rightarrow> None)
      else None)"

definition device_schema :: "schema_env \<Rightarrow> (string \<times> json) list \<Rightarrow> service_call option" where
  "device_schema S d = (if schema_keys [''device_id''] [] d
     then map_option device_call (field (sm_string S) d ''device_id'') else None)"

definition seconds_field :: "schema_env \<Rightarrow> json \<Rightarrow> int option" where
  "seconds_field S j = (case sm_int S j of
     None \<Rightarrow> None | Some n \<Rightarrow> if 0 \<le> n \<and> n \<le> 65535 then Some n else None)"

definition set_auto_lock_schema :: "schema_env \<Rightarrow> (string \<times> json) list \<Rightarrow> (service_call \<times> int) option" where
  "set_auto_lock_schema S d =
     (if schema_keys [''device_id'', ''seconds''] [] d
      then (case (field (sm_string S) d ''device_id'', field (seconds_field S) d ''seconds'') of
        (Some dev, Some n) \<Rightarrow> Some (device_call dev, n)
      | _ \<Rightarrow> None)
      else None)"

definition access_inventory_schema :: "schema_env \<Rightarrow> (string \<times> json) list \<Rightarrow> (service_call \<times> string) option" where
  "access_inventory_schema S d =
     (if schema_keys [''device_id'', ''method''] [] d
      then (case (field (sm_string S) d ''device_id'', field (choice_field INVENTORY_METHODS) d ''method'') of
        (Some dev, Some m) \<Rightarrow> Some (device_call dev, m)
      | _ \<Rightarrow> None)
      else None)"

fun parse_call :: "schema_env \<Rightarrow> service_kind \<Rightarrow> (string \<times> json) list \<Rightarrow> service_request option" where
  "parse_call S AddPasscodeAction d = map_option RqAddPasscode (add_passcode_schema S d)"
| "parse_call S DeletePasscodeAction d = map_option RqDeletePasscode (delete_passcode_schema S d)"
| "parse_call S ClearPasscodesAction d = map_option RqClearPasscodes (device_schema S d)"
| "parse_call S GetAutoLockAction d = map_option RqGetAutoLock (device_schema S d)"
| "parse_call S SetAutoLockAction d = map_option (\<lambda>(c, n). RqSetAutoLock c n) (set_auto_lock_schema S d)"
| "parse_call S AccessInventoryAction d = map_option (\<lambda>(c, m). RqAccessInventory c m) (access_inventory_schema S d)"

subsection \<open>Registration\<close>

text \<open>\<open>hass.services\<close>, as far as the integration uses it: what is registered under a name.\<close>

type_synonym service_registry = "(string \<times> string, service_kind) dict"

definition setup_services :: "service_registry \<Rightarrow> service_registry" where
  "setup_services reg =
     (if dict_get reg (DOMAIN, ''add_passcode'') \<noteq> None then reg
      else fold (\<lambda>(name, kind). dict_set (DOMAIN, name) kind)
        [(''add_passcode'', AddPasscodeAction), (''delete_passcode'', DeletePasscodeAction),
         (''clear_passcodes'', ClearPasscodesAction), (''get_auto_lock'', GetAutoLockAction),
         (''set_auto_lock'', SetAutoLockAction), (''get_access_inventory'', AccessInventoryAction)] reg)"

lemma setup_services_once: "setup_services (setup_services reg) = setup_services reg"
proof (cases "dict_get reg (DOMAIN, ''add_passcode'')")
  case None
  then have "dict_get (setup_services reg) (DOMAIN, ''add_passcode'') = Some AddPasscodeAction"
    by (simp add: setup_services_def)
  then show ?thesis by (subst setup_services_def) simp
qed (simp add: setup_services_def)

subsection \<open>The handlers\<close>

text \<open>
  \<open>Refused\<close>: the action ended before it reached a connection. \<open>Raised\<close>: what the operation of the
  connection raised.
\<close>

datatype action_error = Refused service_error | Raised exn | NotRegistered

record 'w service_env =
  sx_dates :: datetime_env
  sx_env :: "nat \<Rightarrow> 'w env"
  sx_pins :: "'w passcode_ops"
  sx_get_delay :: "('w, int) sdk_op"
  sx_set_delay :: "int \<Rightarrow> ('w, unit) sdk_op"
  sx_error_diagnostic :: "exn \<Rightarrow> json option"

type_synonym 'w action_run = "'w house \<Rightarrow> (action_error + (string, json) dict option) \<times> 'w house"

definition when_valid :: "service_error + 'q \<Rightarrow> ('q \<Rightarrow> ('w house, (string, json) dict option) eff) \<Rightarrow> 'w action_run" where
  "when_valid checked body H = (case checked of
     Inl e \<Rightarrow> (Inl (Refused e), H)
   | Inr q \<Rightarrow> (case body q H of (Inl x, H') \<Rightarrow> (Inl (Raised x), H') | (Inr a, H') \<Rightarrow> (Inr a, H')))"

definition no_response :: "('s, unit) eff \<Rightarrow> ('s, (string, json) dict option) eff" where
  "no_response m = m_then m (m_return None)"

text \<open>The request of a PIN action, on its connection.\<close>

definition pin_run :: "'w service_env \<Rightarrow> passcode_request \<Rightarrow> ('w house, (string, json) dict option) eff" where
  "pin_run X req = on_connection (target req)
     (no_response (perform_request (sx_env X (target req)) (sx_pins X) req))"

text \<open>The connection's diagnostics as a JSON dict.\<close>

fun diag_json :: "diag_value \<Rightarrow> json" where
  "diag_json DNone = JNull"
| "diag_json (DStr s) = JStr s"
| "diag_json (DInt n) = JInt n"
| "diag_json (DBool b) = JBool b"

definition inventory_diagnostics :: "'w conn \<Rightarrow> (string, json) dict" where
  "inventory_diagnostics s = map (\<lambda>(k, v). (k, diag_json v)) (inventory_diag s)"

text \<open>
  \<open>_async_get_access_inventory\<close> once the connection is found; without an administrator key the
  connection is not used.
\<close>

definition inventory_run :: "'w env \<Rightarrow> (exn \<Rightarrow> json option) \<Rightarrow> string \<Rightarrow> ('w conn, (string, json) dict option) eff" where
  "inventory_run E err_diagnostic m s =
     (if \<not> inventory_admin_available s then (Inr (Some (unverified m ''admin_key_required'' ''admin'')), s)
      else case get_access_inventory E m s of (outcome, s') \<Rightarrow>
        (case access_inventory_response m True outcome
            (case outcome of Inl e \<Rightarrow> err_diagnostic e | Inr _ \<Rightarrow> None) (inventory_diagnostics s') of
          Inl e \<Rightarrow> (Inl e, s') | Inr resp \<Rightarrow> (Inr (Some resp), s')))"

fun perform_service :: "'w service_env \<Rightarrow> hass_view \<Rightarrow> service_request \<Rightarrow> 'w action_run" where
  "perform_service X h (RqAddPasscode c) = when_valid (service_add_passcode h (sx_dates X) c) (pin_run X)"
| "perform_service X h (RqDeletePasscode c) = when_valid (service_delete_passcode h c) (pin_run X)"
| "perform_service X h (RqClearPasscodes c) = when_valid (service_clear_passcodes h c) (pin_run X)"
| "perform_service X h (RqGetAutoLock c) = when_valid (service_get_auto_lock h c)
     (\<lambda>conn. on_connection conn (m_bind (get_auto_lock_time (sx_env X conn) (sx_get_delay X))
        (\<lambda>n. m_return (Some [(''seconds'', JInt n)]))))"
| "perform_service X h (RqSetAutoLock c n) = when_valid (service_set_auto_lock h c n)
     (\<lambda>(conn, seconds). on_connection conn
        (no_response (set_auto_lock_time (sx_env X conn) (sx_set_delay X) seconds)))"
| "perform_service X h (RqAccessInventory c m) = when_valid (service_access_inventory h c m)
     (\<lambda>conn. on_connection conn (inventory_run (sx_env X conn) (sx_error_diagnostic X) m))"

definition call_service ::
  "'w service_env \<Rightarrow> schema_env \<Rightarrow> service_registry \<Rightarrow> hass_view \<Rightarrow> string \<times> string \<Rightarrow> (string \<times> json) list \<Rightarrow> 'w action_run" where
  "call_service X S reg h name data H = (case dict_get reg name of
     None \<Rightarrow> (Inl NotRegistered, H)
   | Some kind \<Rightarrow> (case parse_call S kind data of
       None \<Rightarrow> (Inl (Refused SchemaInvalid), H)
     | Some rq \<Rightarrow> perform_service X h rq H))"

end
