(* ===== verification/ServiceRunProps.thy ===== *)
theory ServiceRunProps
  imports ServiceRuns
begin

section \<open>Properties of whole service calls\<close>

text \<open>
  What reaches a lock when a service is called, and what its caller may conclude from the answer:
  the composition of the checks of \<open>Services\<close> with the operations of the connection.
\<close>

subsection \<open>Counting calls\<close>

text \<open>\<open>counted p n s\<^sub>0 s\<close>: at rest, after exactly \<open>n\<close> calls with \<open>p\<close> since \<open>s\<^sub>0\<close>.\<close>

definition counted :: "(sdk_call \<Rightarrow> bool) \<Rightarrow> nat \<Rightarrow> 'w conn \<Rightarrow> 'w conn \<Rightarrow> bool" where
  "counted p n s0 s \<longleftrightarrow> at_rest s \<and> (\<exists>cs. sdk_log s = sdk_log s0 @ cs \<and> length (filter p cs) = n)"

fun is_manage :: "sdk_call \<Rightarrow> bool" where
  "is_manage (CManage g name) = True"
| "is_manage _ = False"

lemma manage_not_acquisition: "acquisition_call c \<Longrightarrow> \<not> is_manage c"
  by (cases c) simp_all

lemma counted_refl: "at_rest s \<Longrightarrow> counted p 0 s s"
  by (simp add: counted_def)

lemma stable_counted [stable_intros]: "stable (counted p n s0)"
  unfolding counted_def [abs_def] by (intro stable_intros) (simp add: stable_def)

lemma counted_acquired:
  assumes "counted is_manage n s0 s" and "acquired j s s'" and "at_rest s'"
  shows "counted is_manage n s0 s'"
proof -
  from assms(2) obtain cs where cs: "sdk_log s' = sdk_log s @ cs" "list_all acquisition_call cs"
    by (auto simp: acquired_def)
  then have "filter is_manage cs = []" using manage_not_acquisition by (auto simp: filter_empty_conv list_all_iff)
  with assms(1,3) cs(1) show ?thesis by (auto simp: counted_def)
qed

lemma ensure_counted:
  "triple (counted is_manage n s0) (ensure_connected E active i) (\<lambda>_. counted is_manage n s0) (\<lambda>_. counted is_manage n s0)"
proof (rule tripleI)
  fix s s' :: "'a conn" and r
  assume c: "counted is_manage n s0 s" and run: "ensure_connected E active i s = (r, s')"
  from c have "at_rest s" by (simp add: counted_def)
  from ensure_result [OF this run] obtain j where "acquired j s s'" "at_rest s'"
    by (auto simp: acquisition_post_def split: sum.splits)
  with counted_acquired [OF c] show "case r of Inl e \<Rightarrow> counted is_manage n s0 s' | Inr x \<Rightarrow> counted is_manage n s0 s'"
    by (auto split: sum.split)
qed

lemma disconnect_counted:
  "triple (counted is_manage n s0) (disconnect_locked E) (\<lambda>_. counted is_manage n s0) (\<lambda>_. counted is_manage n s0)"
proof (rule tripleI)
  fix s s' :: "'a conn" and r
  assume c: "counted is_manage n s0 s" and run: "disconnect_locked E s = (r, s')"
  from c have "at_rest s" by (simp add: counted_def)
  from disc.keeps_rest [OF this run] disc.frame [OF this run]
  have "at_rest s'" "acquired 0 s s'" by (auto intro: acquired_torn [OF acquired_refl])
  with counted_acquired [OF c] show "case r of Inl e \<Rightarrow> counted is_manage n s0 s' | Inr x \<Rightarrow> counted is_manage n s0 s'"
    by (auto split: sum.split)
qed

text \<open>A management command is issued once when it succeeds, and at most once when it does not.\<close>

lemma management_counted:
  "triple (counted is_manage 0 s0) (run_management_command E name op a) (\<lambda>_. counted is_manage 1 s0)
     (\<lambda>_ s. \<exists>n\<le>1. counted is_manage n s0 s)" (is "triple _ _ ?Q ?E")
proof -
  have tear: "triple (counted is_manage 1 s0) (teardown_raise E e) ?Q ?E" for e
    unfolding teardown_raise_def
    by (rule triple_bind [where R = "\<lambda>_. counted is_manage 1 s0"], rule triple_post [OF disconnect_counted])
      (auto intro!: triple_raise)
  have outcome: "triple (counted is_manage 1 s0) (case r of
         Inr v \<Rightarrow> m_return v
       | Inl e \<Rightarrow> m_bind (m_gets lock_mac) (\<lambda>mac.
           if is_ttlock e then teardown_raise E e
           else if is_timeout e
             then teardown_raise E (TTLockErr (''Lock '' @ mac @ '' timed out during '' @ name))
           else if is_exception e
             then teardown_raise E (TTLockErr (''Lock '' @ mac @ '' failed to '' @ name))
           else m_raise e)) ?Q ?E" for r
  proof (cases r)
    case (Inl e)
    have "triple (counted is_manage 1 s0) (m_bind (m_gets lock_mac) (\<lambda>mac.
           if is_ttlock e then teardown_raise E e
           else if is_timeout e
             then teardown_raise E (TTLockErr (''Lock '' @ mac @ '' timed out during '' @ name))
           else if is_exception e
             then teardown_raise E (TTLockErr (''Lock '' @ mac @ '' failed to '' @ name))
           else m_raise e)) ?Q ?E"
      by (intro triple_bind_gets triple_if triple_pre [OF tear] triple_raise) auto
    with Inl show ?thesis by simp
  qed (auto intro: triple_return)
  have missing: "triple (counted is_manage 0 s0) (m_bind (m_gets f) (\<lambda>msg. m_raise (TTLockErr msg))) ?Q ?E" for f
    by (intro triple_bind_gets triple_raise) auto
  have called: "counted is_manage 0 s0 s \<Longrightarrow> counted is_manage 1 s0 (s\<lparr>sdk_log := sdk_log s @ [CManage g name]\<rparr>)" for g s
    by (auto simp: counted_def)
  have acquired: "triple (counted is_manage 0 s0) (ensure_connected E a i) (\<lambda>_. counted is_manage 0 s0) ?E" for i
    by (rule triple_post [OF ensure_counted]) auto
  show ?thesis
    unfolding run_management_command_def call_def
    by (intro triple_bind [OF acquired] triple_option missing
        triple_then_modify [OF triple_bind [OF triple_await [OF stable_counted] outcome] called])
qed

subsection \<open>PIN actions\<close>

lemma perform_request_management:
  "\<exists>name op a. perform_request E P req = run_management_command E name op a"
  by (cases req) (auto simp: add_passcode_def delete_passcode_def clear_passcodes_def)

text \<open>
  What a PIN action asks of its connection, written down from the data of the call: the PIN of
  the call with 4 to 9 digit characters; its type; for a temporary PIN the window of the call,
  whose ends are both given, of one kind, and in order, and for a permanent one the fixed dates.
\<close>

definition good_pin :: "string \<Rightarrow> bool" where
  "good_pin pin \<longleftrightarrow> 4 \<le> length pin \<and> length pin \<le> 9 \<and> list_all digit_char pin"

definition wall_clock :: "datetime_env \<Rightarrow> string \<Rightarrow> (bool \<times> datetime) option" where
  "wall_clock D raw = (case de_parse D raw of
     None \<Rightarrow> None | Some (Naive t) \<Rightarrow> Some (False, t) | Some (Aware t zone) \<Rightarrow> Some (True, de_as_local D t zone))"

definition window_of :: "datetime_env \<Rightarrow> service_call \<Rightarrow> string \<Rightarrow> string \<Rightarrow> bool" where
  "window_of D c st en \<longleftrightarrow> (\<exists>from_raw to_raw zoned from_t to_t. sc_start c = Some from_raw \<and> sc_end c = Some to_raw
     \<and> wall_clock D from_raw = Some (zoned, from_t) \<and> wall_clock D to_raw = Some (zoned, to_t)
     \<and> from_t < to_t \<and> st = lock_date from_t \<and> en = lock_date to_t)"

definition typed_dates :: "datetime_env \<Rightarrow> service_call \<Rightarrow> passcode_type \<Rightarrow> string \<Rightarrow> string \<Rightarrow> bool" where
  "typed_dates D c ty st en \<longleftrightarrow>
     sc_type c = ''permanent'' \<and> ty = PERMANENT \<and> st = ''0001311400'' \<and> en = ''9912311400''
     \<or> sc_type c = ''period'' \<and> ty = PERIOD \<and> window_of D c st en"

fun asks_for :: "datetime_env \<Rightarrow> service_request \<Rightarrow> passcode_request \<Rightarrow> bool" where
  "asks_for D (RqAddPasscode c) (AddPasscode conn pin ty st en) =
     (pin = sc_code c \<and> good_pin pin \<and> typed_dates D c ty st en)"
| "asks_for D (RqDeletePasscode c) (DeletePasscode conn pin ty) =
     (pin = sc_code c \<and> good_pin pin \<and> (sc_type c, ty) \<in> {(''permanent'', PERMANENT), (''period'', PERIOD)})"
| "asks_for D (RqClearPasscodes c) (ClearPasscodes conn) = True"
| "asks_for D rq req = False"

text \<open>The SDK call of a request, with its name and whether it may scan actively.\<close>

fun request_call :: "'w passcode_ops \<Rightarrow> passcode_request \<Rightarrow> string \<times> ('w, unit) sdk_op \<times> bool" where
  "request_call P (AddPasscode conn pin ty st en) = (''add passcode'', po_add P pin (po_type P ty) st en, True)"
| "request_call P (DeletePasscode conn pin ty) = (''delete passcode'', po_delete P pin (po_type P ty), True)"
| "request_call P (ClearPasscodes conn) = (''clear passcodes'', po_clear P, False)"

lemma perform_request_call: "request_call P req = (name, op, active) \<Longrightarrow>
    perform_request E P req = run_management_command E name op active"
  by (cases req) (auto simp: add_passcode_def delete_passcode_def clear_passcodes_def)

fun pin_request :: "service_request \<Rightarrow> service_call option" where
  "pin_request (RqAddPasscode c) = Some c"
| "pin_request (RqDeletePasscode c) = Some c"
| "pin_request (RqClearPasscodes c) = Some c"
| "pin_request _ = None"

text \<open>
  What one request does: its SDK call runs as a management command of its connection, which is
  the only one that changes, and the caller gets its outcome; the call is made at most once, and
  exactly once when the action succeeds.
\<close>

definition pin_effect ::
  "'w service_env \<Rightarrow> passcode_request \<Rightarrow> 'w house \<Rightarrow> action_error + (string, json) dict option \<Rightarrow> 'w house \<Rightarrow> bool" where
  "pin_effect X req H r H' \<longleftrightarrow>
     (case request_call (sx_pins X) req of (name, op, active) \<Rightarrow>
        \<exists>q. run_management_command (sx_env X (target req)) name op active (H (target req)) = (q, H' (target req))
          \<and> r = (case q of Inl x \<Rightarrow> Inl (Raised x) | Inr u \<Rightarrow> Inr None))
     \<and> (\<forall>i. i \<noteq> target req \<longrightarrow> H' i = H i)
     \<and> (\<exists>cs. sdk_log (H' (target req)) = sdk_log (H (target req)) @ cs \<and> controls cs = 0
         \<and> length (filter is_manage cs) \<le> 1 \<and> (\<forall>a. r = Inr a \<longrightarrow> length (filter is_manage cs) = 1))
     \<and> (\<forall>e. r = Inl e \<longrightarrow> (\<exists>x. e = Raised x \<and> (is_ttlock x \<or> x = Cancelled)))"

lemma management_effect:
  assumes "at_rest s" and "run_management_command E name op a s = (r, s')"
  shows "\<exists>cs. sdk_log s' = sdk_log s @ cs \<and> controls cs = 0 \<and> length (filter is_manage cs) \<le> 1
    \<and> (\<forall>v. r = Inr v \<longrightarrow> length (filter is_manage cs) = 1)"
    and "r = Inl e \<Longrightarrow> is_ttlock e \<or> e = Cancelled"
proof -
  have m: "case r of Inl e \<Rightarrow> (is_ttlock e \<or> e = Cancelled) \<and> rest 0 s s' | Inr v \<Rightarrow> rest 0 s s'"
    by (rule triple_result [OF management_rest rest_refl [OF assms(1)] assms(2)])
  then have "rest 0 s s'" by (cases r) simp_all
  then obtain cs where cs: "sdk_log s' = sdk_log s @ cs" "controls cs = 0" by (auto simp: rest_def issued_def)
  have c: "case r of Inl e \<Rightarrow> \<exists>n\<le>1. counted is_manage n s s' | Inr v \<Rightarrow> counted is_manage 1 s s'"
    by (rule triple_result [OF management_counted counted_refl [OF assms(1)] assms(2)])
  from c cs show "\<exists>cs. sdk_log s' = sdk_log s @ cs \<and> controls cs = 0 \<and> length (filter is_manage cs) \<le> 1
    \<and> (\<forall>v. r = Inr v \<longrightarrow> length (filter is_manage cs) = 1)"
    by (cases r) (auto simp: counted_def)
  from m show "r = Inl e \<Longrightarrow> is_ttlock e \<or> e = Cancelled" by simp
qed

lemma pin_run_effect:
  assumes "house_at_rest H" and "when_valid (Inr req) (pin_run X) H = (r, H')"
  shows "pin_effect X req H r H'"
proof -
  let ?c = "target req"
  obtain name op a where call: "request_call (sx_pins X) req = (name, op, a)" by (metis prod.exhaust)
  note m = perform_request_call [OF call, of "sx_env X ?c"]
  obtain q s' where run: "run_management_command (sx_env X ?c) name op a (H ?c) = (q, s')" by force
  have rest: "at_rest (H ?c)" using assms(1) by (simp add: house_at_rest_def)
  from assms(2) run have H': "H' = H(?c := s')" and r: "r = (case q of Inl x \<Rightarrow> Inl (Raised x) | Inr u \<Rightarrow> Inr None)"
    by (auto simp: when_valid_def pin_run_def on_connection_def no_response_def m eff_defs split: sum.splits prod.splits)
  from management_effect(1) [OF rest run] management_effect(2) [OF rest run] H' r run show ?thesis
    by (cases q) (auto simp: pin_effect_def call)
qed

text \<open>The checks let through what the call asks for, on the connection that was found, and nothing else.\<close>

lemma lock_datetime_clock:
  "parse_lock_datetime D raw = Inr v \<longleftrightarrow> wall_clock D raw = Some v"
  by (auto simp: parse_lock_datetime_def wall_clock_def split: option.splits parsed_datetime.splits)

lemma period_window_of: "period_window D c = Inr (st, en) \<longleftrightarrow> window_of D c st en"
  by (auto simp: period_window_def window_of_def lock_datetime_clock [symmetric] not_le
      split: option.splits sum.splits prod.splits if_splits)

lemma validate_good: "validate_code pin = (if good_pin pin then Inr () else Inl (Validation ''invalid_passcode''))"
  by (auto simp: validate_code_def good_pin_def MIN_PASSCODE_LENGTH_def MAX_PASSCODE_LENGTH_def py_isdigit_def)

fun pin_checked :: "'w service_env \<Rightarrow> hass_view \<Rightarrow> service_request \<Rightarrow> service_error + passcode_request" where
  "pin_checked X h (RqAddPasscode c) = service_add_passcode h (sx_dates X) c"
| "pin_checked X h (RqDeletePasscode c) = service_delete_passcode h c"
| "pin_checked X h (RqClearPasscodes c) = service_clear_passcodes h c"
| "pin_checked X h rq = Inl SchemaInvalid"

lemma checked_asks:
  assumes "pin_request rq = Some c"
  shows "pin_checked X h rq = Inr req \<longleftrightarrow>
    asks_for (sx_dates X) rq req \<and> legacy_connection h (sc_device c) = Inr (target req)"
proof (cases rq)
  case (RqAddPasscode c')
  with assms show ?thesis
    by (cases req) (auto simp: service_add_passcode_def passcode_dates_def PASSCODE_TYPES_def typed_dates_def
        validate_good period_window_of [symmetric] split: sum.splits option.splits prod.splits if_splits)
next
  case (RqDeletePasscode c')
  with assms show ?thesis
    by (cases req) (auto simp: service_delete_passcode_def PASSCODE_TYPES_def validate_good
        split: sum.splits option.splits if_splits)
next
  case (RqClearPasscodes c')
  with assms show ?thesis
    by (cases req) (auto simp: service_clear_passcodes_def split: sum.splits)
qed (use assms in simp_all)

text \<open>
  Claim C11. A PIN action is refused without touching any connection, and then the call asks for
  nothing that may be sent on the connection found for its device; or it goes through every
  check and does exactly what the call asks for: adding sends the PIN of the call, which has 4 to
  9 digit characters, with its type and, for a temporary PIN, the window of the call in the
  lock's format, whose start lies before its end; deleting sends that PIN and type; clearing
  sends neither. It runs on one connection only: that of a loaded entry whose lock belongs to the
  device of the call, with the private metadata available and the legacy writes of the lock not
  disabled. There the SDK call is made at most once, exactly once when the action succeeds; no
  bolt command is written; and the caller sees a \<open>TTLockError\<close> or its own cancellation. (Every
  connection is its own object.)
\<close>

theorem pin_action_guarded:
  assumes "own_objects (hv_entries h)" and "house_at_rest H" and "pin_request rq = Some c"
    and "perform_service X h rq H = (r, H')"
  shows "(\<exists>e. r = Inl (Refused e)) \<and> H' = H
      \<and> (\<forall>req. asks_for (sx_dates X) rq req \<longrightarrow> legacy_connection h (sc_device c) \<noteq> Inr (target req))
    \<or> (\<exists>req. asks_for (sx_dates X) rq req \<and> write_allowed h (sc_device c) (target req) \<and> pin_effect X req H r H')"
proof -
  from assms(3,4) have run: "when_valid (pin_checked X h rq) (pin_run X) H = (r, H')"
    by (cases rq) auto
  note asks = checked_asks [OF assms(3), of X h]
  show ?thesis
  proof (cases "pin_checked X h rq")
    case (Inl e)
    with run asks show ?thesis by (auto simp: when_valid_def)
  next
    case (Inr req)
    from asks [of req] Inr have "asks_for (sx_dates X) rq req" "legacy_connection h (sc_device c) = Inr (target req)"
      by blast+
    with legacy_connection_allowed [OF _ assms(1)] pin_run_effect [OF assms(2)] run Inr show ?thesis by metis
  qed
qed

subsection \<open>Inventory responses\<close>

lemma diagnostics_get: "dict_get (inventory_diagnostics s) k = map_option diag_json (dict_get (inventory_diag s) k)"
  by (simp add: inventory_diagnostics_def map_of_map)

lemma honest_metadata: "diag_honest s \<Longrightarrow> owned s \<noteq> None \<Longrightarrow>
   dict_get (inventory_diagnostics s) ''reason'' = Some (JStr ''cleanup_uncertain'')"
  by (simp add: diag_honest_def diagnostics_get)

text \<open>
  Claim C19. A caller that is told \<open>supported\<close> may rely on it: the read of this very call returned,
  for a method other than the keypad PIN and with an administrator key; the enumeration was
  complete, uninterrupted and without unknown layouts; the counts by validity add up to the
  stated number of entries; the session is closed, no client of the lock is owned any more; and
  no other connection was touched.
\<close>

theorem inventory_supported_closed:
  assumes "house_at_rest H" and "perform_service X h (RqAccessInventory c m) H = (Inr (Some resp), H')"
    and "dict_get resp ''read_status'' = Some (JStr ''supported'')"
  shows "\<exists>conn result. connection_for_device h (sc_device c) = Inr conn \<and> m \<noteq> ''keypad_pin''
    \<and> get_access_inventory (sx_env X conn) m (H conn) = (Inr result, H' conn)
    \<and> inventory_admin_available (H conn)
    \<and> iv_complete result \<and> iv_skipped result = 0 \<and> \<not> iv_interrupted result
    \<and> dict_get resp ''count'' = Some (JInt (sum_list (map snd (validity_counts (iv_entries result)))))
    \<and> owned (H' conn) = None \<and> (\<forall>i. i \<noteq> conn \<longrightarrow> H' i = H i)"
proof -
  from assms(2) obtain conn where conn: "connection_for_device h (sc_device c) = Inr conn"
    and run: "inventory_run (sx_env X conn) (sx_error_diagnostic X) m (H conn) = (Inr (Some resp), H' conn)"
    and others: "\<forall>i. i \<noteq> conn \<longrightarrow> H' i = H i"
    by (auto simp: when_valid_def service_access_inventory_def on_connection_def split: sum.splits prod.splits if_splits)
  have rest: "at_rest (H conn)" using assms(1) by (simp add: house_at_rest_def)
  have admin: "inventory_admin_available (H conn)"
    using run assms(3) by (auto simp: inventory_run_def unverified_def split: if_splits)
  obtain outcome s' where read: "get_access_inventory (sx_env X conn) m (H conn) = (outcome, s')" by force
  with run admin obtain d where s': "s' = H' conn"
    and resp: "access_inventory_response m True outcome d (inventory_diagnostics s') = Inr resp"
    by (auto simp: inventory_run_def split: sum.splits)
  show ?thesis
  proof (cases outcome)
    case (Inl e)
    with resp assms(3) show ?thesis by (auto dest: failed_status)
  next
    case (Inr result)
    from read Inr have "start_inventory (sx_env X conn) (public_read (sx_env X conn)) m (H conn) = (Inr result, s')"
      by (simp add: get_access_inventory_def)
    from read_result_honest [OF rest this] have "diag_honest s'" by simp
    with inventory_status_honest [OF resp [unfolded Inr] assms(3)] honest_metadata
    have "owned s' = None" by blast
    with conn read Inr s' admin others inventory_status_honest [OF resp [unfolded Inr] assms(3)] show ?thesis by blast
  qed
qed

subsection \<open>Everything the integration does\<close>

text \<open>
  A history of the installation: operations of the integration itself and service calls with any
  data, each over what Home Assistant's registries say at that moment.
\<close>

datatype home_request =
    Operation house_op
  | ServiceCall hass_view "string \<times> string" "(string \<times> json) list"

fun request_step :: "'w service_env \<Rightarrow> schema_env \<Rightarrow> service_registry \<Rightarrow> home_request \<Rightarrow> 'w house \<Rightarrow> 'w house" where
  "request_step X S reg (Operation q) H = house_step (sx_env X) q H"
| "request_step X S reg (ServiceCall h name data) H = snd (call_service X S reg h name data H)"

fun request_commands :: "home_request \<Rightarrow> nat \<Rightarrow> nat" where
  "request_commands (Operation q) i = house_commands q i"
| "request_commands (ServiceCall h name data) i = 0"

lemma no_response_quiet:
  assumes "\<And>k s0. triple (rest k s0) m (\<lambda>_. rest k s0) (\<lambda>_. rest k s0)"
  shows "triple (rest k s0) (no_response m) (\<lambda>_. rest (k + 0) s0) (\<lambda>_. rest (k + 0) s0)"
  unfolding no_response_def add_0_right by (rule triple_then [OF assms]) (rule triple_return)

lemma manage_quiet: "triple (rest k s0) (run_management_command E name op a) (\<lambda>_. rest k s0) (\<lambda>_. rest k s0)"
  by (rule triple_post [OF management_rest]) auto

lemma delay_quiet:
  "triple (rest k s0) (m_bind (get_auto_lock_time E op) (\<lambda>n. m_return (f n))) (\<lambda>_. rest (k + 0) s0) (\<lambda>_. rest (k + 0) s0)"
  unfolding get_auto_lock_time_def add_0_right by (rule triple_bind [OF manage_quiet]) (rule triple_return)

lemma inventory_run_quiet:
  "triple (rest k s0) (inventory_run E d m) (\<lambda>_. rest (k + 0) s0) (\<lambda>_. rest (k + 0) s0)"
proof (rule tripleI)
  fix s s' :: "'a conn" and r
  assume s: "rest k s0 s" and run: "inventory_run E d m s = (r, s')"
  have "rest k s0 s'"
  proof (cases "inventory_admin_available s")
    case True
    obtain outcome t where read: "start_inventory E (public_read E) m s = (outcome, t)" by force
    from triple_result [OF start_rest s this] have "rest k s0 t" by (cases outcome) simp_all
    with True run read show ?thesis
      by (auto simp: inventory_run_def get_access_inventory_def split: sum.splits)
  qed (use s run in \<open>auto simp: inventory_run_def\<close>)
  then show "case r of Inl e \<Rightarrow> rest (k + 0) s0 s' | Inr a \<Rightarrow> rest (k + 0) s0 s'" by (cases r) simp_all
qed

lemma when_valid_within:
  assumes "house_within b H0 H"
    and "\<And>q. checked = Inr q \<Longrightarrow> \<exists>c m. body q = on_connection c m
      \<and> (\<forall>k s0. triple (rest k s0) m (\<lambda>_. rest (k + 0) s0) (\<lambda>_. rest (k + 0) s0))"
  shows "house_within b H0 (snd (when_valid checked body H))"
proof (cases checked)
  case (Inr q)
  from assms(2) [OF this] obtain c m where m: "body q = on_connection c m"
    "\<And>k s0. triple (rest k s0) m (\<lambda>_. rest (k + 0) s0) (\<lambda>_. rest (k + 0) s0)" by blast
  have "snd (when_valid checked body H) = snd (on_connection c m H)"
    by (simp add: when_valid_def Inr m(1) split: prod.split sum.split)
  with quiet_within [OF m(2) assms(1)] show ?thesis by simp
qed (use assms(1) in \<open>simp add: when_valid_def\<close>)

lemma pin_run_quiet:
  "\<exists>c m. pin_run X req = on_connection c m
     \<and> (\<forall>k s0. triple (rest k s0) m (\<lambda>_. rest (k + 0) s0) (\<lambda>_. rest (k + 0) s0))"
proof -
  obtain name op a where "perform_request (sx_env X (target req)) (sx_pins X) req
      = run_management_command (sx_env X (target req)) name op a"
    using perform_request_management by blast
  then show ?thesis unfolding pin_run_def using no_response_quiet [OF manage_quiet] by fastforce
qed

lemma service_within:
  assumes "house_within b H0 H"
  shows "house_within b H0 (snd (perform_service X h rq H))"
proof (cases rq)
  case (RqSetAutoLock c n)
  have "\<exists>i m. (case q of (conn, seconds) \<Rightarrow> on_connection conn
        (no_response (set_auto_lock_time (sx_env X conn) (sx_set_delay X) seconds))) = on_connection i m
      \<and> (\<forall>k s0. triple (rest k s0) m (\<lambda>_. rest (k + 0) s0) (\<lambda>_. rest (k + 0) s0))" for q
    unfolding set_auto_lock_time_def using no_response_quiet [OF manage_quiet] by (cases q) fastforce
  from when_valid_within [OF assms this, of "service_set_auto_lock h c n"] RqSetAutoLock show ?thesis by simp
next
  case (RqGetAutoLock c)
  with when_valid_within [OF assms, of "service_get_auto_lock h c"] delay_quiet show ?thesis by fastforce
next
  case (RqAccessInventory c m)
  with when_valid_within [OF assms, of "service_access_inventory h c m"] inventory_run_quiet show ?thesis by fastforce
qed (use when_valid_within [OF assms pin_run_quiet] in simp_all)

lemma call_within: "house_within b H0 H \<Longrightarrow> house_within b H0 (snd (call_service X S reg h name data H))"
  by (simp add: call_service_def service_within split: option.split)

interpretation requests: house_steps "request_step X S reg" request_commands
proof
  fix b :: "nat \<Rightarrow> nat" and H0 H :: "'a house" and q
  assume "house_within b H0 H"
  then show "house_within (\<lambda>c. b c + request_commands q c) H0 (request_step X S reg q H)"
    using ops.step_within call_within by (cases q) simp_all
qed

text \<open>
  Claim C1. The bolt moves only on request: in every history of polls, log fetches, inventory
  reads, reconnect rounds, starts, stops, callbacks, service calls with any data, and lock or
  unlock requests, a lock receives at most as many bolt commands as there were lock or unlock
  requests for that very lock; and every connection is at rest again at the end.
\<close>

theorem bolt_moves_on_request:
  assumes "house_at_rest H"
  shows "\<exists>cs. sdk_log (fold (request_step X S reg) qs H i) = sdk_log (H i) @ cs
    \<and> controls cs \<le> length (filter (\<lambda>q. \<exists>a. q = Operation (HCommand i a)) qs)
    \<and> at_rest (fold (request_step X S reg) qs H i)"
proof -
  have one: "request_commands q i = (if \<exists>a. q = Operation (HCommand i a) then 1 else 0)" for q
  proof (cases q)
    case (Operation x)
    then show ?thesis by (cases x) auto
  qed auto
  have "(\<Sum>q\<leftarrow>qs. request_commands q i) = length (filter (\<lambda>q. \<exists>a. q = Operation (HCommand i a)) qs)"
    by (induction qs) (simp_all add: one)
  moreover from requests.run_within [OF assms, of qs X S reg]
  have "rest (\<Sum>q\<leftarrow>qs. request_commands q i) (H i) (fold (request_step X S reg) qs H i)"
    by (simp add: house_within_def)
  ultimately show ?thesis by (simp add: rest_def issued_def)
qed

subsection \<open>Concrete runs\<close>

definition sample_house :: "nat house" where
  "sample_house = (\<lambda>_. sample_conn)"

lemma sample_house_rest: "house_at_rest sample_house"
  using sample_rest by (simp add: house_at_rest_def sample_house_def)

definition sample_services :: "nat service_env" where
  "sample_services = \<lparr>sx_dates = sample_datetimes,
     sx_env = (\<lambda>_. sample_env\<lparr>e_inventory := (\<lambda>g m w. ((Inr (sample_result (JInt 7)), []), w))\<rparr>),
     sx_pins = \<lparr>po_type = (\<lambda>ty. if ty = PERMANENT then 1 else 3), po_add = (\<lambda>pin ty st en g w. ((Inr (), []), w)),
       po_delete = (\<lambda>pin ty g w. ((Inr (), []), w)), po_clear = (\<lambda>g w. ((Inr (), []), w))\<rparr>,
     sx_get_delay = (\<lambda>g w. ((Inr 5, []), w)), sx_set_delay = (\<lambda>n g w. ((Inr (), []), w)),
     sx_error_diagnostic = (\<lambda>_. None)\<rparr>"

definition sample_schemas :: schema_env where
  "sample_schemas = \<lparr>sm_string = plain_text, sm_int = (\<lambda>j. case j of JInt n \<Rightarrow> Some n | _ \<Rightarrow> None)\<rparr>"

definition sample_data :: "(string \<times> json) list" where
  "sample_data = [(''device_id'', JStr ''dev''), (''code'', JStr ''123456''), (''type'', JStr ''permanent'')]"

lemma sample_call_parsed:
  "parse_call sample_schemas AddPasscodeAction sample_data = Some (RqAddPasscode sample_call)"
  by code_simp

lemma sample_own_objects: "own_objects (hv_entries sample_view)"
  by (simp add: own_objects_def sample_view_def)

definition sample_period :: service_call where
  "sample_period = sample_call\<lparr>sc_type := ''period'', sc_start := Some ''b'', sc_end := Some ''a''\<rparr>"

text \<open>
  A permanent PIN goes through with the fixed dates; a temporary one whose window ends before it
  starts is refused.
\<close>

theorem pin_action_guarded_witness:
  "fst (perform_service sample_services sample_view (RqAddPasscode sample_call) sample_house) = Inr None
    \<and> (\<exists>conn. pin_effect sample_services (AddPasscode conn ''123456'' PERMANENT ''0001311400'' ''9912311400'') sample_house (Inr None)
          (snd (perform_service sample_services sample_view (RqAddPasscode sample_call) sample_house)))
    \<and> (\<exists>e. fst (perform_service sample_services sample_view (RqAddPasscode sample_period) sample_house) = Inl (Refused e))"
proof -
  let ?run = "perform_service sample_services sample_view (RqAddPasscode sample_call) sample_house"
  have ok: "fst ?run = Inr None" and refused: "fst (perform_service sample_services sample_view (RqAddPasscode sample_period) sample_house)
      = Inl (Refused (Validation ''invalid_period_window''))" by code_simp+
  have call: "sc_code sample_call = ''123456''" "sc_type sample_call = ''permanent''" by code_simp+
  from pin_action_guarded [OF sample_own_objects sample_house_rest _ prod.collapse [symmetric],
      of "RqAddPasscode sample_call" sample_call sample_services] ok obtain req where
    "asks_for (sx_dates sample_services) (RqAddPasscode sample_call) req" "pin_effect sample_services req sample_house (Inr None) (snd ?run)"
    by auto
  with ok refused call show ?thesis by (cases req) (auto simp: typed_dates_def)
qed

theorem inventory_supported_closed_witness:
  "\<exists>resp. fst (perform_service sample_services sample_view (RqAccessInventory sample_call ''ic_card'') sample_house) = Inr (Some resp)
    \<and> dict_get resp ''count'' = Some (JInt 1)
    \<and> owned (snd (perform_service sample_services sample_view (RqAccessInventory sample_call ''ic_card'') sample_house) 7) = None"
proof -
  let ?run = "perform_service sample_services sample_view (RqAccessInventory sample_call ''ic_card'') sample_house"
  let ?answer = "case fst ?run of Inr (Some resp) \<Rightarrow> map_of resp ''read_status'' = Some (JStr ''supported'')
    \<and> map_of resp ''count'' = Some (JInt 1) | _ \<Rightarrow> False"
  have "?answer" by code_simp
  then obtain resp where resp: "fst ?run = Inr (Some resp)" "dict_get resp ''read_status'' = Some (JStr ''supported'')"
    "dict_get resp ''count'' = Some (JInt 1)" by (auto split: sum.splits option.splits)
  from resp(1) have "?run = (Inr (Some resp), snd ?run)" by (metis prod.collapse)
  from inventory_supported_closed [OF sample_house_rest this resp(2)] obtain conn
    where "connection_for_device sample_view (sc_device sample_call) = Inr conn" "owned (snd ?run conn) = None" by blast
  moreover have "connection_for_device sample_view (sc_device sample_call) = Inr 7" by code_simp
  ultimately show ?thesis using resp by simp
qed

definition sample_history :: "home_request list" where
  "sample_history = [Operation (HQuery 7 True),
     ServiceCall sample_view (DOMAIN, ''add_passcode'') sample_data, Operation (HCommand 7 ALock)]"

theorem bolt_moves_on_request_witness:
  "controls (sdk_log (fold (request_step sample_services sample_schemas (setup_services [])) sample_history sample_house 7)) = 1
    \<and> (\<exists>cs. sdk_log (fold (request_step sample_services sample_schemas (setup_services [])) sample_history sample_house 7)
      = sdk_log (sample_house 7) @ cs \<and> controls cs \<le> 1)"
proof -
  have one: "controls (sdk_log (fold (request_step sample_services sample_schemas (setup_services [])) sample_history sample_house 7)) = 1"
    by code_simp
  have "length (filter (\<lambda>q. \<exists>a. q = Operation (HCommand 7 a)) sample_history) = 1"
    by (simp add: sample_history_def)
  with bolt_moves_on_request [OF sample_house_rest, of sample_services sample_schemas "setup_services []" sample_history 7]
    one show ?thesis by auto
qed

end
