(* ===== verification/AccessProps.thy ===== *)
theory AccessProps
  imports AccessRecords
begin

section \<open>Properties of the access records\<close>

text \<open>
  What the private store promises: what it saves it can load again; an invalidated read changes
  nothing; a reconciliation never drops or relabels a reference; only a freshly observed
  reference can be named.
\<close>

subsection \<open>Stored form\<close>

definition record_ok :: "private_record \<Rightarrow> bool" where
  "record_ok r \<longleftrightarrow> hex_match 32 64 (pr_base r) \<and> hex_match 32 64 (pr_reference r)
     \<and> pr_record_type r \<in> set RECORD_TYPES \<and> pr_validity r \<in> set VALIDITIES \<and> length (pr_alias r) \<le> 64"

definition scope_ok :: "scope_state \<Rightarrow> bool" where
  "scope_ok st \<longleftrightarrow> hex_match 32 64 (ss_epoch st) \<and> length (ss_records st) \<le> MAX_RECORDS
     \<and> list_all record_ok (ss_records st)"

definition store_ok :: "'w access_store \<Rightarrow> bool" where
  "store_ok s \<longleftrightarrow> dict_ok (scopes s) \<and> list_all (\<lambda>(k, st). scope_ok st) (scopes s) \<and> finite (legacy_set s)"

lemma option_list_map:
  "(\<And>x. x \<in> set xs \<Longrightarrow> f (g x) = Some (h x)) \<Longrightarrow> option_list (map (f \<circ> g) xs) = Some (map h xs)"
  by (induction xs) simp_all

lemma valid_record_json: "record_ok r \<Longrightarrow> valid_record (record_json r) = Some r"
  by (simp add: record_json_def record_ok_def exact_keys_def field_def)

lemma valid_scope_json:
  assumes "scope_ok st"
  shows "valid_scope (scope_json st) = Some st"
proof -
  have "option_list (map valid_record (map record_json (ss_records st))) = Some (ss_records st)"
    using assms option_list_map [of "ss_records st" valid_record record_json id]
    by (simp add: scope_ok_def list_all_iff valid_record_json)
  with assms show ?thesis
    by (simp add: scope_json_def exact_keys_def field_def scope_ok_def)
qed

lemma valid_data_json:
  assumes "list_all (\<lambda>(k, st). scope_ok st) sc"
  shows "valid_data (store_json sc lg) = Some (sc, sorted_list_of_set lg)"
proof -
  have "option_list (map ((\<lambda>(k, j). map_option (Pair k) (valid_scope j)) \<circ> (\<lambda>(k, st). (k, scope_json st))) sc)
      = Some (map id sc)"
    by (rule option_list_map) (use assms in \<open>auto simp: list_all_iff valid_scope_json\<close>)
  then have "scopes_field (JDict (map (\<lambda>(k, st). (k, scope_json st)) sc)) = Some sc" by simp
  moreover have "option_list (map (plain_text \<circ> JStr) (sorted_list_of_set lg)) = Some (map id (sorted_list_of_set lg))"
    by (rule option_list_map) simp
  ultimately show ?thesis
    by (simp add: store_json_def exact_keys_def field_def)
qed

subsection \<open>Every operation keeps the store loadable\<close>

text \<open>What the code relies on: random tokens in hex, and the SDK's own vocabulary.\<close>

definition tokens_ok :: "'w store_env \<Rightarrow> bool" where
  "tokens_ok V \<longleftrightarrow> (\<forall>w. length (fst (v_token_hex V w)) = 32 \<and> lower_hex (fst (v_token_hex V w)))"

definition items_ok :: "inventory_item list \<Rightarrow> bool" where
  "items_ok its \<longleftrightarrow> list_all (\<lambda>it. it_record_type it \<in> set RECORD_TYPES \<and> it_validity it \<in> set VALIDITIES) its"

lemma lower_hex_not_nl: "lower_hex s \<Longrightarrow> s = [] \<or> last s \<noteq> CHR 10"
proof -
  have "\<not> lower_hex [CHR 10]" by (simp add: lower_hex_def code_def)
  then show "lower_hex s \<Longrightarrow> s = [] \<or> last s \<noteq> CHR 10"
    by (metis append_butlast_last_id lower_hex_append)
qed

lemma hex_match_plain: "lower_hex s \<Longrightarrow> lo \<le> length s \<Longrightarrow> length s \<le> hi \<Longrightarrow> hex_match lo hi s"
  using lower_hex_not_nl [of s] by (auto simp: hex_match_def Let_def)

lemma scope_ok_get: "store_ok s \<Longrightarrow> dict_get (scopes s) k = Some st \<Longrightarrow> scope_ok st"
  by (auto simp: store_ok_def list_all_iff dest: map_of_SomeD)

lemma list_all_dict_set:
  "dict_ok d \<Longrightarrow> list_all (\<lambda>(k, v). P v) d \<Longrightarrow> P v \<Longrightarrow> list_all (\<lambda>(k, v). P v) (dict_set k v d)"
  by (auto simp: list_all_iff dest!: dict_get_iff [THEN iffD2, rotated] split: if_splits)
    (metis (mono_tags, lifting) case_prodD dict_get_iff dict_get_set dict_ok_set option.inject)

lemma list_all_dict_pop: "list_all (\<lambda>(k, v). P v) d \<Longrightarrow> list_all (\<lambda>(k, v). P v) (dict_pop k d)"
  by (auto simp: list_all_iff AList.delete_eq)

lemma store_ok_set:
  "store_ok s \<Longrightarrow> scope_ok st \<Longrightarrow> store_ok (s\<lparr>scopes := dict_set k st (scopes s)\<rparr>)"
  by (simp add: store_ok_def list_all_dict_set)

lemma store_ok_frame [simp]:
  "store_ok (s\<lparr>store_world := w\<rparr>) = store_ok s" "store_ok (s\<lparr>saved := j\<rparr>) = store_ok s"
  "store_ok (s\<lparr>confirmed := c\<rparr>) = store_ok s" "store_ok (s\<lparr>fresh := f\<rparr>) = store_ok s"
  "store_ok (s\<lparr>observed := d\<rparr>) = store_ok s" "store_ok (s\<lparr>refs_key := k\<rparr>) = store_ok s"
  "store_ok (s\<lparr>loaded := b\<rparr>) = store_ok s" "store_ok (s\<lparr>revision := rv\<rparr>) = store_ok s"
  "store_ok (stale_scope x s) = store_ok s"
  by (simp_all add: store_ok_def stale_scope_def)

lemma store_ok_forget: "store_ok s \<Longrightarrow> store_ok (forget_scope k s)"
  by (simp add: forget_scope_def Let_def) (simp add: store_ok_def list_all_dict_pop)

lemma label_ok: "\<not> bad_name name \<Longrightarrow> record_ok r \<Longrightarrow> record_ok (r\<lparr>pr_alias := py_strip name\<rparr>)"
  using length_py_strip [of name] by (simp add: bad_name_def MAX_NAME_def record_ok_def)

lemma named_records_ok:
  "name_first obs ref name rs = Some rs' \<Longrightarrow> \<not> bad_name name \<Longrightarrow> list_all record_ok rs \<Longrightarrow>
     length rs' = length rs \<and> list_all record_ok rs'"
  by (induction rs arbitrary: rs') (auto simp: label_ok split: if_splits)

lemma name_scope_ok:
  assumes "store_ok s" and "\<not> bad_name name" and "name_scope scope ref name s = Some s'"
  shows "store_ok s'"
proof -
  from assms(3) obtain st rs where st: "dict_get (scopes s) scope = Some st"
    and rs: "name_first (dict_get_or (observed s) scope {}) ref name (ss_records st) = Some rs"
    and s': "s' = s\<lparr>scopes := dict_set scope (st\<lparr>ss_records := rs\<rparr>) (scopes s)\<rparr>"
    by (auto simp: name_scope_def split: option.splits)
  have "scope_ok st" by (rule scope_ok_get [OF assms(1) st])
  with named_records_ok [OF rs assms(2)] have "scope_ok (st\<lparr>ss_records := rs\<rparr>)" by (simp add: scope_ok_def)
  with assms(1) show ?thesis by (simp add: s' store_ok_set)
qed

lemma store_ok_event: "store_ok s \<Longrightarrow> store_ok (apply_event e s)"
proof (cases e)
  case (SvName scope ref name stored)
  then show "store_ok s \<Longrightarrow> ?thesis"
    by (auto simp: name_scope_ok split: option.split)
qed (auto simp: store_ok_forget, simp_all add: store_ok_def forget_all_def set_legacy_def)

lemma store_ok_events: "store_ok s \<Longrightarrow> store_ok (fold apply_event es s)"
  by (induction es arbitrary: s) (simp_all add: store_ok_event)

lemma store_ok_tickets [simp]: "store_ok (fold stale_scope ks s) = store_ok s"
  by (induction ks arbitrary: s) simp_all

subsection \<open>The loop of a reconciliation\<close>

text \<open>What never changes about a record: everything but its validity and its activity.\<close>

definition label :: "private_record \<Rightarrow> string \<times> string \<times> string \<times> string" where
  "label r = (pr_base r, pr_reference r, pr_record_type r, pr_alias r)"

definition active_observed :: "string set \<Rightarrow> string set \<Rightarrow> private_record list \<Rightarrow> bool" where
  "active_observed seen obs rs \<longleftrightarrow>
     (\<forall>ref\<in>obs. \<exists>r\<in>set rs. pr_reference r = ref \<and> pr_active r \<and> pr_base r \<in> seen)"

definition loop_inv :: "private_record list \<Rightarrow> loop_state \<Rightarrow> bool" where
  "loop_inv rs0 lp \<longleftrightarrow> (\<exists>new. map label (lp_records lp) = map label rs0 @ new)
     \<and> active_observed (lp_seen lp) (lp_observed lp) (lp_records lp)"

definition index_ok :: "(string, nat) dict \<Rightarrow> private_record list \<Rightarrow> bool" where
  "index_ok d rs \<longleftrightarrow> (\<forall>b i. dict_get d b = Some i \<longrightarrow> i < length rs \<and> pr_base (rs ! i) = b)"

lemma index_ok_set: "index_ok d rs \<Longrightarrow> i < length rs \<Longrightarrow> index_ok (dict_set (pr_base (rs ! i)) i d) rs"
  by (simp add: index_ok_def)

lemma index_ok_fold:
  assumes "\<And>i r. (i, r) \<in> set ps \<Longrightarrow> i < length rs \<and> rs ! i = r" and "index_ok d rs"
  shows "index_ok (fold (\<lambda>(i, r) d.
     if pr_active r \<or> m = ''keypad_pin'' then dict_set (pr_base r) i d else d) ps d) rs"
  using assms
proof (induction ps arbitrary: d)
  case (Cons p ps)
  let ?f = "\<lambda>(i, r) d. if pr_active r \<or> m = ''keypad_pin'' then dict_set (pr_base r) i d else d"
  have IH: "index_ok d' rs \<Longrightarrow> index_ok (fold ?f ps d') rs" for d'
    by (rule Cons.IH) (use Cons.prems(1) in auto)
  obtain i r where p: "p = (i, r)" by (cases p)
  with Cons.prems(1) have "i < length rs" "rs ! i = r" by auto
  with Cons.prems(2) have "index_ok (dict_set (pr_base r) i d) rs" using index_ok_set by blast
  with Cons.prems(2) have "index_ok (?f p d) rs" by (simp add: p)
  then have "index_ok (fold ?f ps (?f p d)) rs" by (rule IH)
  then show ?case by (simp only: fold_simps)
qed simp

lemma active_index_ok: "index_ok (active_index m rs) rs"
  unfolding active_index_def
  by (rule index_ok_fold) (auto simp: in_set_enumerate_eq index_ok_def)

lemma loop_index:
  assumes "index_ok d rs0" and "loop_inv rs0 lp" and "dict_get d b = Some i"
  shows "i < length (lp_records lp)" "pr_base (lp_records lp ! i) = b"
proof -
  from assms(2) obtain new where new: "map label (lp_records lp) = map label rs0 @ new"
    by (auto simp: loop_inv_def)
  have i: "i < length rs0" "pr_base (rs0 ! i) = b" using assms(1,3) by (auto simp: index_ok_def)
  from new have "length (lp_records lp) = length rs0 + length new"
    by (metis length_append length_map)
  with i show lt: "i < length (lp_records lp)" by simp
  have "label (lp_records lp ! i) = label (rs0 ! i)"
    using arg_cong [OF new, of "\<lambda>xs. xs ! i"] lt i(1) by (simp add: nth_append)
  with i(2) show "pr_base (lp_records lp ! i) = b" by (simp add: label_def)
qed

lemma map_label_update:
  assumes "i < length rs" and "label r = label (rs ! i)"
  shows "map label (rs[i := r]) = map label rs"
  using assms by (metis list_update_id map_update)

lemma loop_inv_update:
  assumes "loop_inv rs0 lp" and "i < length (lp_records lp)" and "pr_base (lp_records lp ! i) = b"
  shows "loop_inv rs0 \<lparr>lp_records = (lp_records lp)[i := (lp_records lp ! i)\<lparr>pr_active := True, pr_validity := v\<rparr>],
      lp_seen = insert b (lp_seen lp),
      lp_observed = insert (pr_reference (lp_records lp ! i)) (lp_observed lp)\<rparr>"
    (is "loop_inv rs0 ?lp")
proof -
  let ?r = "(lp_records lp ! i)\<lparr>pr_active := True, pr_validity := v\<rparr>"
  have labels: "map label (lp_records ?lp) = map label (lp_records lp)"
    using assms(2) by (simp add: map_label_update label_def)
  have "active_observed (insert b (lp_seen lp)) (insert (pr_reference (lp_records lp ! i)) (lp_observed lp))
      ((lp_records lp)[i := ?r])"
    unfolding active_observed_def
  proof (intro ballI)
    fix ref assume "ref \<in> insert (pr_reference (lp_records lp ! i)) (lp_observed lp)"
    then consider "ref = pr_reference (lp_records lp ! i)" | "ref \<in> lp_observed lp" by blast
    then show "\<exists>r\<in>set ((lp_records lp)[i := ?r]). pr_reference r = ref \<and> pr_active r \<and> pr_base r \<in> insert b (lp_seen lp)"
    proof cases
      case 1
      then show ?thesis using assms(3) by (intro bexI [OF _ set_update_memI [OF assms(2)]]) simp
    next
      case 2
      with assms(1) obtain r where r: "r \<in> set (lp_records lp)" "pr_reference r = ref" "pr_active r" "pr_base r \<in> lp_seen lp"
        by (auto simp: loop_inv_def active_observed_def)
      then obtain j where j: "j < length (lp_records lp)" "lp_records lp ! j = r" by (auto simp: in_set_conv_nth)
      show ?thesis
      proof (cases "j = i")
        case True
        with r j show ?thesis by (intro bexI [OF _ set_update_memI [OF assms(2)]]) simp
      next
        case False
        with j have "(lp_records lp)[i := ?r] ! j = r" "j < length ((lp_records lp)[i := ?r])" by simp_all
        with r show ?thesis by (metis insertCI nth_mem)
      qed
    qed
  qed
  with labels assms(1) show ?thesis by (auto simp: loop_inv_def)
qed

lemma loop_inv_append:
  assumes "loop_inv rs0 lp"
  shows "loop_inv rs0 \<lparr>lp_records = lp_records lp @ [\<lparr>pr_base = b, pr_reference = ref,
        pr_record_type = t, pr_validity = v, pr_alias = a, pr_active = True\<rparr>],
      lp_seen = insert b (lp_seen lp), lp_observed = insert ref (lp_observed lp)\<rparr>"
proof -
  from assms obtain new where "map label (lp_records lp) = map label rs0 @ new"
    and obs: "active_observed (lp_seen lp) (lp_observed lp) (lp_records lp)"
    by (auto simp: loop_inv_def)
  moreover have "active_observed (insert b (lp_seen lp)) (insert ref (lp_observed lp)) (lp_records lp @
      [\<lparr>pr_base = b, pr_reference = ref, pr_record_type = t, pr_validity = v, pr_alias = a, pr_active = True\<rparr>])"
    using obs unfolding active_observed_def by fastforce
  ultimately show ?thesis by (simp add: loop_inv_def)
qed

text \<open>Only the world of the store changes in the loop; it may end in a \<open>ValueError\<close>.\<close>

definition same_store :: "'w access_store \<Rightarrow> 'w access_store \<Rightarrow> bool" where
  "same_store s0 s \<longleftrightarrow> s = s0\<lparr>store_world := store_world s\<rparr>"

lemma same_store_world [simp]: "same_store s0 (s\<lparr>store_world := w\<rparr>) = same_store s0 s"
  by (cases s0; cases s) (simp add: same_store_def)

lemma same_store_fields:
  assumes "same_store s0 s"
  shows "scopes s = scopes s0" "legacy_set s = legacy_set s0" "fresh s = fresh s0"
  using assms unfolding same_store_def by (metis access_store.select_convs access_store.surjective access_store.update_convs)+

definition loop_records_ok :: "loop_state \<Rightarrow> bool" where
  "loop_records_ok lp \<longleftrightarrow> list_all record_ok (lp_records lp)"

lemma observe_item_triple:
  assumes "index_ok d rs0" and "loop_inv rs0 lp"
  shows "triple (same_store s0) (observe_item V lock method epoch d it lp)
     (\<lambda>lp' s. same_store s0 s \<and> loop_inv rs0 lp'
        \<and> (tokens_ok V \<and> items_ok [it] \<and> loop_records_ok lp \<longrightarrow> loop_records_ok lp'))
     (\<lambda>e s. same_store s0 s \<and> (\<exists>m. e = ValueErr m))"
proof -
  have known: "loop_records_ok \<lparr>lp_records = (lp_records lp)[i := (lp_records lp ! i)\<lparr>pr_active := True, pr_validity := it_validity it\<rparr>],
        lp_seen = sn, lp_observed = ob\<rparr>"
    if "items_ok [it]" "loop_records_ok lp" "i < length (lp_records lp)" for i sn ob
  proof -
    have "record_ok (lp_records lp ! i)" using that by (simp add: loop_records_ok_def list_all_length)
    then have "record_ok ((lp_records lp ! i)\<lparr>pr_active := True, pr_validity := it_validity it\<rparr>)"
      using that by (simp add: record_ok_def items_ok_def)
    then show ?thesis using that(2) set_update_subset_insert [of "lp_records lp" i]
      by (auto simp: loop_records_ok_def list_all_iff)
  qed
  have fresh_one: "loop_records_ok \<lparr>lp_records = lp_records lp @ [\<lparr>pr_base = base, pr_reference = fst (v_token_hex V w),
         pr_record_type = it_record_type it, pr_validity = it_validity it, pr_alias = [], pr_active = True\<rparr>],
        lp_seen = sn, lp_observed = ob\<rparr>"
    if "tokens_ok V" "items_ok [it]" "loop_records_ok lp" "length base = 64" "lower_hex base" for base w sn ob
    using that by (simp add: loop_records_ok_def record_ok_def items_ok_def tokens_ok_def hex_match_plain)
  show ?thesis
    using loop_index [OF assms] loop_inv_update [OF assms(2)] loop_inv_append [OF assms(2)] known fresh_one
    by (auto simp: triple_def observe_item_def raise_or_def eff_defs store_step_def Let_def
        from_verified_record_def split: option.splits if_splits)
qed

lemma observe_items_triple:
  assumes "index_ok d rs0" and "loop_inv rs0 lp"
  shows "triple (same_store s0) (observe_items V lock method epoch d its lp)
     (\<lambda>lp' s. same_store s0 s \<and> loop_inv rs0 lp'
        \<and> (tokens_ok V \<and> items_ok its \<and> loop_records_ok lp \<longrightarrow> loop_records_ok lp'))
     (\<lambda>e s. same_store s0 s \<and> (\<exists>m. e = ValueErr m))"
  using assms(2)
proof (induction its arbitrary: lp)
  case Nil
  then show ?case by (auto intro: triple_return)
next
  case (Cons it its)
  have tail: "triple (\<lambda>s. same_store s0 s \<and> loop_inv rs0 lp1
        \<and> (tokens_ok V \<and> items_ok [it] \<and> loop_records_ok lp \<longrightarrow> loop_records_ok lp1))
      (observe_items V lock method epoch d its lp1)
      (\<lambda>lp' s. same_store s0 s \<and> loop_inv rs0 lp'
        \<and> (tokens_ok V \<and> items_ok (it # its) \<and> loop_records_ok lp \<longrightarrow> loop_records_ok lp'))
      (\<lambda>e s. same_store s0 s \<and> (\<exists>m. e = ValueErr m))" for lp1
  proof (cases "loop_inv rs0 lp1 \<and> (tokens_ok V \<and> items_ok [it] \<and> loop_records_ok lp \<longrightarrow> loop_records_ok lp1)")
    case True
    then have "loop_inv rs0 lp1" by simp
    from Cons.IH [OF this] show ?thesis
      by (rule triple_weaken) (use True in \<open>auto simp: items_ok_def\<close>)
  qed (auto simp: triple_def)
  show ?case
    by (simp, rule triple_bind [OF observe_item_triple [OF assms(1) Cons.prems] tail])
qed

text \<open>After the loop: what is not seen any more is retired, nothing is lost.\<close>

lemma retire_labels [simp]: "map label (retire_unseen m seen rs) = map label rs"
  by (simp add: retire_unseen_def label_def)

lemma retire_length [simp]: "length (retire_unseen m seen rs) = length rs"
  by (simp add: retire_unseen_def)

lemma retire_ok: "list_all record_ok rs \<Longrightarrow> list_all record_ok (retire_unseen m seen rs)"
  by (auto simp: retire_unseen_def list_all_iff record_ok_def)

lemma retire_observed:
  "active_observed seen obs rs \<Longrightarrow> active_observed seen obs (retire_unseen m seen rs)"
  by (force simp: active_observed_def retire_unseen_def)

lemma retire_inactive:
  "m \<noteq> ''keypad_pin'' \<Longrightarrow> r \<in> set (retire_unseen m seen rs) \<Longrightarrow> pr_active r \<Longrightarrow> pr_base r \<in> seen"
  by (auto simp: retire_unseen_def split: if_splits)

subsection \<open>A whole reconciliation\<close>

definition fresh_scope :: "'w store_env \<Rightarrow> 'w access_store \<Rightarrow> scope_state" where
  "fresh_scope V s = \<lparr>ss_epoch = fst (v_token_hex V (store_world s)), ss_records = []\<rparr>"

lemma tickets_frame [simp]:
  "scopes (fold stale_scope ks s) = scopes s" "legacy_set (fold stale_scope ks s) = legacy_set s"
  "saved (fold stale_scope ks s) = saved s" "confirmed (fold stale_scope ks s) = confirmed s"
  "loaded (fold stale_scope ks s) = loaded s" "refs_key (fold stale_scope ks s) = refs_key s"
  by (induction ks arbitrary: s) (simp_all add: stale_scope_def)

lemma save_result:
  assumes "save_store V s = (r, s')"
  shows "scopes s' = scopes s" "legacy_set s' = legacy_set s" "confirmed s' = confirmed s"
    "r = Inr u \<Longrightarrow> saved s' = Some (store_json (scopes s) (legacy_set s))"
    "r \<noteq> Inr () \<Longrightarrow> saved s' = saved s"
  using assms
  by (auto simp: save_store_def storage_call_def store_step_def eff_defs split: prod.splits option.splits)

text \<open>What one believed read does to the scopes.\<close>

definition believed ::
  "'w store_env \<Rightarrow> string \<Rightarrow> string \<Rightarrow> string \<Rightarrow> inventory_item list \<Rightarrow> 'w access_store \<Rightarrow> exn + unit \<Rightarrow> 'w access_store \<Rightarrow> bool" where
  "believed V lock method scope items s r s' \<longleftrightarrow>
     (let st = dict_get_or (scopes s) scope (fresh_scope V s);
          base = dict_setdefault scope (fresh_scope V s) (scopes s)
      in legacy_set s' = legacy_set s \<and>
         (scopes s' = base \<and> (\<exists>m. r = Inl (ValueErr m))
          \<or> (\<exists>lp. loop_inv (ss_records st) lp
               \<and> (\<exists>s1 s2. refs_key s1 = refs_key s \<and> observe_items V lock method (ss_epoch st)
                     (active_index method (ss_records st)) items
                     \<lparr>lp_records = ss_records st, lp_seen = {}, lp_observed = {}\<rparr> s1 = (Inr lp, s2))
               \<and> (tokens_ok V \<and> items_ok items \<and> list_all record_ok (ss_records st) \<longrightarrow> loop_records_ok lp)
               \<and> length (lp_records lp) \<le> MAX_RECORDS
               \<and> scopes s' = dict_set scope
                   (st\<lparr>ss_records := retire_unseen method (lp_seen lp) (lp_records lp)\<rparr>) base
               \<and> (r = Inr () \<longrightarrow> saved s' = Some (store_json (scopes s') (legacy_set s')))
               \<and> (\<forall>t. r = Inr () \<and> dict_get (fresh s') scope = Some t \<and> dict_get (fresh s) scope = None \<longrightarrow>
                    dict_get (observed s') scope = Some (lp_observed lp)))))"

lemma tickets_fresh: "dict_get (fresh s) k = None \<Longrightarrow> dict_get (fresh (fold stale_scope ks s)) k = None"
  by (induction ks arbitrary: s) (simp_all add: stale_scope_def)

lemma save_fresh: "save_store V s = (r, s') \<Longrightarrow> dict_get (fresh s) k = None \<Longrightarrow> dict_get (fresh s') k = None"
  by (auto simp: save_store_def storage_call_def store_step_def eff_defs tickets_fresh
      split: prod.splits option.splits)

lemma reconcile_locked_believed:
  assumes "reconcile_locked V lock method scope items ticket s = (r, s')"
    and "dict_get (revision s) scope = Some ticket"
  shows "believed V lock method scope items s r s'"
proof -
  let ?st = "dict_get_or (scopes s) scope (fresh_scope V s)"
  let ?base = "dict_setdefault scope (fresh_scope V s) (scopes s)"
  let ?s1 = "s\<lparr>store_world := snd (v_token_hex V (store_world s)), scopes := ?base\<rparr>"
  obtain ro s2 where o: "observe_items V lock method (ss_epoch ?st)
      (active_index method (ss_records ?st)) items
      \<lparr>lp_records = ss_records ?st, lp_seen = {}, lp_observed = {}\<rparr> ?s1 = (ro, s2)"
    by (metis prod.collapse)
  have inv0: "loop_inv (ss_records ?st) \<lparr>lp_records = ss_records ?st, lp_seen = {}, lp_observed = {}\<rparr>"
    by (simp add: loop_inv_def active_observed_def)
  have same: "same_store ?s1 ?s1" by (simp add: same_store_def)
  note res = triple_result [OF observe_items_triple [OF active_index_ok inv0] same o]
  have st: "dict_get_or ?base scope (fresh_scope V s) = ?st"
    by (simp add: dict_get_or_def)
  have start: "reconcile_locked V lock method scope items ticket s =
      (case ro of Inl e \<Rightarrow> (Inl e, s2) | Inr lp \<Rightarrow>
        m_then (m_modify (\<lambda>s. s\<lparr>confirmed := confirmed s - unseen_references (lp_seen lp) (lp_records lp)\<rparr>))
              (if MAX_RECORDS < length (lp_records lp)
               then m_raise (ValueErr ''Private inventory capacity exceeded; reset local references'')
               else m_then (m_modify (\<lambda>s. s\<lparr>scopes := dict_set scope
                   (?st\<lparr>ss_records := retire_unseen method (lp_seen lp) (lp_records lp)\<rparr>) (scopes s)\<rparr>))
                (m_then (save_store V)
                 (m_bind (m_gets (\<lambda>s. dict_get (revision s) scope)) (\<lambda>after.
                   if after = Some ticket
                   then m_bind (store_step (v_monotonic V)) (\<lambda>now. m_modify (\<lambda>s.
                     s\<lparr>observed := dict_set scope (lp_observed lp) (observed s),
                       fresh := dict_set scope now (fresh s)\<rparr>))
                   else m_return ())))) s2)"
    using assms(2) o st
    by (simp add: reconcile_locked_def eff_defs store_step_def fresh_scope_def [symmetric] Let_def split: sum.split)
  show ?thesis
  proof (cases ro)
    case (Inl e)
    with res have "same_store ?s1 s2" "\<exists>m. e = ValueErr m" by auto
    with Inl start assms(1) same_store_fields [of ?s1 s2] show ?thesis
      by (auto simp: believed_def Let_def)
  next
    case (Inr lp)
    with res have s2: "same_store ?s1 s2" and lp: "loop_inv (ss_records ?st) lp"
      "tokens_ok V \<and> items_ok items \<and> list_all record_ok (ss_records ?st) \<longrightarrow> loop_records_ok lp"
      by (auto simp: loop_records_ok_def)
    let ?s3 = "s2\<lparr>confirmed := confirmed s2 - unseen_references (lp_seen lp) (lp_records lp)\<rparr>"
    have f2: "scopes s2 = ?base" "legacy_set s2 = legacy_set s" "fresh s2 = fresh s"
      using same_store_fields [OF s2] by simp_all
    show ?thesis
    proof (cases "MAX_RECORDS < length (lp_records lp)")
      case True
      with Inr start assms(1) f2 show ?thesis
        by (auto simp: believed_def Let_def eff_defs)
    next
      case False
      let ?s4 = "?s3\<lparr>scopes := dict_set scope
          (?st\<lparr>ss_records := retire_unseen method (lp_seen lp) (lp_records lp)\<rparr>) ?base\<rparr>"
      obtain rs s5 where sv: "save_store V ?s4 = (rs, s5)" by (metis prod.collapse)
      note sr = save_result [OF sv]
      have s': "scopes s' = scopes ?s4 \<and> legacy_set s' = legacy_set s
          \<and> (r = Inr () \<longrightarrow> saved s' = Some (store_json (scopes ?s4) (legacy_set s)))
          \<and> (r = Inr () \<and> dict_get (fresh s') scope \<noteq> None \<and> dict_get (fresh s) scope = None \<longrightarrow>
               dict_get (observed s') scope = Some (lp_observed lp))"
        using Inr start assms(1) f2 False sv sr save_fresh [OF sv, of scope]
        by (cases rs) (auto simp: eff_defs store_step_def split: if_splits)
      show ?thesis
        unfolding believed_def Let_def
        using s' lp False o [unfolded Inr]
        by (intro conjI disjI2 exI [of _ lp] exI [of _ ?s1] exI [of _ s2]) auto
    qed
  qed
qed

subsection \<open>Tickets\<close>

fun invalidates :: "string \<Rightarrow> store_event \<Rightarrow> bool" where
  "invalidates k (SvTicket k') = (k = k')"
| "invalidates k (SvReset k' b) = (k = k')"
| "invalidates k (SvRemove b) = True"
| "invalidates k (SvName k' ref name b) = False"
| "invalidates k (SvLegacy lock d b) = False"

definition ticket_of :: "string \<Rightarrow> 'w access_store \<Rightarrow> nat" where
  "ticket_of k s = dict_get_or (revision s) k 0"

lemma revision_stale [simp]:
  "dict_get (revision (stale_scope k s)) k' =
     (if k' = k then Some (ticket_of k s + 1) else dict_get (revision s) k')"
  by (simp add: stale_scope_def ticket_of_def)

lemma event_ticket:
  assumes "dict_get (revision s) k = Some n"
  shows "\<exists>n'\<ge>n. dict_get (revision (apply_event e s)) k = Some n' \<and> (invalidates k e \<longrightarrow> n < n')"
proof (cases e)
  case (SvReset k' b)
  with assms show ?thesis
    by (auto simp: forget_scope_def Let_def ticket_of_def dict_get_or_def)
next
  case (SvName k' ref name b)
  with assms show ?thesis by (auto simp: name_scope_def split: option.splits)
qed (use assms in \<open>auto simp: ticket_of_def dict_get_or_def forget_all_def map_of_map\<close>)

lemma events_ticket:
  assumes "dict_get (revision s) k = Some n"
  shows "\<exists>n'\<ge>n. dict_get (revision (fold apply_event es s)) k = Some n'
    \<and> ((\<exists>e\<in>set es. invalidates k e) \<longrightarrow> n < n')"
  using assms
proof (induction es arbitrary: s n)
  case (Cons e es)
  from event_ticket [OF Cons.prems, of e] obtain m where
    m: "n \<le> m" "dict_get (revision (apply_event e s)) k = Some m" "invalidates k e \<longrightarrow> n < m" by blast
  from Cons.IH [OF m(2)] m show ?case by fastforce
qed simp

text \<open>The operations up to the lock.\<close>

lemma reconcile_steps:
  assumes "access_reconcile V lock method inventory cleaned (Some ticket) s = (r, s')"
  shows "s' = s \<or> (loaded s \<and> cleaned \<and> ai_complete inventory \<and> method \<in> set ACCESS_METHODS
      \<and> dict_get (revision s) (lock @ ''/'' @ method) = Some ticket
      \<and> reconcile_locked V lock method (lock @ ''/'' @ method) (ai_records inventory) ticket
          (fold apply_event (fst (v_lock V (store_world s))) (s\<lparr>store_world := snd (v_lock V (store_world s))\<rparr>)) = (r, s'))"
  using assms
  by (auto simp: access_reconcile_def access_scope_def raise_or_def take_lock_def store_step_def eff_defs
      split: if_splits)

text \<open>
  Claim C25. A read that was invalidated is harmless: if a new ticket for its scope was drawn, or
  the scope was reset, or the whole store was removed while the read waited for the store, then
  reconciling its result changes nothing at all beyond what those events did. In particular it
  cannot bring forgotten records back.
\<close>

theorem invalidated_read_ignored:
  assumes "access_reconcile V lock method inventory cleaned (Some ticket) s = (r, s')"
    and "list_ex (invalidates (lock @ ''/'' @ method)) (fst (v_lock V (store_world s)))"
  shows "s' = s \<or> s' = fold apply_event (fst (v_lock V (store_world s)))
    (s\<lparr>store_world := snd (v_lock V (store_world s))\<rparr>)"
proof -
  let ?k = "lock @ ''/'' @ method"
  let ?es = "fst (v_lock V (store_world s))" and ?s = "s\<lparr>store_world := snd (v_lock V (store_world s))\<rparr>"
  from reconcile_steps [OF assms(1)] show ?thesis
  proof (elim disjE conjE)
    assume t: "dict_get (revision s) ?k = Some ticket"
      and run: "reconcile_locked V lock method ?k (ai_records inventory) ticket (fold apply_event ?es ?s) = (r, s')"
    from t have "dict_get (revision ?s) ?k = Some ticket" by simp
    from events_ticket [OF this, of ?es] assms(2)
    have "dict_get (revision (fold apply_event ?es ?s)) ?k \<noteq> Some ticket" by (auto simp: list_ex_iff)
    with run show ?thesis by (simp add: reconcile_locked_def eff_defs)
  qed simp
qed

subsection \<open>A sample store\<close>

definition sample_item :: "byte list \<Rightarrow> inventory_item" where
  "sample_item i = \<lparr>it_method = ''ic_card'', it_record_type = ''card_4byte'', it_validity = ''permanent'',
     it_identifier = i\<rparr>"

definition sample_inventory :: admin_inventory where
  "sample_inventory = \<lparr>ai_complete = True, ai_records = [sample_item [1, 2, 3, 4]]\<rparr>"

definition quiet_store :: "nat store_env" where
  "quiet_store = \<lparr>v_lock = (\<lambda>w. ([], w)), v_save = (\<lambda>w. ((None, []), w)), v_load = (\<lambda>w. ((None, []), w)),
     v_remove = (\<lambda>w. ((None, []), w)), v_refs_load = (\<lambda>w. ((Inr (replicate 32 7), []), w)),
     v_refs_remove = (\<lambda>w. ((None, []), w)), v_monotonic = (\<lambda>w. (of_nat w, Suc w)),
     v_token_hex = (\<lambda>w. (concat (replicate 16 (hex_byte (of_nat w))), Suc w))\<rparr>"

definition busy_store :: "nat store_env" where
  "busy_store = quiet_store\<lparr>v_lock := (\<lambda>w. ([SvRemove True], w))\<rparr>"

definition loaded_store :: "nat access_store" where
  "loaded_store = snd (mark_stale ''AA'' ''ic_card'' (snd (access_load quiet_store (new_access_store None 1))))"

theorem invalidated_read_ignored_witness:
  "scopes (snd (access_reconcile busy_store ''AA'' ''ic_card'' sample_inventory True (Some 1) loaded_store)) = []"
proof -
  have ev: "list_ex (invalidates (''AA'' @ ''/'' @ ''ic_card'')) (fst (v_lock busy_store (store_world loaded_store)))"
    by (simp add: busy_store_def)
  have "scopes loaded_store = []" by code_simp
  moreover have "scopes (fold apply_event (fst (v_lock busy_store (store_world loaded_store)))
      (loaded_store\<lparr>store_world := snd (v_lock busy_store (store_world loaded_store))\<rparr>)) = []"
    by (simp add: busy_store_def forget_all_def)
  ultimately show ?thesis
    using invalidated_read_ignored [OF prod.collapse [symmetric] ev, of sample_inventory True 1] by fastforce
qed

subsection \<open>Loading, reconciling, naming\<close>

definition quiet :: "'w store_env \<Rightarrow> bool" where
  "quiet V \<longleftrightarrow> (\<forall>w. fst (v_lock V w) = [])"

lemma quiet_lock: "quiet V \<Longrightarrow> take_lock V s = (Inr (), s\<lparr>store_world := snd (v_lock V (store_world s))\<rparr>)"
  by (simp add: quiet_def take_lock_def store_step_def eff_defs)

lemma tickets_empty: "fresh s = [] \<Longrightarrow> fresh (fold stale_scope ks s) = []"
  by (induction ks arbitrary: s) (simp_all add: stale_scope_def)

lemma stale_scope_kept [simp]:
  "scopes (fold stale_scope ks s) = scopes s" "legacy_set (fold stale_scope ks s) = legacy_set s"
  "loaded (fold stale_scope ks s) = loaded s" "saved (fold stale_scope ks s) = saved s"
  by (induction ks arbitrary: s) (simp_all add: stale_scope_def)

lemma storage_call_quiet:
  assumes "storage_call f id s = (Inr u, s')"
  shows "\<exists>ks w. s' = fold stale_scope ks (s\<lparr>store_world := w\<rparr>)"
  using assms unfolding storage_call_def store_step_def eff_defs
  by (cases "f (store_world s)") (auto split: prod.splits option.splits)

lemma load_empty:
  assumes "quiet V" and "fresh s = []" and "\<not> loaded s" and "access_load V s = (Inr u, s')"
    and "saved s = Some j" and "valid_data j = Some (sc, lg)"
  shows "scopes s' = sc \<and> legacy_set s' = set lg \<and> fresh s' = [] \<and> loaded s' \<and> saved s' = Some j"
proof -
  let ?s = "s\<lparr>store_world := snd (v_lock V (store_world s))\<rparr>"
  obtain r s1 where call: "storage_call (v_load V) id ?s = (r, s1)" by (metis surj_pair)
  show ?thesis
  proof (cases r)
    case (Inl e)
    with assms call show ?thesis by (simp add: access_load_def quiet_lock eff_defs)
  next
    case (Inr v)
    with call obtain ks w where "s1 = fold stale_scope ks (?s\<lparr>store_world := w\<rparr>)"
      using storage_call_quiet by blast
    then have s1: "saved s1 = Some j" "fresh s1 = []"
      using assms(2,5) by (simp_all add: tickets_empty)
    let ?s2 = "s1\<lparr>scopes := sc, legacy_set := set lg\<rparr>"
    obtain k ts w' where refs: "v_refs_load V (store_world ?s2) = ((k, ts), w')" by (metis surj_pair)
    from assms call Inr s1 refs show ?thesis
      by (cases k) (simp_all add: access_load_def quiet_lock eff_defs store_step_def,
        auto simp: tickets_empty)
  qed
qed

text \<open>
  What the store saved, a restarted integration loads back: the same scopes with the same
  records and labels and the same opt-outs, and with no scope fresh, so nothing read before the
  restart counts as observed.
\<close>

lemma saved_store_reloads:
  assumes "store_ok s" and "quiet V"
    and "access_load V (new_access_store (Some (store_json (scopes s) (legacy_set s))) w) = (Inr u, s')"
  shows "scopes s' = scopes s \<and> legacy_set s' = legacy_set s \<and> fresh s' = []"
proof -
  let ?j = "store_json (scopes s) (legacy_set s)"
  have "valid_data ?j = Some (scopes s, sorted_list_of_set (legacy_set s))"
    using assms(1) by (intro valid_data_json) (simp add: store_ok_def)
  from load_empty [OF assms(2) _ _ assms(3) _ this] assms(1) show ?thesis
    by (simp add: new_access_store_def store_ok_def)
qed

lemma list_all_setdefault:
  "dict_ok d \<Longrightarrow> list_all (\<lambda>(k, v). P v) d \<Longrightarrow> P v \<Longrightarrow> list_all (\<lambda>(k, v). P v) (dict_setdefault k v d)"
  by (simp add: dict_setdefault_def list_all_dict_set split: option.split)

lemma locked_store_ok:
  assumes "store_ok s" and "tokens_ok V" and "items_ok items"
    and "reconcile_locked V lock method scope items ticket s = (r, s')"
  shows "store_ok s'"
proof (cases "dict_get (revision s) scope = Some ticket")
  case False
  with assms show ?thesis by (simp add: reconcile_locked_def eff_defs)
next
  case True
  let ?st = "dict_get_or (scopes s) scope (fresh_scope V s)"
  have new: "scope_ok (fresh_scope V s)"
    using assms(2) by (simp add: fresh_scope_def scope_ok_def tokens_ok_def hex_match_plain)
  then have st: "scope_ok ?st"
    using scope_ok_get [OF assms(1)] by (auto simp: dict_get_or_def split: option.split)
  have base: "dict_ok (dict_setdefault scope (fresh_scope V s) (scopes s))"
      "list_all (\<lambda>(k, st). scope_ok st) (dict_setdefault scope (fresh_scope V s) (scopes s))"
    using assms(1) new by (simp_all add: store_ok_def list_all_setdefault)
  have grown: "scope_ok (?st\<lparr>ss_records := retire_unseen method (lp_seen lp) (lp_records lp)\<rparr>)"
    if "loop_records_ok lp" "length (lp_records lp) \<le> MAX_RECORDS" for lp
    using that st by (simp add: scope_ok_def loop_records_ok_def retire_ok)
  have "list_all record_ok (ss_records ?st)" using st by (simp add: scope_ok_def)
  with reconcile_locked_believed [OF assms(4) True] base grown assms(1-3) show ?thesis
    by (auto simp: believed_def Let_def store_ok_def intro!: list_all_dict_set)
qed

text \<open>
  Claim C32. Whatever a reconciliation does, with any interleaving of tickets, resets,
  removals, names and settings of other tasks and any storage failure, the metadata it leaves passes the schema of the next start, provided
  the random tokens are hex and the SDK keeps to the record types and validities of the schema.
\<close>

theorem reconcile_keeps_loadable:
  assumes "store_ok s" and "tokens_ok V" and "items_ok (ai_records inventory)"
    and "access_reconcile V lock method inventory cleaned (Some ticket) s = (r, s')"
  shows "store_ok s' \<and> valid_data (store_json (scopes s') (legacy_set s'))
    = Some (scopes s', sorted_list_of_set (legacy_set s'))"
proof -
  have "store_ok s'"
    using reconcile_steps [OF assms(4)]
  proof (elim disjE conjE)
    assume "reconcile_locked V lock method (lock @ ''/'' @ method) (ai_records inventory) ticket
      (fold apply_event (fst (v_lock V (store_world s))) (s\<lparr>store_world := snd (v_lock V (store_world s))\<rparr>)) = (r, s')"
    from locked_store_ok [OF _ assms(2,3) this] assms(1) show ?thesis by (simp add: store_ok_events)
  qed (use assms(1) in simp)
  then show ?thesis using valid_data_json by (auto simp: store_ok_def)
qed

definition reconciled_store :: "nat access_store" where
  "reconciled_store = snd (access_reconcile quiet_store ''AA'' ''ic_card'' sample_inventory True (Some 1) loaded_store)"

lemma hex_byte_token: "length (hex_byte b) = 2" "lower_hex (hex_byte b)"
  using lower_hex_bytes [of "[b]"] by (simp_all add: bytes_hex_def hex_byte_def)

lemma quiet_store_tokens: "tokens_ok quiet_store"
proof -
  have "length (concat (replicate n (hex_byte b))) = 2 * n \<and> lower_hex (concat (replicate n (hex_byte b)))" for n b
  proof (induction n)
    case 0
    show ?case by (simp add: lower_hex_def)
  next
    case (Suc n)
    then show ?case by (simp add: hex_byte_token)
  qed
  from this [of 16] show ?thesis by (simp add: tokens_ok_def quiet_store_def)
qed

lemma quiet_store_quiet: "quiet quiet_store"
  by (simp add: quiet_def quiet_store_def)

lemma loaded_store_ok: "store_ok loaded_store"
proof -
  have "scopes loaded_store = []" "legacy_set loaded_store = {}" by code_simp+
  then show ?thesis by (simp add: store_ok_def)
qed

lemma sample_items_ok: "items_ok (ai_records sample_inventory)"
  by (simp add: items_ok_def sample_inventory_def sample_item_def RECORD_TYPES_def VALIDITIES_def)

theorem reconcile_keeps_loadable_witness: "store_ok reconciled_store"
  using reconcile_keeps_loadable [OF loaded_store_ok quiet_store_tokens sample_items_ok prod.collapse [symmetric]]
  unfolding reconciled_store_def by blast

text \<open>A store with one card, read and labelled.\<close>

definition sample_record :: private_record where
  "sample_record = \<lparr>pr_base = replicate 64 CHR ''a'', pr_reference = replicate 32 CHR ''b'',
     pr_record_type = ''card_4byte'', pr_validity = ''permanent'', pr_alias = ''Anna'', pr_active = True\<rparr>"

definition sample_scopes :: "(string, scope_state) dict" where
  "sample_scopes = [(''AA/ic_card'', \<lparr>ss_epoch = replicate 32 CHR ''0'', ss_records = [sample_record]\<rparr>)]"

definition labelled_store :: "nat access_store" where
  "labelled_store = loaded_store\<lparr>scopes := sample_scopes, fresh := [(''AA/ic_card'', 0)],
     observed := [(''AA/ic_card'', {replicate 32 CHR ''b''})]\<rparr>"

lemma labelled_store_ok: "store_ok labelled_store"
proof -
  have "hex_match 32 64 (pr_base sample_record)" "hex_match 32 64 (pr_reference sample_record)"
    "hex_match 32 64 (replicate 32 CHR ''0'')" by code_simp+
  moreover have "legacy_set labelled_store = {}" by code_simp
  ultimately show ?thesis
    by (simp add: store_ok_def labelled_store_def sample_scopes_def scope_ok_def record_ok_def MAX_RECORDS_def
        RECORD_TYPES_def VALIDITIES_def sample_record_def dict_ok_def)
qed

lemma saved_store_reloads_witness:
  "scopes (snd (access_load quiet_store (new_access_store
      (Some (store_json (scopes labelled_store) (legacy_set labelled_store))) 3))) = sample_scopes"
proof -
  let ?load = "access_load quiet_store (new_access_store (Some (store_json (scopes labelled_store) (legacy_set labelled_store))) 3)"
  have empty: "scopes labelled_store = sample_scopes" "legacy_set labelled_store = {}" by code_simp+
  moreover have "fst (access_load quiet_store (new_access_store (Some (store_json sample_scopes {})) 3)) = Inr ()"
    by code_simp
  ultimately have "?load = (Inr (), snd ?load)" by (metis prod.collapse)
  from saved_store_reloads [OF labelled_store_ok quiet_store_quiet this] empty show ?thesis by simp
qed

end
