(* ===== verification/AccessLabels.thy ===== *)
theory AccessLabels
  imports AccessProps
begin

section \<open>References and labels of the access records\<close>

text \<open>
  What the labels of the private store are worth: a reconciliation keeps every reference and
  label it finds, touches no other scope and only calls active what it saw; a name goes to one
  reference that a fresh read observed.
\<close>

definition scope_records :: "'w access_store \<Rightarrow> string \<Rightarrow> private_record list" where
  "scope_records s k = (case dict_get (scopes s) k of None \<Rightarrow> [] | Some st \<Rightarrow> ss_records st)"

text \<open>The store at the moment a task obtains the lock.\<close>

definition locked_store :: "'w store_env \<Rightarrow> 'w access_store \<Rightarrow> 'w access_store" where
  "locked_store V s = fold apply_event (fst (v_lock V (store_world s))) (s\<lparr>store_world := snd (v_lock V (store_world s))\<rparr>)"

lemma take_lock_result: "take_lock V s = (Inr (), locked_store V s)"
  by (simp add: take_lock_def locked_store_def store_step_def eff_defs)

lemma quiet_locked [simp]:
  "quiet V \<Longrightarrow> scopes (locked_store V s) = scopes s" "quiet V \<Longrightarrow> fresh (locked_store V s) = fresh s"
  "quiet V \<Longrightarrow> observed (locked_store V s) = observed s"
  by (simp_all add: quiet_def locked_store_def)

lemma scope_records_get_or: "ss_records (dict_get_or (scopes s) k (fresh_scope V w)) = scope_records s k"
  by (simp add: scope_records_def dict_get_or_def fresh_scope_def split: option.split)

lemma believed_labels:
  assumes "believed V lock m k items s r s'"
  shows "(\<forall>k'. k' \<noteq> k \<longrightarrow> dict_get (scopes s') k' = dict_get (scopes s) k')
    \<and> (\<exists>new. map label (scope_records s' k) = map label (scope_records s k) @ new)"
proof -
  let ?st = "dict_get_or (scopes s) k (fresh_scope V s)"
  let ?base = "dict_setdefault k (fresh_scope V s) (scopes s)"
  from assms consider "scopes s' = ?base"
    | lp where "loop_inv (ss_records ?st) lp"
        "scopes s' = dict_set k (?st\<lparr>ss_records := retire_unseen m (lp_seen lp) (lp_records lp)\<rparr>) ?base"
    by (auto simp: believed_def Let_def)
  then show ?thesis
  proof cases
    case 1
    then show ?thesis
      by (auto simp: scope_records_def fresh_scope_def dict_get_or_def split: option.splits)
  next
    case 2
    then show ?thesis
      by (auto simp: loop_inv_def scope_records_get_or) (simp add: scope_records_def)
  qed
qed

text \<open>
  Claim C26. A reconciliation loses nothing: whatever the read saw and whatever the storage did,
  every reference of the scope is still there, in its place, with its base, its record type and
  its label; new references come after them; no other scope is touched.
\<close>

theorem reconcile_keeps_references:
  assumes "access_reconcile V lock m inventory cleaned (Some ticket) s = (r, s')"
    and "quiet V"
  shows "(\<exists>new. map label (scope_records s' (lock @ ''/'' @ m)) = map label (scope_records s (lock @ ''/'' @ m)) @ new)
    \<and> (\<forall>k. k \<noteq> lock @ ''/'' @ m \<longrightarrow> dict_get (scopes s') k = dict_get (scopes s) k)"
proof -
  from reconcile_steps [OF assms(1)] consider "s' = s"
    | "dict_get (revision s) (lock @ ''/'' @ m) = Some ticket"
      "reconcile_locked V lock m (lock @ ''/'' @ m) (ai_records inventory) ticket (locked_store V s) = (r, s')"
    by (auto simp: locked_store_def)
  then show ?thesis
  proof cases
    case 2
    have "dict_get (revision (locked_store V s)) (lock @ ''/'' @ m) = Some ticket"
      using 2(1) assms(2) by (simp add: locked_store_def quiet_def)
    from believed_labels [OF reconcile_locked_believed [OF 2(2) this]] assms(2) show ?thesis
      by (simp add: scope_records_def)
  qed auto
qed

subsection \<open>Naming\<close>

lemma name_first_spec:
  assumes "name_first obs ref name rs = Some rs'"
  shows "ref \<in> obs \<and> (\<exists>pre r post. rs = pre @ r # post \<and> pr_reference r = ref \<and> pr_active r
    \<and> rs' = pre @ r\<lparr>pr_alias := py_strip name\<rparr> # post)"
  using assms
proof (induction rs arbitrary: rs')
  case (Cons r rs)
  show ?case
  proof (cases "pr_reference r = ref \<and> pr_active r \<and> ref \<in> obs")
    case True
    with Cons.prems show ?thesis by (intro conjI exI [of _ "[]"]) auto
  next
    case False
    with Cons.prems obtain ys where ys: "name_first obs ref name rs = Some ys" "rs' = r # ys"
      by (auto split: if_splits)
    from Cons.IH [OF ys(1)] obtain pre q post where
      "ref \<in> obs" "rs = pre @ q # post" "pr_reference q = ref" "pr_active q"
      "ys = pre @ q\<lparr>pr_alias := py_strip name\<rparr> # post" by blast
    with ys(2) show ?thesis by (intro conjI exI [of _ "r # pre"]) auto
  qed
qed simp

definition named_record :: "string \<Rightarrow> string \<Rightarrow> string \<Rightarrow> 'w access_store \<Rightarrow> 'w access_store \<Rightarrow> bool" where
  "named_record k ref name s s' \<longleftrightarrow> (\<exists>st pre r post. dict_get (scopes s) k = Some st
     \<and> ss_records st = pre @ r # post \<and> pr_reference r = ref \<and> pr_active r
     \<and> scopes s' = dict_set k (st\<lparr>ss_records := pre @ r\<lparr>pr_alias := py_strip name\<rparr> # post\<rparr>) (scopes s))"

lemma snapshot_state:
  assumes "access_snapshot V lock m s = (Inr sn, s')"
  shows "\<exists>w. s' = s\<lparr>store_world := w\<rparr>"
    "sn_fresh sn \<Longrightarrow> \<exists>t. dict_get (fresh s) (lock @ ''/'' @ m) = Some t
       \<and> fst (v_monotonic V (store_world s)) - t < 300"
  using assms
  by (auto simp: access_snapshot_def access_scope_def raise_or_def store_step_def eff_defs scope_fresh_def Let_def
      FRESH_SECONDS_def split: if_splits option.splits intro: exI [of _ "store_world s"])

lemma good_name: "\<not> bad_name name \<longleftrightarrow> length name \<le> 64 \<and> (\<forall>c\<in>set name. 32 \<le> code c)"
  by (auto simp: bad_name_def MAX_NAME_def SPACE_ORDINAL_def list_ex_iff not_less)

text \<open>
  Claim C36. A name is only ever given to a reference that a fresh read observed: when
  \<open>async_name\<close> succeeds the name has at most 64 characters and no control character, the last
  complete read of the scope ended less than 300 seconds before the clock reading of this call,
  the reference is one of the scope's active records and among those that read observed, exactly
  that record changed, only in its label, and the change is saved.
\<close>

theorem name_only_observed:
  assumes "access_name V lock m ref name s = (Inr u, s')"
  shows "length name \<le> 64 \<and> (\<forall>c\<in>set name. 32 \<le> code c)
    \<and> (\<exists>t. dict_get (fresh (locked_store V s)) (lock @ ''/'' @ m) = Some t
         \<and> fst (v_monotonic V (store_world (locked_store V s))) - t < 300)
    \<and> ref \<in> dict_get_or (observed (locked_store V s)) (lock @ ''/'' @ m) {}
    \<and> named_record (lock @ ''/'' @ m) ref name (locked_store V s) s'
    \<and> saved s' = Some (store_json (scopes s') (legacy_set s')) \<and> ref \<in> confirmed s'"
proof -
  let ?k = "lock @ ''/'' @ m"
  let ?s = "locked_store V s"
  from assms have name: "\<not> bad_name name" and scope: "access_scope lock m = Inr ?k"
    by (auto simp: access_name_def access_scope_def raise_or_def eff_defs split: if_splits)
  obtain sn s1 where snap: "access_snapshot V lock m ?s = (Inr sn, s1)"
    using scope by (cases "dict_get (fresh ?s) ?k") (auto simp: access_snapshot_def raise_or_def store_step_def eff_defs)
  note run = assms [unfolded access_name_def]
  from run name scope snap have fresh: "sn_fresh sn"
    by (auto simp: raise_or_def take_lock_result eff_defs split: if_splits)
  from snapshot_state [OF snap] fresh obtain w where
    s1: "s1 = ?s\<lparr>store_world := w\<rparr>"
    and seen: "\<exists>t. dict_get (fresh ?s) ?k = Some t \<and> fst (v_monotonic V (store_world ?s)) - t < 300" by blast
  from run name scope snap fresh obtain st where st: "dict_get (scopes s1) ?k = Some st"
    by (auto simp: raise_or_def take_lock_result eff_defs split: option.splits)
  from run name scope snap fresh st obtain rs where
    rs: "name_first (dict_get_or (observed s1) ?k {}) ref name (ss_records st) = Some rs"
    by (auto simp: raise_or_def take_lock_result eff_defs split: option.splits)
  let ?s2 = "s1\<lparr>scopes := dict_set ?k (st\<lparr>ss_records := rs\<rparr>) (scopes s1)\<rparr>"
  obtain x s3 where save: "save_store V ?s2 = (x, s3)" by (metis surj_pair)
  from run name scope snap fresh st rs save have end_state: "x = Inr () \<and> s' = s3\<lparr>confirmed := insert ref (confirmed s3)\<rparr>"
    by (cases x) (auto simp: raise_or_def take_lock_result eff_defs)
  from name_first_spec [OF rs] st s1 name [unfolded good_name] seen end_state save_result [OF save] show ?thesis
    by (auto simp: named_record_def)
qed

subsection \<open>Concrete runs\<close>

theorem reconcile_keeps_references_witness:
  "\<exists>new. map label (scope_records (snd (access_reconcile quiet_store ''AA'' ''ic_card'' sample_inventory True
      (Some 1) labelled_store)) ''AA/ic_card'') = label sample_record # new"
proof -
  have "map label (scope_records labelled_store ''AA/ic_card'') = [label sample_record]"
    by (simp add: scope_records_def labelled_store_def sample_scopes_def)
  with reconcile_keeps_references [OF prod.collapse [symmetric] quiet_store_quiet,
      of "''AA''" "''ic_card''" sample_inventory True 1 labelled_store] show ?thesis by simp
qed

theorem name_only_observed_witness:
  "named_record ''AA/ic_card'' (replicate 32 CHR ''b'') ''Bea '' (locked_store quiet_store labelled_store)
    (snd (access_name quiet_store ''AA'' ''ic_card'' (replicate 32 CHR ''b'') ''Bea '' labelled_store))"
proof -
  let ?run = "access_name quiet_store ''AA'' ''ic_card'' (replicate 32 CHR ''b'') ''Bea '' labelled_store"
  have "fst ?run = Inr ()" by code_simp
  then have "?run = (Inr (), snd ?run)" by (metis prod.collapse)
  from name_only_observed [OF this] show ?thesis by simp
qed

end
