(* ===== verification/ManagementHttp.thy ===== *)
theory ManagementHttp
  imports Services AccessLabels
begin

section \<open>The administration endpoint (management_http.py)\<close>

text \<open>
  The HTTP boundary of the private metadata: who may use it, what a request may say, and what
  it does with the store of its config entry. The web framework, URL and JSON parsing are
  parameters; a body is the list of what the reads of its stream returned. The inventory read
  of the connection and the storage are the environment of the store (\<open>admin_env\<close>).
\<close>

subsection \<open>Who may ask\<close>

record http_user =
  hu_id :: string
  hu_active :: bool
  hu_admin :: bool
  hu_system :: bool

record refresh_token =
  rt_user :: string
  rt_normal :: bool

type_synonym web_origin = "string \<times> string option \<times> nat option"

record http_request =
  rq_user :: "http_user option"
  rq_token_id :: "string option"
  rq_headers :: "(string, string) dict"
  rq_query :: "(string \<times> string) list"
  rq_url :: web_origin
  rq_content_type :: string
  rq_content_length :: "nat option"
  rq_reads :: "exn + byte list list"

text \<open>
  \<open>wo_parse\<close> is \<open>yarl.URL\<close>: the scheme, host and port of a text and whether it is nothing but an
  origin, or \<open>None\<close> when it raises a \<open>ValueError\<close>.
\<close>

record web_env =
  wo_parse :: "string \<Rightarrow> (web_origin \<times> bool) option"
  wo_token :: "string \<Rightarrow> refresh_token option"
  wo_json :: "byte list \<Rightarrow> json option"

definition header :: "http_request \<Rightarrow> string \<Rightarrow> string \<Rightarrow> string" where
  "header rq name fallback = dict_get_or (rq_headers rq) name fallback"

definition same_origin :: "web_env \<Rightarrow> http_request \<Rightarrow> bool" where
  "same_origin W rq = (case wo_parse W (header rq ''Origin'' []) of
     None \<Rightarrow> False
   | Some (origin, only_origin) \<Rightarrow> only_origin \<and> origin = rq_url rq)"

definition request_token :: "web_env \<Rightarrow> http_request \<Rightarrow> refresh_token option" where
  "request_token W rq = (case rq_token_id rq of
     None \<Rightarrow> None | Some i \<Rightarrow> if i = [] then None else wo_token W i)"

definition authorized :: "web_env \<Rightarrow> http_request \<Rightarrow> bool" where
  "authorized W rq = (case (rq_user rq, request_token W rq) of
     (Some user, Some token) \<Rightarrow>
       hu_active user \<and> hu_admin user \<and> \<not> hu_system user \<and> rt_user token = hu_id user \<and> rt_normal token
       \<and> take 7 (header rq ''Authorization'' []) = ''Bearer '' \<and> rq_query rq = [] \<and> same_origin W rq
       \<and> dict_get (rq_headers rq) ''X-TTLock-Admin'' = Some ''1''
       \<and> header rq ''Sec-Fetch-Site'' ''same-origin'' = ''same-origin''
   | _ \<Rightarrow> False)"

subsection \<open>What a request may say\<close>

definition BODY_LIMIT :: nat where "BODY_LIMIT = 4096"

datatype admin_request =
    AdList
  | AdState string string string
  | AdRead string string string
  | AdName string string string string string
  | AdReset string string string
  | AdLegacy string string string bool

fun id_field :: "json \<Rightarrow> string option" where
  "id_field (JStr s) = (if 1 \<le> length s \<and> length s \<le> 128 then Some s else None)"
| "id_field _ = None"

fun ref_field :: "json \<Rightarrow> string option" where
  "ref_field (JStr s) = (if hex_match 32 32 s then Some s else None)"
| "ref_field _ = None"

fun equal_field :: "string \<Rightarrow> json \<Rightarrow> unit option" where
  "equal_field x (JStr s) = (if s = x then Some () else None)"
| "equal_field x _ = None"

text \<open>The keys every action but \<open>list\<close> requires, and its own.\<close>

definition base_fields :: "string list \<Rightarrow> (string \<times> json) list \<Rightarrow> (string \<times> string \<times> string) option" where
  "base_fields own_keys d = (if exact_keys ([''action'', ''entry_id'', ''lock'', ''method''] @ own_keys) d
     then (case (field id_field d ''entry_id'', field id_field d ''lock'', field (choice_field ACCESS_METHODS) d ''method'') of
       (Some e, Some l, Some m) \<Rightarrow> Some (e, l, m) | _ \<Rightarrow> None)
     else None)"

definition valid_action :: "string \<Rightarrow> (string \<times> json) list \<Rightarrow> admin_request option" where
  "valid_action action d =
     (if action = ''list'' then (if exact_keys [''action''] d then Some AdList else None)
      else if action = ''state'' then map_option (\<lambda>(e, l, m). AdState e l m) (base_fields [] d)
      else if action = ''read'' then map_option (\<lambda>(e, l, m). AdRead e l m) (base_fields [] d)
      else if action = ''name'' then
        (case (base_fields [''reference'', ''name''] d, field ref_field d ''reference'', field (text_field 64) d ''name'') of
          (Some (e, l, m), Some ref, Some name) \<Rightarrow> Some (AdName e l m ref name) | _ \<Rightarrow> None)
      else if action = ''reset'' then
        (case (base_fields [''confirm''] d, field (equal_field ''forget_local_labels'') d ''confirm'') of
          (Some (e, l, m), Some _) \<Rightarrow> Some (AdReset e l m) | _ \<Rightarrow> None)
      else if action = ''legacy'' then
        (case (base_fields [''disabled''] d, field bool_field d ''disabled'') of
          (Some (e, l, m), Some b) \<Rightarrow> Some (AdLegacy e l m b) | _ \<Rightarrow> None)
      else None)"

fun valid_request :: "json \<Rightarrow> admin_request option" where
  "valid_request (JDict d) = (case dict_get d ''action'' of
     Some (JStr action) \<Rightarrow> valid_action action d | _ \<Rightarrow> None)"
| "valid_request _ = None"

text \<open>The reading loop of \<open>_body\<close>; an empty read is the end of the stream.\<close>

fun read_body :: "byte list list \<Rightarrow> byte list \<Rightarrow> byte list option" where
  "read_body [] raw = Some raw"
| "read_body (chunk # chunks) raw =
     (if chunk = [] then Some raw
      else if BODY_LIMIT < length (raw @ chunk) then None
      else read_body chunks (raw @ chunk))"

definition request_body :: "web_env \<Rightarrow> http_request \<Rightarrow> exn + admin_request" where
  "request_body W rq =
     (let invalid = Inl (ValueErr ''Invalid administration request'') in
      if rq_content_type rq \<noteq> ''application/json''
        \<or> BODY_LIMIT < (case rq_content_length rq of None \<Rightarrow> 0 | Some n \<Rightarrow> n) then invalid
      else case rq_reads rq of
        Inl e \<Rightarrow> Inl e
      | Inr chunks \<Rightarrow> (case read_body chunks [] of
          None \<Rightarrow> invalid
        | Some raw \<Rightarrow> (case Option.bind (wo_json W raw) valid_request of
            None \<Rightarrow> invalid | Some req \<Rightarrow> Inr req)))"

subsection \<open>What a request does\<close>

text \<open>
  A config entry as the endpoint sees it: its virtual keys with address, name and whether an
  administrator key is there, its connections by address, and whether its private metadata is
  available.
\<close>

record admin_key =
  ak_mac :: string
  ak_alias :: string
  ak_name :: string
  ak_admin :: bool

record admin_entry =
  ae_id :: string
  ae_domain :: string
  ae_loaded :: bool
  ae_keys :: "admin_key list"
  ae_connections :: "string list"
  ae_records :: bool

definition list_locks :: "admin_entry list \<Rightarrow> json list" where
  "list_locks entries = concat (map (\<lambda>e. map (\<lambda>k. JDict [(''entry_id'', JStr (ae_id e)), (''lock'', JStr (ak_mac k)),
      (''name'', JStr (if ak_alias k \<noteq> [] then ak_alias k else ak_name k)),
      (''admin_key_available'', JBool (ak_admin k))]) (ae_keys e))
     (filter (\<lambda>e. ae_domain e = DOMAIN \<and> ae_loaded e) entries))"

text \<open>\<open>_target\<close>: the store of the state is the one of the entry found.\<close>

definition admin_target :: "admin_entry list \<Rightarrow> string \<Rightarrow> string \<Rightarrow> exn + unit" where
  "admin_target entries entry_id lock = (case find (\<lambda>e. ae_id e = entry_id) entries of
     None \<Rightarrow> Inl (ValueErr ''Entry unavailable'')
   | Some e \<Rightarrow>
       if ae_domain e \<noteq> DOMAIN \<or> \<not> ae_loaded e then Inl (ValueErr ''Entry unavailable'')
       else if \<not> ae_records e \<or> lock \<notin> set (ae_connections e) then Inl (ValueErr ''Lock unavailable'')
       else Inr ())"

text \<open>
  The environment of a request: the storage of its store, the administrative inventory read
  (its outcome, whether the teardown was confirmed afterwards, and what other tasks did to
  the store meanwhile), and the entries.
\<close>

record 'w admin_env =
  ad_store :: "'w store_env"
  ad_read :: "string \<Rightarrow> 'w \<Rightarrow> ((exn + admin_result) \<times> bool \<times> store_event list) \<times> 'w"
  ad_entries :: "admin_entry list"

definition snapshot_json :: "snap \<Rightarrow> (string, json) dict" where
  "snapshot_json sn =
    [(''fresh'', JBool (sn_fresh sn)),
     (''records'', JList (map (\<lambda>r. JDict
       [(''reference'', JStr (sn_reference r)), (''name'', JStr (sn_name r)),
        (''record_type'', JStr (sn_record_type r)), (''validity'', JStr (sn_validity r)),
        (''schedule_verified'', JBool (sn_schedule_verified r)), (''identity_verified'', JBool (sn_identity_verified r)),
        (''present'', case sn_present r of None \<Rightarrow> JNull | Some b \<Rightarrow> JBool b),
        (''observation'', JStr (sn_observation r)), (''revocation_verified'', JBool (sn_revocation_verified r)),
        (''limited_pin_coverage'', JBool (sn_limited_pin_coverage r)), (''stale'', JBool (sn_stale r)),
        (''alias_confirmed_this_session'', JBool (sn_alias_confirmed r))]) (sn_records sn))),
     (''legacy_pin_writes_disabled'', JBool (sn_legacy_disabled sn))]"

definition admin_read ::
  "'w admin_env \<Rightarrow> string \<Rightarrow> string \<Rightarrow> ('w access_store, (string, json) dict) eff" where
  "admin_read A lock m = m_bind (mark_stale lock m) (\<lambda>ticket.
     m_bind (store_step (ad_read A m)) (\<lambda>(outcome, cleaned, events).
       m_then (m_modify (fold apply_event events))
        (m_bind (raise_or outcome) (\<lambda>(inventory, summary).
          m_then (access_reconcile (ad_store A) lock m inventory cleaned (Some ticket))
            (m_return [(''inventory'', JDict (inventory_response m summary))])))))"

text \<open>Everything but \<open>list\<close>: the target, the action, the snapshot.\<close>

definition admin_act ::
  "'w admin_env \<Rightarrow> string \<Rightarrow> string \<Rightarrow> string \<Rightarrow> ('w access_store, (string, json) dict) eff \<Rightarrow>
   ('w access_store, (string, json) dict) eff" where
  "admin_act A entry_id lock m action = m_then (raise_or (admin_target (ad_entries A) entry_id lock))
     (m_bind action (\<lambda>response. m_bind (access_snapshot (ad_store A) lock m) (\<lambda>sn.
       m_return (response @ snapshot_json sn @ [(''new_writes'', JStr ''disabled'')]))))"

definition no_extra :: "('w access_store, unit) eff \<Rightarrow> ('w access_store, (string, json) dict) eff" where
  "no_extra m = m_then m (m_return [])"

fun dispatch :: "'w admin_env \<Rightarrow> admin_request \<Rightarrow> ('w access_store, (string, json) dict) eff" where
  "dispatch A AdList = m_return [(''locks'', JList (list_locks (ad_entries A))),
     (''capabilities'', JDict access_capabilities), (''new_writes'', JStr ''disabled'')]"
| "dispatch A (AdState e l m) = admin_act A e l m (m_return [])"
| "dispatch A (AdRead e l m) = admin_act A e l m (admin_read A l m)"
| "dispatch A (AdName e l m ref name) = admin_act A e l m (no_extra (access_name (ad_store A) l m ref name))"
| "dispatch A (AdReset e l m) = admin_act A e l m (no_extra (access_reset (ad_store A) l m))"
| "dispatch A (AdLegacy e l m b) = admin_act A e l m (no_extra (set_legacy_disabled (ad_store A) l b))"

type_synonym http_response = "nat \<times> (string, json) dict"

definition error_response :: "nat \<Rightarrow> string \<Rightarrow> http_response" where
  "error_response status text = (status, [(''error'', JStr text)])"

text \<open>The handlers of \<open>post\<close>; \<open>vol.Invalid\<close> does not leave \<open>_body\<close>.\<close>

definition post_failed :: "exn \<Rightarrow> ('s, http_response) eff" where
  "post_failed e = (case e of
     ValueErr _ \<Rightarrow> m_return (error_response 400 ''invalid_request_or_stale_reference'')
   | TimeoutErr _ \<Rightarrow> m_return (error_response 400 ''invalid_request_or_stale_reference'')
   | Cancelled \<Rightarrow> m_raise Cancelled
   | _ \<Rightarrow> m_return (error_response 503 ''administration_failed_read_again''))"

definition admin_post :: "web_env \<Rightarrow> 'w admin_env \<Rightarrow> http_request \<Rightarrow> ('w access_store, http_response) eff" where
  "admin_post W A rq =
     (if \<not> authorized W rq then m_return (error_response 403 ''admin_session_required'')
      else m_catch (m_bind (raise_or (request_body W rq)) (\<lambda>req.
          m_bind (dispatch A req) (\<lambda>body. m_return (200, body)))) post_failed)"

end
