(* ===== verification/ManagementProps.thy ===== *)
theory ManagementProps
  imports ManagementHttp
begin

section \<open>Properties of the administration endpoint\<close>

text \<open>
  Nothing happens without an administrator's session and a valid request, failures are three fixed
  answers, and an inventory read that was overtaken by a reset leaves no trace.
\<close>

text \<open>The session the endpoint requires, spelled out.\<close>

definition admin_session :: "web_env \<Rightarrow> http_request \<Rightarrow> bool" where
  "admin_session W rq \<longleftrightarrow> (\<exists>user token i. rq_user rq = Some user \<and> rq_token_id rq = Some i
     \<and> wo_token W i = Some token \<and> hu_active user \<and> hu_admin user \<and> \<not> hu_system user
     \<and> rt_user token = hu_id user \<and> rt_normal token \<and> same_origin W rq \<and> rq_query rq = []
     \<and> dict_get (rq_headers rq) ''X-TTLock-Admin'' = Some ''1'')"

lemma authorized_session: "authorized W rq \<Longrightarrow> admin_session W rq"
  by (auto simp: authorized_def admin_session_def request_token_def split: option.splits if_splits)

definition fixed_errors :: "http_response set" where
  "fixed_errors = {(403, [(''error'', JStr ''admin_session_required'')]),
     (400, [(''error'', JStr ''invalid_request_or_stale_reference'')]),
     (503, [(''error'', JStr ''administration_failed_read_again'')])}"

lemma post_failed_fixed:
  "post_failed e s = (r, s') \<Longrightarrow> s' = s \<and> (case r of Inl x \<Rightarrow> x = Cancelled | Inr resp \<Rightarrow> resp \<in> fixed_errors)"
  by (cases e) (auto simp: post_failed_def eff_defs error_response_def fixed_errors_def)


subsection \<open>Reads that were overtaken\<close>

lemma mark_stale_result:
  assumes "m \<in> set ACCESS_METHODS"
  shows "mark_stale lock m s = (Inr (ticket_of (lock @ ''/'' @ m) s + 1), stale_scope (lock @ ''/'' @ m) s)"
  using assms by (simp add: mark_stale_def access_scope_def raise_or_def eff_defs dict_get_or_def)

text \<open>What the tasks did that ran while the lock was read.\<close>

definition read_events :: "'w admin_env \<Rightarrow> string \<Rightarrow> 'w \<Rightarrow> store_event list" where
  "read_events A m w = snd (snd (fst (ad_read A m w)))"

text \<open>
  Claim C27. An administrative read that is overtaken is forgotten: if, while the lock was being
  read, another read of the same credentials began, or an administrator reset their labels, or
  the config entry was removed, then the result changes nothing: the store is exactly what
  those actions left, so forgotten references do not come back.
\<close>

theorem overtaken_read_forgotten:
  assumes "m \<in> set ACCESS_METHODS"
    and "list_ex (invalidates (lock @ ''/'' @ m)) (read_events A m (store_world s))"
    and "admin_read A lock m s = (r, s')"
  shows "s' = fold apply_event (read_events A m (store_world s))
    ((stale_scope (lock @ ''/'' @ m) s)\<lparr>store_world := snd (ad_read A m (store_world s))\<rparr>)"
proof -
  let ?k = "lock @ ''/'' @ m" and ?es = "read_events A m (store_world s)"
  let ?s1 = "(stale_scope ?k s)\<lparr>store_world := snd (ad_read A m (store_world s))\<rparr>"
  obtain outcome cleaned where read: "fst (ad_read A m (store_world s)) = (outcome, cleaned, ?es)"
    by (metis prod.collapse read_events_def)
  have world: "store_world (stale_scope ?k s) = store_world s" by (simp add: stale_scope_def)
  have run: "admin_read A lock m s = (m_bind (raise_or outcome) (\<lambda>(inventory, summary).
      m_then (access_reconcile (ad_store A) lock m inventory cleaned (Some (ticket_of ?k s + 1)))
        (m_return [(''inventory'', JDict (inventory_response m summary))]))) (fold apply_event ?es ?s1)"
    using assms(1) read world by (simp add: admin_read_def mark_stale_result store_step_def eff_defs)
  have "dict_get (revision ?s1) ?k = Some (ticket_of ?k s + 1)" by simp
  from events_ticket [OF this, of ?es] assms(2)
  have "dict_get (revision (fold apply_event ?es ?s1)) ?k \<noteq> Some (ticket_of ?k s + 1)"
    by (auto simp: list_ex_iff)
  then have "access_reconcile (ad_store A) lock m inventory cleaned (Some (ticket_of ?k s + 1)) (fold apply_event ?es ?s1)
      = (Inr (), fold apply_event ?es ?s1)" for inventory
    using assms(1) by (simp add: access_reconcile_def access_scope_def raise_or_def eff_defs)
  with run assms(3) show ?thesis
    by (cases outcome) (auto simp: raise_or_def eff_defs split: prod.splits)
qed

subsection \<open>Concrete runs\<close>

definition sample_web :: "json \<Rightarrow> web_env" where
  "sample_web j = \<lparr>wo_parse = (\<lambda>t. if t = ''https://ha'' then Some ((''https'', Some ''ha'', Some 443), True) else None),
     wo_token = (\<lambda>i. if i = ''t1'' then Some \<lparr>rt_user = ''u1'', rt_normal = True\<rparr> else None), wo_json = (\<lambda>raw. Some j)\<rparr>"

definition sample_request :: http_request where
  "sample_request = \<lparr>rq_user = Some \<lparr>hu_id = ''u1'', hu_active = True, hu_admin = True, hu_system = False\<rparr>,
     rq_token_id = Some ''t1'', rq_headers = [(''Origin'', ''https://ha''), (''Authorization'', ''Bearer x''),
       (''X-TTLock-Admin'', ''1'')], rq_query = [], rq_url = (''https'', Some ''ha'', Some 443),
     rq_content_type = ''application/json'', rq_content_length = Some 80, rq_reads = Inr [replicate 80 0, []]\<rparr>"

definition sample_admin :: "store_event list \<Rightarrow> nat admin_env" where
  "sample_admin evs = \<lparr>ad_store = quiet_store,
     ad_read = (\<lambda>m w. ((Inr (sample_inventory, \<lparr>iv_entries = [], iv_reason = ''complete'', iv_reason_complete = True, iv_complete = True,
       iv_skipped = 0, iv_interrupted = False, iv_limitation = JNull, iv_diagnostic = None\<rparr>), True, evs), w)),
     ad_entries = [\<lparr>ae_id = ''e1'', ae_domain = DOMAIN, ae_loaded = True, ae_keys = [],
       ae_connections = [''AA''], ae_records = True\<rparr>]\<rparr>"

definition reset_json :: json where
  "reset_json = JDict [(''action'', JStr ''reset''), (''entry_id'', JStr ''e1''), (''lock'', JStr ''AA''),
     (''method'', JStr ''ic_card''), (''confirm'', JStr ''forget_local_labels'')]"


theorem overtaken_read_forgotten_witness:
  "scopes (snd (admin_read (sample_admin [SvReset ''AA/ic_card'' True]) ''AA'' ''ic_card'' labelled_store)) = []
    \<and> scopes labelled_store = sample_scopes"
proof -
  let ?A = "sample_admin [SvReset ''AA/ic_card'' True]"
  have evs: "read_events ?A ''ic_card'' w = [SvReset ''AA/ic_card'' True]" for w
    by (simp add: read_events_def sample_admin_def)
  have "''ic_card'' \<in> set ACCESS_METHODS" by (simp add: ACCESS_METHODS_def)
  moreover have "list_ex (invalidates (''AA'' @ ''/'' @ ''ic_card'')) (read_events ?A ''ic_card'' (store_world labelled_store))"
    by (simp add: evs)
  ultimately have "snd (admin_read ?A ''AA'' ''ic_card'' labelled_store) = fold apply_event [SvReset ''AA/ic_card'' True]
      ((stale_scope (''AA'' @ ''/'' @ ''ic_card'') labelled_store)\<lparr>store_world := snd (ad_read ?A ''ic_card'' (store_world labelled_store))\<rparr>)"
    using overtaken_read_forgotten [OF _ _ prod.collapse [symmetric]] evs by metis
  moreover have "scopes labelled_store = sample_scopes" by code_simp
  ultimately show ?thesis
    by (simp add: forget_scope_def stale_scope_def Let_def sample_scopes_def)
qed

end
