(* ===== verification/AdminRuns.thy ===== *)
theory AdminRuns
  imports ManagementProps House
begin

section \<open>An administrative read on its connection (management\_http.py, connection.py, access\_records.py)\<close>

text \<open>
  The environment of an administration request put together with the connection it reads: the
  world of the store holds the connection of the lock, \<open>ad_read\<close> is the connection's own
  \<open>get_administrative_inventory\<close>, and \<open>cleaned\<close> is what its diagnostics say afterwards.
\<close>

subsection \<open>The composed environment\<close>

definition beside :: "('v \<Rightarrow> 'a \<times> 'v) \<Rightarrow> 'v \<times> 'c \<Rightarrow> 'a \<times> ('v \<times> 'c)" where
  "beside f = (\<lambda>(v, c). case f v of (a, v') \<Rightarrow> (a, (v', c)))"

definition store_beside :: "'v store_env \<Rightarrow> ('v \<times> 'c) store_env" where
  "store_beside V = \<lparr>v_lock = beside (v_lock V), v_save = beside (v_save V), v_load = beside (v_load V),
     v_remove = beside (v_remove V), v_refs_load = beside (v_refs_load V), v_refs_remove = beside (v_refs_remove V),
     v_monotonic = beside (v_monotonic V), v_token_hex = beside (v_token_hex V)\<rparr>"

lemma store_beside_sel:
  "v_lock (store_beside V) = beside (v_lock V)" "v_save (store_beside V) = beside (v_save V)"
  "v_token_hex (store_beside V) = beside (v_token_hex V)" "v_monotonic (store_beside V) = beside (v_monotonic V)"
  by (simp_all add: store_beside_def)

text \<open>\<open>connection.inventory_diagnostics.get("cleanup_confirmed") is True\<close>\<close>

definition cleanup_confirmed :: "'w conn \<Rightarrow> bool" where
  "cleanup_confirmed c \<longleftrightarrow> dict_get (inventory_diag c) ''cleanup_confirmed'' = Some (DBool True)"

definition connection_read ::
  "'w env \<Rightarrow> ('v \<Rightarrow> store_event list \<times> 'v) \<Rightarrow> string \<Rightarrow> 'v \<times> 'w conn \<Rightarrow>
   ((exn + admin_result) \<times> bool \<times> store_event list) \<times> ('v \<times> 'w conn)" where
  "connection_read E others m = (\<lambda>(v, c). case get_administrative_inventory E m c of (outcome, c') \<Rightarrow>
     (case others v of (events, v') \<Rightarrow> ((outcome, cleanup_confirmed c', events), (v', c'))))"

definition connected_admin ::
  "'w env \<Rightarrow> 'v store_env \<Rightarrow> ('v \<Rightarrow> store_event list \<times> 'v) \<Rightarrow> admin_entry list \<Rightarrow> ('v \<times> 'w conn) admin_env" where
  "connected_admin E V others entries =
     \<lparr>ad_store = store_beside V, ad_read = connection_read E others, ad_entries = entries\<rparr>"

subsection \<open>What the store does leaves the connection alone\<close>

definition conn_is :: "'c \<Rightarrow> ('v \<times> 'c) access_store \<Rightarrow> bool" where
  "conn_is c s \<longleftrightarrow> snd (store_world s) = c"

lemma conn_is_frame [simp]:
  "conn_is c (s\<lparr>scopes := sc\<rparr>) = conn_is c s" "conn_is c (s\<lparr>saved := j\<rparr>) = conn_is c s"
  "conn_is c (s\<lparr>confirmed := cf\<rparr>) = conn_is c s" "conn_is c (s\<lparr>fresh := f\<rparr>) = conn_is c s"
  "conn_is c (s\<lparr>observed := ob\<rparr>) = conn_is c s" "conn_is c (s\<lparr>legacy_set := lg\<rparr>) = conn_is c s"
  "conn_is c (s\<lparr>revision := rv\<rparr>) = conn_is c s" "conn_is c (s\<lparr>refs_key := key\<rparr>) = conn_is c s"
  "conn_is c (s\<lparr>loaded := b\<rparr>) = conn_is c s"
  "conn_is c (stale_scope k s) = conn_is c s"
  by (simp_all add: conn_is_def stale_scope_def)

lemma conn_is_tickets [simp]: "conn_is c (fold stale_scope ks s) = conn_is c s"
  by (induction ks arbitrary: s) simp_all

lemma conn_is_event [simp]: "conn_is c (apply_event e s) = conn_is c s"
  by (cases e) (auto simp: forget_scope_def forget_all_def name_scope_def Let_def split: option.split)

lemma conn_is_events [simp]: "conn_is c (fold apply_event es s) = conn_is c s"
  by (induction es arbitrary: s) simp_all

lemma keeps_store_step [keeps_intros]: "keeps (conn_is c) (store_step (beside f))"
  by (auto simp: keeps_def store_step_def conn_is_def beside_def split: prod.splits)

lemma keeps_sum [keeps_intros]:
  "(\<And>a. keeps I (f a)) \<Longrightarrow> (\<And>b. keeps I (g b)) \<Longrightarrow> keeps I (case x of Inl a \<Rightarrow> f a | Inr b \<Rightarrow> g b)"
  by (cases x) simp_all

lemma keeps_prod [keeps_intros]: "(\<And>a b. keeps I (f a b)) \<Longrightarrow> keeps I (case x of (a, b) \<Rightarrow> f a b)"
  by (cases x) simp

lemma keeps_let [keeps_intros]: "(\<And>a. keeps I (f a)) \<Longrightarrow> keeps I (let a = x in f a)"
  by simp

lemma keeps_raise_or [keeps_intros]: "keeps I (raise_or r)"
  unfolding raise_or_def by (intro keeps_intros)

lemma keeps_save [keeps_intros]: "keeps (conn_is c) (save_store (store_beside V))"
  unfolding save_store_def storage_call_def store_beside_sel by (intro keeps_intros keeps_modify; simp)

lemma keeps_observe [keeps_intros]: "keeps (conn_is c) (observe_items (store_beside V) lock m epoch d its lp)"
proof (induction its arbitrary: lp)
  case (Cons it its)
  have "keeps (conn_is c) (observe_item (store_beside V) lock m epoch d it lp)"
    unfolding observe_item_def store_beside_sel by (intro keeps_intros)
  with Cons.IH show ?case by (simp add: keeps_bind)
qed (simp add: keeps_return)

lemma keeps_reconcile: "keeps (conn_is c) (access_reconcile (store_beside V) lock m inventory cleaned (Some t))"
proof -
  have locked: "keeps (conn_is c) (reconcile_locked (store_beside V) lock m k items ticket)" for k items ticket
    unfolding reconcile_locked_def store_beside_sel by (intro keeps_intros keeps_modify; simp)
  show ?thesis
    unfolding access_reconcile_def take_lock_def store_beside_sel option.case
    by (intro keeps_intros keeps_modify locked; simp)
qed

lemma snapshot_world: "access_snapshot V lock m s = (x, s') \<Longrightarrow> \<exists>w. s' = s\<lparr>store_world := w\<rparr>"
  by (auto simp: access_snapshot_def access_scope_def raise_or_def store_step_def eff_defs
      split: if_splits intro: exI [of _ "store_world s"])

lemma keeps_snapshot: "keeps (conn_is c) (access_snapshot (store_beside V) lock m)"
  unfolding access_snapshot_def store_beside_sel by (intro keeps_intros)

subsection \<open>A scope that became fresh\<close>

lemma events_fresh: "dict_get (fresh s) k = None \<Longrightarrow> dict_get (fresh (fold apply_event es s)) k = None"
proof (induction es arbitrary: s)
  case (Cons e es)
  have "dict_get (fresh (apply_event e s)) k = None"
    using Cons.prems
    by (cases e) (auto simp: stale_scope_def forget_scope_def forget_all_def name_scope_def Let_def split: option.split)
  with Cons.IH show ?case by simp
qed simp

lemma reconcile_refused: "\<not> cleaned \<or> \<not> ai_complete inventory \<Longrightarrow>
   access_reconcile V lock m inventory cleaned (Some t) s = (r, s') \<Longrightarrow> s' = s"
  by (auto simp: access_reconcile_def access_scope_def raise_or_def eff_defs split: if_splits)

lemma administrative_honest:
  assumes "at_rest c" and "get_administrative_inventory E m c = (Inr res, c')" and "cleanup_confirmed c'"
  shows "owned c' = None"
  using read_result_honest [OF assms(1) assms(2) [unfolded get_administrative_inventory_def]] assms(3)
  by (simp add: diag_honest_def cleanup_confirmed_def)

lemma admin_read_closed:
  assumes "at_rest (snd (store_world s))" and "m \<in> set ACCESS_METHODS"
    and "admin_read (connected_admin E V others entries) lock m s = (r, s')"
  shows "at_rest (snd (store_world s'))
    \<and> (dict_get (fresh s') (lock @ ''/'' @ m) \<noteq> None \<longrightarrow> owned (snd (store_world s')) = None
        \<and> (\<exists>inventory summary. get_administrative_inventory E m (snd (store_world s))
            = (Inr (inventory, summary), snd (store_world s')) \<and> ai_complete inventory))"
proof -
  let ?k = "lock @ ''/'' @ m"
  obtain v c where w: "store_world s = (v, c)" by force
  obtain outcome c' where read: "get_administrative_inventory E m c = (outcome, c')" by force
  obtain es v' where oth: "others v = (es, v')" by force
  let ?s1 = "fold apply_event es ((stale_scope ?k s)\<lparr>store_world := (v', c')\<rparr>)"
  have conn1: "conn_is c' ?s1" by simp (simp add: conn_is_def)
  have stale: "dict_get (fresh ?s1) ?k = None"
    by (rule events_fresh) (simp add: stale_scope_def)
  have rest: "at_rest c'"
    using triple_result [OF start_rest rest_refl read [unfolded get_administrative_inventory_def], of 0] assms(1) w
    by (cases outcome) (auto dest: rest_at_rest)
  have run: "admin_read (connected_admin E V others entries) lock m s = m_bind (raise_or outcome) (\<lambda>(inventory, summary).
      m_then (access_reconcile (store_beside V) lock m inventory (cleanup_confirmed c') (Some (ticket_of ?k s + 1)))
        (m_return [(''inventory'', JDict (inventory_response m summary))])) ?s1"
    using w read oth
    by (simp add: admin_read_def mark_stale_result [OF assms(2)] store_step_def eff_defs connected_admin_def
        connection_read_def) (simp add: stale_scope_def)
  show ?thesis
  proof (cases outcome)
    case (Inl e)
    with run assms(3) have "s' = ?s1" by (auto simp: raise_or_def eff_defs)
    with conn1 stale rest show ?thesis by (simp add: conn_is_def)
  next
    case (Inr res)
    obtain inventory summary where res: "res = (inventory, summary)" by force
    obtain q s2 where rec: "access_reconcile (store_beside V) lock m inventory (cleanup_confirmed c')
        (Some (ticket_of ?k s + 1)) ?s1 = (q, s2)" by force
    with run assms(3) Inr res have s': "s' = s2" by (auto simp: raise_or_def eff_defs split: sum.splits)
    have conn2: "snd (store_world s2) = c'"
      using keepsD [OF keeps_reconcile conn1 rec] by (simp add: conn_is_def)
    show ?thesis
    proof (cases "cleanup_confirmed c' \<and> ai_complete inventory")
      case True
      with administrative_honest [of c E m res c'] assms(1) w read Inr res rest s' conn2 show ?thesis by auto
    next
      case False
      then have "s2 = ?s1" using reconcile_refused [OF _ rec] by blast
      with stale s' rest conn2 show ?thesis by simp
    qed
  qed
qed

text \<open>
  Claim C14. Labels only become current through a read that was closed: whatever the outcome of a
  \<open>read\<close> request on an existing lock, and whatever other tasks did to the store meanwhile, if
  the scope is fresh afterwards then this very read of the connection returned a complete
  inventory, its session is closed and no client of the lock is owned; and the connection is at
  rest in every case.
\<close>

theorem fresh_labels_read_closed:
  assumes "at_rest (snd (store_world s))" and "m \<in> set ACCESS_METHODS"
    and "admin_target entries entry_id lock = Inr ()"
    and "dispatch (connected_admin E V others entries) (AdRead entry_id lock m) s = (r, s')"
  shows "at_rest (snd (store_world s'))
    \<and> (dict_get (fresh s') (lock @ ''/'' @ m) \<noteq> None \<longrightarrow> owned (snd (store_world s')) = None
        \<and> (\<exists>inventory summary. get_administrative_inventory E m (snd (store_world s))
            = (Inr (inventory, summary), snd (store_world s')) \<and> ai_complete inventory))"
proof -
  obtain q s1 where read: "admin_read (connected_admin E V others entries) lock m s = (q, s1)" by force
  note closed = admin_read_closed [OF assms(1,2) read]
  show ?thesis
  proof (cases q)
    case (Inl e)
    with assms(3,4) read have "s' = s1" by (simp add: admin_act_def connected_admin_def raise_or_def eff_defs)
    with closed show ?thesis by simp
  next
    case (Inr resp)
    obtain x s2 where snap: "access_snapshot (store_beside V) lock m s1 = (x, s2)" by force
    with Inr assms(3,4) read have "s' = s2"
      by (auto simp: admin_act_def connected_admin_def raise_or_def eff_defs split: sum.splits)
    moreover have "\<exists>w. s2 = s1\<lparr>store_world := w\<rparr>"
      by (rule snapshot_world [OF snap])
    moreover have "conn_is (snd (store_world s1)) s2"
      using keepsD [OF keeps_snapshot _ snap] by (simp add: conn_is_def)
    ultimately show ?thesis using closed by (auto simp: conn_is_def)
  qed
qed

subsection \<open>A concrete run\<close>

definition sample_admin_result :: admin_result where
  "sample_admin_result = (\<lparr>ai_complete = True, ai_records = []\<rparr>,
     \<lparr>iv_entries = [], iv_reason = ''complete'', iv_reason_complete = True, iv_complete = True, iv_skipped = 0,
      iv_interrupted = False, iv_limitation = JNull, iv_diagnostic = None\<rparr>)"

definition sample_admin_env :: "nat env" where
  "sample_admin_env = sample_env\<lparr>e_admin_inventory := (\<lambda>g m w. ((Inr sample_admin_result, []), w))\<rparr>"

definition sample_admin_state :: "(nat \<times> nat conn) access_store" where
  "sample_admin_state = (new_access_store None (1, sample_conn))\<lparr>loaded := True, refs_key := Some (replicate 32 7)\<rparr>"

theorem fresh_labels_read_closed_witness:
  "dict_get (fresh (snd (dispatch (connected_admin sample_admin_env quiet_store (Pair []) (ad_entries (sample_admin [])))
      (AdRead ''e1'' ''AA'' ''ic_card'') sample_admin_state))) ''AA/ic_card'' \<noteq> None
   \<and> owned (snd (store_world (snd (dispatch (connected_admin sample_admin_env quiet_store (Pair []) (ad_entries (sample_admin [])))
      (AdRead ''e1'' ''AA'' ''ic_card'') sample_admin_state)))) = None"
proof -
  let ?run = "dispatch (connected_admin sample_admin_env quiet_store (Pair []) (ad_entries (sample_admin [])))
      (AdRead ''e1'' ''AA'' ''ic_card'') sample_admin_state"
  have rest: "at_rest (snd (store_world sample_admin_state))"
    using sample_rest by (simp add: sample_admin_state_def new_access_store_def)
  have m: "''ic_card'' \<in> set ACCESS_METHODS" by (simp add: ACCESS_METHODS_def)
  have target: "admin_target (ad_entries (sample_admin [])) ''e1'' ''AA'' = Inr ()" by code_simp
  define c' where "c' = snd (get_administrative_inventory sample_admin_env ''ic_card'' sample_conn)"
  have "fst (get_administrative_inventory sample_admin_env ''ic_card'' sample_conn) = Inr sample_admin_result" by code_simp
  then have read: "get_administrative_inventory sample_admin_env ''ic_card'' sample_conn = (Inr sample_admin_result, c')"
    unfolding c'_def by (metis prod.collapse)
  have closed: "cleanup_confirmed c'" unfolding c'_def by code_simp
  have fresh: "dict_get (fresh (snd ?run)) ''AA/ic_card'' \<noteq> None"
    by (simp add: admin_act_def target connected_admin_def admin_read_def mark_stale_def access_scope_def m raise_or_def
        eff_defs store_step_def connection_read_def sample_admin_state_def new_access_store_def stale_scope_def
        read closed sample_admin_result_def access_reconcile_def take_lock_def store_beside_sel beside_def
        reconcile_locked_def save_store_def storage_call_def quiet_store_def dict_get_or_def dict_setdefault_def
        MAX_RECORDS_def active_index_def retire_unseen_def unseen_references_def access_snapshot_def Let_def)
  from fresh_labels_read_closed [OF rest m target prod.collapse [symmetric],
      of sample_admin_env quiet_store "Pair []"] fresh show ?thesis by simp
qed

end
