(* ===== verification/AccessIdentity.thy ===== *)
theory AccessIdentity
  imports AccessLabels
begin

section \<open>A label follows its credential (access\_records.py, credential\_references.py)\<close>

text \<open>
  What the references are for: a credential that was named is recognised by a later read, also
  after a restart, under the same reference and with the same name. Here the saved store, the
  private key, the derivation of the base and the loop of the reconciliation come together.
\<close>

subsection \<open>The index of the loop\<close>

definition indexed :: "string \<Rightarrow> string \<Rightarrow> private_record \<Rightarrow> bool" where
  "indexed m b r \<longleftrightarrow> (pr_active r \<or> m = ''keypad_pin'') \<and> pr_base r = b"

lemma index_fold_other:
  assumes "list_all (\<lambda>(i, r). \<not> indexed m b r) ps"
  shows "dict_get (fold (\<lambda>(i, r) d. if pr_active r \<or> m = ''keypad_pin'' then dict_set (pr_base r) i d else d) ps d) b
    = dict_get d b"
  using assms by (induction ps arbitrary: d) (auto simp: indexed_def)

text \<open>The last record of a base that is active, or belongs to the keypad, is the one the loop finds.\<close>

lemma active_index_last:
  assumes "indexed m b r" and "list_all (\<lambda>q. \<not> indexed m b q) post"
  shows "dict_get (active_index m (pre @ r # post)) b = Some (length pre)"
proof -
  have "list_all (\<lambda>(i, q). \<not> indexed m b q) (enumerate (Suc (length pre)) post)"
    using assms(2) by (auto simp: list_all_iff in_set_enumerate_eq)
  from index_fold_other [OF this] assms(1) show ?thesis
    by (simp add: active_index_def enumerate_append_eq indexed_def)
qed

subsection \<open>What the loop observes\<close>

definition item_base :: "byte list option \<Rightarrow> string \<Rightarrow> string \<Rightarrow> string \<Rightarrow> inventory_item \<Rightarrow> exn + string" where
  "item_base key lock m epoch it = from_verified_record key lock m (epoch @ ''/'' @ it_record_type it) (it_identifier it)"

lemma observe_item_result:
  assumes "observe_item V lock m epoch d it lp s = (Inr lp', s')" and "index_ok d rs0" and "loop_inv rs0 lp"
  shows "refs_key s' = refs_key s \<and> loop_inv rs0 lp' \<and> lp_observed lp \<subseteq> lp_observed lp'
    \<and> (\<forall>b i. item_base (refs_key s) lock m epoch it = Inr b \<and> dict_get d b = Some i \<longrightarrow>
        pr_reference (lp_records lp ! i) \<in> lp_observed lp')"
  using assms(1) loop_index [OF assms(2,3)] loop_inv_update [OF assms(3)] loop_inv_append [OF assms(3)]
  by (auto simp: observe_item_def item_base_def raise_or_def eff_defs store_step_def Let_def
      split: sum.splits option.splits)

lemma loop_reference:
  assumes "index_ok d rs0" and "loop_inv rs0 lp" and "dict_get d b = Some i"
  shows "pr_reference (lp_records lp ! i) = pr_reference (rs0 ! i)"
proof -
  from assms(2) obtain new where new: "map label (lp_records lp) = map label rs0 @ new"
    by (auto simp: loop_inv_def)
  have i: "i < length rs0" using assms(1,3) by (auto simp: index_ok_def)
  have "i < length (lp_records lp)" by (rule loop_index(1) [OF assms])
  with arg_cong [OF new, of "\<lambda>xs. xs ! i"] i have "label (lp_records lp ! i) = label (rs0 ! i)"
    by (simp add: nth_append)
  then show ?thesis by (simp add: label_def)
qed

lemma observe_items_known:
  assumes "observe_items V lock m epoch d its lp s = (Inr lp', s')" and "index_ok d rs0" and "loop_inv rs0 lp"
  shows "lp_observed lp \<subseteq> lp_observed lp'
    \<and> (\<forall>it\<in>set its. \<forall>b i. item_base (refs_key s) lock m epoch it = Inr b \<and> dict_get d b = Some i \<longrightarrow>
        pr_reference (rs0 ! i) \<in> lp_observed lp')"
  using assms(1,3)
proof (induction its arbitrary: lp s)
  case (Cons it its)
  from Cons.prems(1) obtain lp1 s1 where one: "observe_item V lock m epoch d it lp s = (Inr lp1, s1)"
    and more_items: "observe_items V lock m epoch d its lp1 s1 = (Inr lp', s')"
    by (auto simp: eff_defs split: prod.splits sum.splits)
  note first = observe_item_result [OF one assms(2) Cons.prems(2)]
  from Cons.IH [OF more_items] first have tail: "lp_observed lp1 \<subseteq> lp_observed lp'"
    "\<forall>it\<in>set its. \<forall>b i. item_base (refs_key s) lock m epoch it = Inr b \<and> dict_get d b = Some i \<longrightarrow>
        pr_reference (rs0 ! i) \<in> lp_observed lp'" by auto
  with first loop_reference [OF assms(2) Cons.prems(2)] show ?case by fastforce
qed (simp add: eff_defs)

subsection \<open>Recognition\<close>

lemma believed_recognises:
  assumes "believed V lock m k items s (Inr ()) s'" and "dict_get (fresh s') k = Some t" and "dict_get (fresh s) k = None"
    and "dict_get (scopes s) k = Some st" and "ss_records st = pre @ r # post" and "it \<in> set items"
    and "item_base (refs_key s) lock m (ss_epoch st) it = Inr b"
    and "indexed m b r" and "list_all (\<lambda>q. \<not> indexed m b q) post"
  shows "pr_reference r \<in> dict_get_or (observed s') k {} \<and> label r \<in> set (map label (scope_records s' k))"
proof -
  have st: "dict_get_or (scopes s) k (fresh_scope V s) = st" using assms(4) by (simp add: dict_get_or_def)
  from assms(1-3) obtain lp s1 s2 where keys: "refs_key s1 = refs_key s"
    and loop: "observe_items V lock m (ss_epoch st) (active_index m (ss_records st)) items
        \<lparr>lp_records = ss_records st, lp_seen = {}, lp_observed = {}\<rparr> s1 = (Inr lp, s2)"
    and obs: "dict_get (observed s') k = Some (lp_observed lp)"
    by (auto simp: believed_def Let_def st)
  have inv: "loop_inv (ss_records st) \<lparr>lp_records = ss_records st, lp_seen = {}, lp_observed = {}\<rparr>"
    by (simp add: loop_inv_def active_observed_def)
  have "dict_get (active_index m (ss_records st)) b = Some (length pre)"
    unfolding assms(5) by (rule active_index_last [OF assms(8,9)])
  with observe_items_known [OF loop active_index_ok inv] assms(5-7) keys obs
  have "pr_reference r \<in> dict_get_or (observed s') k {}" by (fastforce simp: dict_get_or_def)
  moreover have "label r \<in> set (map label (scope_records s k))"
    using assms(4,5) by (simp add: scope_records_def)
  moreover obtain new where "map label (scope_records s' k) = map label (scope_records s k) @ new"
    using believed_labels [OF assms(1)] by blast
  ultimately show ?thesis by (simp del: set_map)
qed

text \<open>
  Claim C15. A label follows its credential across a restart. Let a record of a scope, the last one of
  its base that is active (any one, for the keypad), carry a reference and a name. After the
  integration was restarted, with the stored metadata and the same private key, a fresh believed
  read that lists a credential of that base observes the very same reference, and the reference
  still has its name. (No other task works on the store meanwhile.)
\<close>

theorem label_follows_credential:
  assumes "store_ok s" and "quiet V"
    and "access_load V (new_access_store (Some (store_json (scopes s) (legacy_set s))) w) = (Inr u, s1)"
    and "refs_key s1 = refs_key s"
    and "mark_stale lock m s1 = (Inr ticket, s2)"
    and "access_reconcile V lock m inventory True (Some ticket) s2 = (Inr v, s3)"
    and "dict_get (fresh s3) (lock @ ''/'' @ m) \<noteq> None"
    and "dict_get (scopes s) (lock @ ''/'' @ m) = Some st" and "ss_records st = pre @ r # post"
    and "it \<in> set (ai_records inventory)" and "item_base (refs_key s) lock m (ss_epoch st) it = Inr b"
    and "indexed m b r" and "list_all (\<lambda>q. \<not> indexed m b q) post"
  shows "pr_reference r \<in> dict_get_or (observed s3) (lock @ ''/'' @ m) {}
    \<and> label r \<in> set (map label (scope_records s3 (lock @ ''/'' @ m)))"
proof -
  let ?k = "lock @ ''/'' @ m"
  have "valid_data (store_json (scopes s) (legacy_set s)) = Some (scopes s, sorted_list_of_set (legacy_set s))"
    using assms(1) by (intro valid_data_json) (simp add: store_ok_def)
  from load_empty [OF assms(2) _ _ assms(3) _ this]
  have s1: "scopes s1 = scopes s" "fresh s1 = []" by (simp_all add: new_access_store_def)
  from assms(5) have s2: "s2 = stale_scope ?k s1"
    by (auto simp: mark_stale_def access_scope_def raise_or_def eff_defs split: if_splits)
  then have f2: "scopes s2 = scopes s" "fresh s2 = []" "refs_key s2 = refs_key s"
    using s1 assms(4) by (simp_all add: stale_scope_def)
  from reconcile_steps [OF assms(6)] f2(2) assms(7) have
    tick: "dict_get (revision s2) ?k = Some ticket"
    and run: "reconcile_locked V lock m ?k (ai_records inventory) ticket (locked_store V s2) = (Inr v, s3)"
    by (auto simp: locked_store_def)
  have ls: "locked_store V s2 = s2\<lparr>store_world := snd (v_lock V (store_world s2))\<rparr>"
    using assms(2) by (simp add: locked_store_def quiet_def)
  from reconcile_locked_believed [OF run] tick ls
  have bel: "believed V lock m ?k (ai_records inventory) (locked_store V s2) (Inr ()) s3" by simp
  from assms(7) obtain t where "dict_get (fresh s3) ?k = Some t" by blast
  from believed_recognises [OF bel this _ _ assms(9,10) _ assms(12,13)] f2 ls assms(8,11) show ?thesis by simp
qed

subsection \<open>A concrete run\<close>

text \<open>A store with one named card, whose base is the one the key derives for the card.\<close>

definition sample_base :: string where
  "sample_base = (case item_base (Some (replicate 32 7)) ''AA'' ''ic_card'' (replicate 32 CHR ''0'') (sample_item [1, 2, 3, 4]) of
     Inr b \<Rightarrow> b | Inl e \<Rightarrow> [])"

definition named_scopes :: "(string, scope_state) dict" where
  "named_scopes = [(''AA/ic_card'', \<lparr>ss_epoch = replicate 32 CHR ''0'', ss_records = [sample_record\<lparr>pr_base := sample_base\<rparr>]\<rparr>)]"

definition named_store :: "nat access_store" where
  "named_store = loaded_store\<lparr>scopes := named_scopes\<rparr>"

lemma sample_base: "item_base (Some (replicate 32 7)) ''AA'' ''ic_card'' (replicate 32 CHR ''0'') (sample_item [1, 2, 3, 4]) = Inr sample_base"
  by (simp add: sample_base_def item_base_def from_verified_record_def METHODS_def sample_item_def)

lemma named_store_fields: "refs_key named_store = Some (replicate 32 7)" "scopes named_store = named_scopes" "legacy_set named_store = {}"
proof -
  have "refs_key loaded_store = Some (replicate 32 7)" "legacy_set loaded_store = {}" by code_simp+
  then show "refs_key named_store = Some (replicate 32 7)" "scopes named_store = named_scopes" "legacy_set named_store = {}"
    by (simp_all add: named_store_def)
qed

lemma named_scope_ok: "list_all (\<lambda>(k, st). scope_ok st) named_scopes"
proof -
  have "length sample_base = 64 \<and> lower_hex sample_base"
    using sample_base derived_handle_shape unfolding item_base_def by blast
  then have "hex_match 32 64 sample_base" by (simp add: hex_match_plain)
  moreover have "hex_match 32 64 (pr_reference sample_record)" "hex_match 32 64 (replicate 32 CHR ''0'')" by code_simp+
  ultimately show ?thesis
    by (simp add: named_scopes_def scope_ok_def record_ok_def MAX_RECORDS_def RECORD_TYPES_def VALIDITIES_def sample_record_def)
qed

lemma named_store_ok: "store_ok named_store"
  using named_scope_ok by (simp add: store_ok_def named_store_fields) (simp add: named_scopes_def dict_ok_def)

lemma quiet_load:
  assumes "valid_data j = Some (sc, lg)"
  shows "access_load quiet_store (new_access_store (Some j) w) = (Inr (), \<lparr>refs_key = Some (replicate 32 7), saved = Some j,
     loaded = True, scopes = sc, legacy_set = set lg, fresh = [], revision = [], confirmed = {}, observed = [], store_world = w\<rparr>)"
  using assms by (simp add: access_load_def new_access_store_def take_lock_def storage_call_def store_step_def eff_defs quiet_store_def)

lemma observe_named:
  assumes "refs_key s = Some (replicate 32 7)"
  shows "observe_items quiet_store ''AA'' ''ic_card'' (replicate 32 CHR ''0'') [(sample_base, 0)] [sample_item [1, 2, 3, 4]]
    \<lparr>lp_records = [sample_record\<lparr>pr_base := sample_base\<rparr>], lp_seen = {}, lp_observed = {}\<rparr> s
   = (Inr \<lparr>lp_records = [sample_record\<lparr>pr_base := sample_base, pr_active := True, pr_validity := ''permanent''\<rparr>],
        lp_seen = {sample_base}, lp_observed = {pr_reference sample_record}\<rparr>, s)"
  using sample_base assms by (simp add: observe_item_def item_base_def raise_or_def eff_defs Let_def) (simp add: sample_item_def)

lemma named_recognised:
  assumes "s = \<lparr>refs_key = Some (replicate 32 7), saved = j, loaded = True, scopes = named_scopes, legacy_set = {}, fresh = [],
      revision = [(''AA/ic_card'', 1)], confirmed = {}, observed = [], store_world = w\<rparr>"
  shows "fst (access_reconcile quiet_store ''AA'' ''ic_card'' sample_inventory True (Some 1) s) = Inr ()"
    "dict_get (fresh (snd (access_reconcile quiet_store ''AA'' ''ic_card'' sample_inventory True (Some 1) s))) ''AA/ic_card'' \<noteq> None"
proof -
  have index: "active_index ''ic_card'' [sample_record\<lparr>pr_base := sample_base\<rparr>] = [(sample_base, 0)]"
    by (simp add: active_index_def sample_record_def)
  let ?r = "access_reconcile quiet_store ''AA'' ''ic_card'' sample_inventory True (Some 1) s"
  have meth: "list_ex (\<lambda>r. it_method r \<noteq> ''ic_card'') (ai_records sample_inventory) = False"
     "length (ai_records sample_inventory) = 1" "ai_complete sample_inventory"
     "ai_records sample_inventory = [sample_item [1, 2, 3, 4]]" "it_method (sample_item [1, 2, 3, 4]) = ''ic_card''"
    by (simp_all add: sample_inventory_def sample_item_def)
  have env: "v_lock quiet_store w = ([], w)" "v_save quiet_store w = ((None, []), w)" for w by (simp_all add: quiet_store_def)
  have "fst ?r = Inr () \<and> dict_get (fresh (snd ?r)) ''AA/ic_card'' \<noteq> None"
    using observe_named
    by (simp add: assms access_reconcile_def access_scope_def ACCESS_METHODS_def raise_or_def eff_defs take_lock_def store_step_def
      reconcile_locked_def save_store_def storage_call_def env meth MAX_RECORDS_def named_scopes_def dict_get_or_def dict_setdefault_def index Let_def
      del: observe_items.simps)
  then show "fst ?r = Inr ()" "dict_get (fresh (snd ?r)) ''AA/ic_card'' \<noteq> None" by simp_all
qed

theorem label_follows_credential_witness:
  "\<exists>s3. pr_reference sample_record \<in> dict_get_or (observed s3) ''AA/ic_card'' {}
    \<and> label (sample_record\<lparr>pr_base := sample_base\<rparr>) \<in> set (map label (scope_records (s3 :: nat access_store) ''AA/ic_card''))"
proof -
  let ?j = "store_json (scopes named_store) (legacy_set named_store)"
  let ?s1 = "\<lparr>refs_key = Some (replicate 32 7), saved = Some ?j, loaded = True, scopes = named_scopes, legacy_set = {},
     fresh = [], revision = [], confirmed = {}, observed = [], store_world = 3\<rparr> :: nat access_store"
  have "valid_data ?j = Some (named_scopes, [])"
    using valid_data_json [OF named_scope_ok, of "{}"] by (simp add: named_store_fields)
  from quiet_load [OF this, of 3] have load: "access_load quiet_store (new_access_store (Some ?j) 3) = (Inr (), ?s1)" by simp
  have key: "refs_key ?s1 = refs_key named_store" by (simp add: named_store_fields)
  have "mark_stale ''AA'' ''ic_card'' ?s1 = (Inr 1, ?s1\<lparr>revision := [(''AA/ic_card'', 1)]\<rparr>)"
    by (simp add: mark_stale_def access_scope_def ACCESS_METHODS_def raise_or_def eff_defs stale_scope_def dict_get_or_def)
  then have mark: "mark_stale ''AA'' ''ic_card'' ?s1 = (Inr 1, \<lparr>refs_key = Some (replicate 32 7), saved = Some ?j,
      loaded = True, scopes = named_scopes, legacy_set = {}, fresh = [], revision = [(''AA/ic_card'', 1)],
      confirmed = {}, observed = [], store_world = 3\<rparr>)" (is "_ = (_, ?s2)") by simp
  let ?run = "access_reconcile quiet_store ''AA'' ''ic_card'' sample_inventory True (Some 1) ?s2"
  note rec = named_recognised [OF refl, of "Some ?j" 3]
  from rec(1) have run: "?run = (Inr (), snd ?run)" by (metis prod.collapse)
  have scope: "dict_get (scopes named_store) (''AA'' @ ''/'' @ ''ic_card'')
      = Some \<lparr>ss_epoch = replicate 32 CHR ''0'', ss_records = [sample_record\<lparr>pr_base := sample_base\<rparr>]\<rparr>" (is "_ = Some ?st")
    by (simp add: named_store_fields named_scopes_def)
  have records: "ss_records ?st = [] @ sample_record\<lparr>pr_base := sample_base\<rparr> # []" by simp
  have item: "sample_item [1, 2, 3, 4] \<in> set (ai_records sample_inventory)" by (simp add: sample_inventory_def)
  have base: "item_base (refs_key named_store) ''AA'' ''ic_card'' (ss_epoch ?st) (sample_item [1, 2, 3, 4]) = Inr sample_base"
    using sample_base by (simp add: named_store_fields)
  have idx: "indexed ''ic_card'' sample_base (sample_record\<lparr>pr_base := sample_base\<rparr>)" by (simp add: indexed_def sample_record_def)
  have fresh: "dict_get (fresh (snd ?run)) (''AA'' @ ''/'' @ ''ic_card'') \<noteq> None" using rec(2) by simp
  have none: "list_all (\<lambda>q. \<not> indexed ''ic_card'' sample_base q) []" by simp
  from label_follows_credential [OF named_store_ok quiet_store_quiet load key mark run fresh scope records item base idx none]
  show ?thesis by (intro exI [of _ "snd ?run"]) simp
qed

end
