(* ===== verification/Coordinator.thy ===== *)
theory Coordinator
  imports PyDict
begin

section \<open>The coordinator (coordinator.py, advertisement.py)\<close>

text \<open>
  The state of all locks as Home Assistant sees it. Three channels write it: advertisements
  (battery and a hint), commands and direct queries, and the polls of a refresh, which run
  concurrently and are published together when the slowest one is back. The model keeps
  every refresh that is on its way as a value of the state, so that its answers, commands
  and advertisements interleave freely; one \<open>coord_event\<close> is what runs between two awaits.
  The locks, the clock and the event loop are the environment: their answers and times are
  arguments of the events. Log output is not modelled.
\<close>

subsection \<open>Data\<close>

definition LOCK_STATE_LOCKED :: int where "LOCK_STATE_LOCKED = 0"
definition LOCK_STATE_UNLOCKED :: int where "LOCK_STATE_UNLOCKED = 1"

definition BOOTSTRAP_RETRY_DELAYS :: "rat list" where
  "BOOTSTRAP_RETRY_DELAYS = [60, 120, 300]"

record state_attr =
  sa_source :: string
  sa_observed_at :: rat
  sa_rssi :: "int option"
  sa_revision :: nat

text \<open>\<open>TtlockBleLockState\<close>; \<open>None\<close> is a missing or unknown value.\<close>

record lock_snapshot =
  ls_locked :: "bool option"
  ls_battery :: "int option"

record observation =
  ob_state :: lock_snapshot
  ob_attr :: state_attr

text \<open>What the code reads of the SDK's \<open>LockAdvertisement\<close>.\<close>

record advert =
  ad_lock_state :: int
  ad_new_records :: bool
  ad_battery :: int
  ad_mac :: string

text \<open>One refresh between its start and its publication: the polls it made and their results.\<close>

type_synonym poll_result = "exn + observation option"

record refresh =
  rf_polls :: "(string \<times> bool) list"
  rf_results :: "(string, poll_result) dict"

text \<open>What \<open>call_soon\<close> holds: log fetches to schedule and the done callbacks of finished tasks.\<close>

datatype soon = ScheduleLog string | RemoveLog string | RemoveBootstrap string

datatype task_kind = LogTask string | BootstrapTask string

record coord =
  co_macs :: "string list"
  co_data :: "(string, lock_snapshot) dict option"
  co_attribution :: "(string, state_attr) dict"
  co_revisions :: "(string, nat) dict"
  co_hints :: "(string, int) dict"
  co_new_records :: "(string, bool) dict"
  co_scan_requested :: "string set"
  co_log_tasks :: "(string, nat) dict"
  co_bootstrap_tasks :: "(string, nat) dict"
  co_running :: "(nat, task_kind) dict"
  co_next_task :: nat
  co_soon :: "soon list"
  co_refreshes :: "refresh list"
  co_requests :: nat
  co_updates :: nat

definition new_coord :: "string list \<Rightarrow> coord" where
  "new_coord macs = \<lparr>co_macs = macs, co_data = None, co_attribution = [], co_revisions = [],
     co_hints = [], co_new_records = [], co_scan_requested = {}, co_log_tasks = [],
     co_bootstrap_tasks = [], co_running = [], co_next_task = 0, co_soon = [], co_refreshes = [],
     co_requests = 0, co_updates = 0\<rparr>"

text \<open>\<open>self.data or {}\<close>\<close>

definition data_or_empty :: "coord \<Rightarrow> (string, lock_snapshot) dict" where
  "data_or_empty s = (case co_data s of None \<Rightarrow> [] | Some d \<Rightarrow> d)"

definition empty_snapshot :: lock_snapshot where
  "empty_snapshot = \<lparr>ls_locked = None, ls_battery = None\<rparr>"

definition has_state :: "string \<Rightarrow> coord \<Rightarrow> bool" where
  "has_state mac s = (case dict_get (data_or_empty s) mac of
     None \<Rightarrow> False | Some sn \<Rightarrow> ls_locked sn \<noteq> None)"

definition parse_lock_state :: "int option \<Rightarrow> bool option" where
  "parse_lock_state raw =
     (if raw = Some LOCK_STATE_LOCKED then Some True
      else if raw = Some LOCK_STATE_UNLOCKED then Some False
      else None)"

subsection \<open>Listeners and requests\<close>

text \<open>
  \<open>async_update_listeners\<close> and the requests for a refresh are counted; Home Assistant debounces
  the requests.
\<close>

definition update_listeners :: "coord \<Rightarrow> coord" where
  "update_listeners s = s\<lparr>co_updates := co_updates s + 1\<rparr>"

definition request_refresh :: "coord \<Rightarrow> coord" where
  "request_refresh s = s\<lparr>co_requests := co_requests s + 1\<rparr>"

definition request_active_state_refresh :: "string \<Rightarrow> coord \<Rightarrow> coord" where
  "request_active_state_refresh mac s =
     (if mac \<in> set (co_macs s) then s\<lparr>co_scan_requested := insert mac (co_scan_requested s)\<rparr> else s)"

subsection \<open>Advertisements\<close>

definition apply_advertisement :: "string \<Rightarrow> advert \<Rightarrow> coord \<Rightarrow> coord" where
  "apply_advertisement mac ad s =
     (let previous_hint = dict_get (co_hints s) mac;
          previous_new_records = dict_get (co_new_records s) mac;
          current = dict_get_or (data_or_empty s) mac empty_snapshot;
          s1 = update_listeners (s\<lparr>co_hints := dict_set mac (ad_lock_state ad) (co_hints s),
            co_new_records := dict_set mac (ad_new_records ad) (co_new_records s),
            co_data := Some (dict_set mac \<lparr>ls_locked = ls_locked current, ls_battery = Some (ad_battery ad)\<rparr>
              (data_or_empty s))\<rparr>);
          hint_changed = (previous_hint \<noteq> None \<and> previous_hint \<noteq> Some (ad_lock_state ad));
          new_appeared = (ad_new_records ad \<and> previous_new_records \<noteq> Some True)
      in if hint_changed \<or> new_appeared
         then request_refresh (request_active_state_refresh mac s1) else s1)"

text \<open>
  \<open>_decode\<close>: \<open>decode\<close> is the SDK's \<open>from_manufacturer_data\<close>, \<open>fmt\<close> Home Assistant's
  \<open>format_mac\<close>. The first entry that decodes and carries the address of the lock.
\<close>

fun decode_advertisement ::
  "(int \<Rightarrow> byte list \<Rightarrow> advert option) \<Rightarrow> (string \<Rightarrow> string) \<Rightarrow> string \<Rightarrow> (int \<times> byte list) list \<Rightarrow> advert option" where
  "decode_advertisement decode fmt mac [] = None"
| "decode_advertisement decode fmt mac ((company, payload) # rest) =
     (case decode company payload of
        None \<Rightarrow> decode_advertisement decode fmt mac rest
      | Some ad \<Rightarrow> if fmt (ad_mac ad) = fmt mac then Some ad
          else decode_advertisement decode fmt mac rest)"

definition on_advertisement ::
  "(int \<Rightarrow> byte list \<Rightarrow> advert option) \<Rightarrow> (string \<Rightarrow> string) \<Rightarrow> string \<Rightarrow> (int \<times> byte list) list \<Rightarrow> coord \<Rightarrow> coord" where
  "on_advertisement decode fmt mac entries s =
     (case decode_advertisement decode fmt mac entries of
        Some ad \<Rightarrow> apply_advertisement mac ad s
      | None \<Rightarrow> if has_state mac s then s else request_refresh s)"

subsection \<open>Authoritative states\<close>

definition next_attribution :: "string \<Rightarrow> string \<Rightarrow> int option \<Rightarrow> rat \<Rightarrow> coord \<Rightarrow> state_attr \<times> coord" where
  "next_attribution mac source rssi now s =
     (let rev = dict_get_or (co_revisions s) mac 0 + 1 in
       (\<lparr>sa_source = source, sa_observed_at = now, sa_rssi = rssi, sa_revision = rev\<rparr>,
        s\<lparr>co_revisions := dict_set mac rev (co_revisions s)\<rparr>))"

definition apply_authoritative_state ::
  "string \<Rightarrow> bool \<Rightarrow> int option \<Rightarrow> string \<Rightarrow> int option \<Rightarrow> rat \<Rightarrow> coord \<Rightarrow> coord" where
  "apply_authoritative_state mac locked battery source rssi now s =
     (let current = dict_get_or (data_or_empty s) mac empty_snapshot;
          sn = \<lparr>ls_locked = Some locked, ls_battery = (if battery \<noteq> None then battery else ls_battery current)\<rparr>;
          (attr, s1) = next_attribution mac source rssi now s
      in update_listeners (s1\<lparr>co_attribution := dict_set mac attr (co_attribution s1),
           co_data := Some (dict_set mac sn (data_or_empty s1))\<rparr>))"

subsection \<open>Background tasks\<close>

definition start_task :: "task_kind \<Rightarrow> coord \<Rightarrow> nat \<times> coord" where
  "start_task k s = (co_next_task s,
     s\<lparr>co_running := dict_set (co_next_task s) k (co_running s), co_next_task := co_next_task s + 1\<rparr>)"

text \<open>A table of tasks has an entry for the lock whose task is not done.\<close>

definition task_active :: "(string, nat) dict \<Rightarrow> string \<Rightarrow> coord \<Rightarrow> bool" where
  "task_active table mac s = (case dict_get table mac of
     None \<Rightarrow> False | Some i \<Rightarrow> dict_get (co_running s) i \<noteq> None)"

definition schedule_bootstrap_retry :: "string \<Rightarrow> coord \<Rightarrow> coord" where
  "schedule_bootstrap_retry mac s =
     (if has_state mac s \<or> task_active (co_bootstrap_tasks s) mac s then s
      else let (i, s1) = start_task (BootstrapTask mac) s
        in s1\<lparr>co_bootstrap_tasks := dict_set mac i (co_bootstrap_tasks s1)\<rparr>)"

definition schedule_operation_log :: "string \<Rightarrow> coord \<Rightarrow> coord" where
  "schedule_operation_log mac s =
     (if task_active (co_log_tasks s) mac s then s
      else let (i, s1) = start_task (LogTask mac) s
        in s1\<lparr>co_log_tasks := dict_set mac i (co_log_tasks s1)\<rparr>)"

text \<open>A task ends: its done callback is queued behind what is already due.\<close>

definition task_done :: "nat \<Rightarrow> coord \<Rightarrow> coord" where
  "task_done i s = (case dict_get (co_running s) i of
     None \<Rightarrow> s
   | Some k \<Rightarrow> s\<lparr>co_running := dict_pop i (co_running s),
       co_soon := co_soon s @ [case k of LogTask mac \<Rightarrow> RemoveLog mac | BootstrapTask mac \<Rightarrow> RemoveBootstrap mac]\<rparr>)"

fun run_soon :: "soon \<Rightarrow> coord \<Rightarrow> coord" where
  "run_soon (ScheduleLog mac) s = schedule_operation_log mac s"
| "run_soon (RemoveLog mac) s = s\<lparr>co_log_tasks := dict_pop mac (co_log_tasks s)\<rparr>"
| "run_soon (RemoveBootstrap mac) s = s\<lparr>co_bootstrap_tasks := dict_pop mac (co_bootstrap_tasks s)\<rparr>"

definition loop_turn :: "coord \<Rightarrow> coord" where
  "loop_turn s = (case co_soon s of [] \<Rightarrow> s | c # cs \<Rightarrow> run_soon c (s\<lparr>co_soon := cs\<rparr>))"

text \<open>\<open>async_shutdown\<close> cancels the tasks of the two tables, and only those.\<close>

definition shutdown_cancels :: "coord \<Rightarrow> nat set" where
  "shutdown_cancels s = set (map snd (co_log_tasks s)) \<union> set (map snd (co_bootstrap_tasks s))"

definition coord_shutdown :: "coord \<Rightarrow> coord" where
  "coord_shutdown s = fold task_done (map snd (co_log_tasks s) @ map snd (co_bootstrap_tasks s))
     (s\<lparr>co_log_tasks := [], co_bootstrap_tasks := []\<rparr>)"

subsection \<open>A refresh\<close>

text \<open>\<open>_async_update_data\<close> up to its \<open>gather\<close>.\<close>

definition refresh_begin :: "coord \<Rightarrow> coord" where
  "refresh_begin s = s\<lparr>co_scan_requested := {},
     co_refreshes := co_refreshes s @ [\<lparr>rf_polls = map (\<lambda>mac.
       (mac, mac \<in> co_scan_requested s \<or> \<not> has_state mac s)) (co_macs s), rf_results = []\<rparr>]\<rparr>"

text \<open>\<open>_async_poll\<close> when the lock answered: the observation is numbered at once.\<close>

definition poll_observation ::
  "string \<Rightarrow> exn + (int option \<times> int option) option \<Rightarrow> int option \<Rightarrow> rat \<Rightarrow> coord \<Rightarrow> poll_result \<times> coord" where
  "poll_observation mac answer rssi now s = (case answer of
     Inl e \<Rightarrow> (Inl e, s)
   | Inr None \<Rightarrow> (Inr None, s)
   | Inr (Some (raw, battery)) \<Rightarrow>
       (let (attr, s1) = next_attribution mac ''query'' rssi now s
        in (Inr (Some \<lparr>ob_state = \<lparr>ls_locked = parse_lock_state raw, ls_battery = battery\<rparr>, ob_attr = attr\<rparr>), s1)))"

definition poll_answer ::
  "nat \<Rightarrow> string \<Rightarrow> exn + (int option \<times> int option) option \<Rightarrow> int option \<Rightarrow> rat \<Rightarrow> coord \<Rightarrow> coord" where
  "poll_answer i mac answer rssi now s =
     (let (r, s1) = poll_observation mac answer rssi now s; rf = co_refreshes s ! i
      in s1\<lparr>co_refreshes := (co_refreshes s)[i := rf\<lparr>rf_results := dict_set mac r (rf_results rf)\<rparr>]\<rparr>)"

text \<open>The loop after the \<open>gather\<close>; its first component is the local \<open>state\<close>.\<close>

definition merge_reading :: "lock_snapshot \<Rightarrow> lock_snapshot \<Rightarrow> lock_snapshot" where
  "merge_reading reading current =
     \<lparr>ls_locked = (if ls_locked reading \<noteq> None then ls_locked reading else ls_locked current),
      ls_battery = (if ls_battery reading \<noteq> None then ls_battery reading else ls_battery current)\<rparr>"

definition outdated :: "string \<Rightarrow> observation \<Rightarrow> coord \<Rightarrow> bool" where
  "outdated mac ob s = (case dict_get (co_attribution s) mac of
     None \<Rightarrow> False | Some latest \<Rightarrow> sa_revision (ob_attr ob) \<le> sa_revision latest)"

fun publish_one ::
  "string \<times> poll_result \<Rightarrow> (string, lock_snapshot) dict \<times> coord \<Rightarrow> (string, lock_snapshot) dict \<times> coord" where
  "publish_one (mac, r) (state, s) = (case r of
     Inr (Some ob) \<Rightarrow>
       if outdated mac ob s then (state, s)
       else (dict_set mac (merge_reading (ob_state ob) (dict_get_or state mac empty_snapshot)) state,
         if ls_locked (ob_state ob) \<noteq> None
         then s\<lparr>co_attribution := dict_set mac (ob_attr ob) (co_attribution s),
                co_soon := co_soon s @ [ScheduleLog mac]\<rparr>
         else s)
   | _ \<Rightarrow> (dict_setdefault mac empty_snapshot state, schedule_bootstrap_retry mac s))"

definition publish_results :: "(string \<times> poll_result) list \<Rightarrow> coord \<Rightarrow> coord" where
  "publish_results results s =
     (let (state, s1) = fold publish_one results (data_or_empty s, s)
      in update_listeners (s1\<lparr>co_data := Some state\<rparr>))"

definition refresh_results :: "refresh \<Rightarrow> (string \<times> poll_result) list" where
  "refresh_results rf = map (\<lambda>(mac, active). (mac, the (dict_get (rf_results rf) mac))) (rf_polls rf)"

definition drop_refresh :: "nat \<Rightarrow> coord \<Rightarrow> coord" where
  "drop_refresh i s = s\<lparr>co_refreshes := take i (co_refreshes s) @ drop (Suc i) (co_refreshes s)\<rparr>"

definition refresh_publish :: "nat \<Rightarrow> coord \<Rightarrow> coord" where
  "refresh_publish i s = publish_results (refresh_results (co_refreshes s ! i)) (drop_refresh i s)"

subsection \<open>Bootstrap of an unknown lock\<close>

text \<open>
  \<open>_async_retry_unknown_state\<close>: the environment says whether a state is known, what a sleep
  and a refresh do. The loop may run forever, so it is partial.
\<close>

record 'w retry_env =
  re_known :: "'w \<Rightarrow> bool"
  re_sleep :: "rat \<Rightarrow> 'w \<Rightarrow> 'w"
  re_refresh :: "'w \<Rightarrow> 'w"

definition retry_delay :: "nat \<Rightarrow> rat" where
  "retry_delay attempt = BOOTSTRAP_RETRY_DELAYS ! min attempt (length BOOTSTRAP_RETRY_DELAYS - 1)"

partial_function (option) retry_unknown_state ::
  "'w retry_env \<Rightarrow> nat \<Rightarrow> rat list \<Rightarrow> 'w \<Rightarrow> (rat list \<times> 'w) option" where
  "retry_unknown_state R attempt slept w =
     (if re_known R w then Some (slept, w)
      else let w1 = re_sleep R (retry_delay attempt) w; slept1 = slept @ [retry_delay attempt] in
        if re_known R w1 then Some (slept1, w1)
        else retry_unknown_state R (attempt + 1) slept1 (re_refresh R w1))"

text \<open>What the loop does to the coordinator at the end of each round.\<close>

definition retry_round :: "string \<Rightarrow> coord \<Rightarrow> coord" where
  "retry_round mac s = (if has_state mac s then s
     else request_refresh (request_active_state_refresh mac s))"

subsection \<open>Everything that can happen between two awaits\<close>

datatype coord_event =
    EvAdvert string advert
  | EvUndecoded string
  | EvState string bool "int option" string "int option" rat
  | EvUpdateEntity string
  | EvBegin
  | EvPoll nat string "exn + (int option \<times> int option) option" "int option" rat
  | EvPublish nat
  | EvCancelRefresh nat
  | EvTaskDone nat
  | EvRetry string
  | EvLoopTurn

fun coord_apply :: "coord_event \<Rightarrow> coord \<Rightarrow> coord" where
  "coord_apply (EvAdvert mac ad) s = apply_advertisement mac ad s"
| "coord_apply (EvUndecoded mac) s = (if has_state mac s then s else request_refresh s)"
| "coord_apply (EvState mac locked battery source rssi now) s =
     apply_authoritative_state mac locked battery source rssi now s"
| "coord_apply (EvUpdateEntity mac) s = request_refresh (request_active_state_refresh mac s)"
| "coord_apply EvBegin s = refresh_begin s"
| "coord_apply (EvPoll i mac answer rssi now) s = poll_answer i mac answer rssi now s"
| "coord_apply (EvPublish i) s = refresh_publish i s"
| "coord_apply (EvCancelRefresh i) s = drop_refresh i s"
| "coord_apply (EvTaskDone i) s = task_done i s"
| "coord_apply (EvRetry mac) s = retry_round mac s"
| "coord_apply EvLoopTurn s = loop_turn s"

text \<open>
  An answer belongs to a poll that is still waiting; a refresh is published when all its polls
  are back.
\<close>

fun coord_enabled :: "coord_event \<Rightarrow> coord \<Rightarrow> bool" where
  "coord_enabled (EvPoll i mac answer rssi now) s \<longleftrightarrow> i < length (co_refreshes s)
     \<and> mac \<in> set (map fst (rf_polls (co_refreshes s ! i)))
     \<and> dict_get (rf_results (co_refreshes s ! i)) mac = None"
| "coord_enabled (EvPublish i) s \<longleftrightarrow> i < length (co_refreshes s)
     \<and> list_all (\<lambda>(mac, active). dict_get (rf_results (co_refreshes s ! i)) mac \<noteq> None)
         (rf_polls (co_refreshes s ! i))"
| "coord_enabled (EvCancelRefresh i) s \<longleftrightarrow> i < length (co_refreshes s)"
| "coord_enabled e s \<longleftrightarrow> True"

inductive coord_reach :: "coord \<Rightarrow> bool" where
  coord_new: "distinct macs \<Longrightarrow> coord_reach (new_coord macs)"
| coord_next: "coord_reach s \<Longrightarrow> coord_enabled e s \<Longrightarrow> coord_reach (coord_apply e s)"

end
