(* ===== verification/CoordProps.thy ===== *)
theory CoordProps
  imports Coordinator
begin

section \<open>Properties of the coordinator\<close>

text \<open>
  The abstract specification of the coordinator is a register per lock that keeps the newest
  authoritative observation. The coordinator refines it: what it publishes is the value of the
  register, whatever order polls, commands and advertisements come in.
\<close>

subsection \<open>The abstract register\<close>

type_synonym register = "string \<Rightarrow> (nat \<times> bool) option"

fun reg_write :: "string \<times> nat \<times> bool \<Rightarrow> register \<Rightarrow> register" where
  "reg_write (mac, n, b) reg = (case reg mac of
     None \<Rightarrow> reg(mac \<mapsto> (n, b))
   | Some (r, _) \<Rightarrow> if n \<le> r then reg else reg(mac \<mapsto> (n, b)))"

definition locked_in :: "(string, lock_snapshot) dict \<Rightarrow> string \<Rightarrow> bool option" where
  "locked_in d mac = (case dict_get d mac of None \<Rightarrow> None | Some sn \<Rightarrow> ls_locked sn)"

definition register_of :: "(string, state_attr) dict \<Rightarrow> (string, lock_snapshot) dict \<Rightarrow> register" where
  "register_of att d mac = (case (dict_get att mac, locked_in d mac) of
     (Some a, Some b) \<Rightarrow> Some (sa_revision a, b) | _ \<Rightarrow> None)"

definition published :: "coord \<Rightarrow> register" where
  "published s = register_of (co_attribution s) (data_or_empty s)"

text \<open>The authoritative observations an event brings.\<close>

fun result_offer :: "string \<times> poll_result \<Rightarrow> (string \<times> nat \<times> bool) list" where
  "result_offer (mac, Inr (Some ob)) = (case ls_locked (ob_state ob) of
     None \<Rightarrow> [] | Some b \<Rightarrow> [(mac, sa_revision (ob_attr ob), b)])"
| "result_offer _ = []"

fun offers :: "coord_event \<Rightarrow> coord \<Rightarrow> (string \<times> nat \<times> bool) list" where
  "offers (EvState mac locked battery source rssi now) s = [(mac, dict_get_or (co_revisions s) mac 0 + 1, locked)]"
| "offers (EvPublish i) s = concat (map result_offer (refresh_results (co_refreshes s ! i)))"
| "offers _ s = []"

definition reg_grows :: "register \<Rightarrow> register \<Rightarrow> bool" where
  "reg_grows a b \<longleftrightarrow> (\<forall>m r v. a m = Some (r, v) \<longrightarrow> (\<exists>r' v'. b m = Some (r', v') \<and> (r' = r \<and> v' = v \<or> r < r')))"

lemma reg_grows_refl: "reg_grows a a"
  by (simp add: reg_grows_def)

lemma reg_write_grows: "reg_grows a (reg_write x a)"
  by (cases x) (auto simp: reg_grows_def split: option.splits)

lemma reg_grows_trans:
  assumes "reg_grows a b" and "reg_grows b c"
  shows "reg_grows a c"
  unfolding reg_grows_def
proof (intro allI impI)
  fix m r v
  assume "a m = Some (r, v)"
  with assms(1) obtain r1 v1 where one: "b m = Some (r1, v1)" "r1 = r \<and> v1 = v \<or> r < r1"
    unfolding reg_grows_def by blast
  with assms(2) obtain r2 v2 where "c m = Some (r2, v2)" "r2 = r1 \<and> v2 = v1 \<or> r1 < r2"
    unfolding reg_grows_def by blast
  with one show "\<exists>r' v'. c m = Some (r', v') \<and> (r' = r \<and> v' = v \<or> r < r')" by auto
qed

lemma reg_fold_grows: "reg_grows a (fold reg_write os a)"
proof (induction os arbitrary: a)
  case (Cons x os)
  from reg_grows_trans [OF reg_write_grows Cons.IH] show ?case by simp
qed (simp add: reg_grows_def)

subsection \<open>The interface\<close>

text \<open>
  What it takes for the states a component shows to be such a register: each of its events
  changes the view of it exactly as the register is changed by the observations the event
  offers, and keeps the invariant this rests on.
\<close>

fun run_events :: "('e \<Rightarrow> 's \<Rightarrow> bool) \<Rightarrow> ('e \<Rightarrow> 's \<Rightarrow> 's) \<Rightarrow> 'e list \<Rightarrow> 's \<Rightarrow> 's option" where
  "run_events can step [] s = Some s"
| "run_events can step (e # es) s = (if can e s then run_events can step es (step e s) else None)"

locale newest_wins =
  fixes ok :: "'s \<Rightarrow> bool"
    and can :: "'e \<Rightarrow> 's \<Rightarrow> bool"
    and step :: "'e \<Rightarrow> 's \<Rightarrow> 's"
    and offered :: "'e \<Rightarrow> 's \<Rightarrow> (string \<times> nat \<times> bool) list"
    and view :: "'s \<Rightarrow> register"
  assumes refines: "ok s \<Longrightarrow> can e s \<Longrightarrow> view (step e s) = fold reg_write (offered e s) (view s)"
    and keeps_ok: "ok s \<Longrightarrow> can e s \<Longrightarrow> ok (step e s)"
begin

lemma step_grows: "ok s \<Longrightarrow> can e s \<Longrightarrow> reg_grows (view s) (view (step e s))"
  by (simp add: refines reg_fold_grows)

lemma run_ok: "run_events can step es s = Some s' \<Longrightarrow> ok s \<Longrightarrow> ok s'"
  by (induction es arbitrary: s) (auto simp: keeps_ok split: if_splits)

lemma run_grows: "run_events can step es s = Some s' \<Longrightarrow> ok s \<Longrightarrow> reg_grows (view s) (view s')"
proof (induction es arbitrary: s)
  case (Cons e es)
  then have "can e s" "run_events can step es (step e s) = Some s'" by (auto split: if_splits)
  with Cons show ?case using reg_grows_trans [OF step_grows] keeps_ok by blast
qed (simp add: reg_grows_refl)

lemma run_never_older:
  assumes "run_events can step es s = Some s'" "ok s" "view s mac = Some (r, v)"
  shows "\<exists>r' v'. view s' mac = Some (r', v') \<and> (r' = r \<and> v' = v \<or> r < r')"
  using run_grows [OF assms(1,2)] assms(3) by (simp add: reg_grows_def)

end

subsection \<open>Invariant\<close>

definition agree :: "(string, state_attr) dict \<Rightarrow> (string, lock_snapshot) dict \<Rightarrow> bool" where
  "agree att d \<longleftrightarrow> (\<forall>mac. (dict_get att mac = None) = (locked_in d mac = None))"

definition rev_of :: "coord \<Rightarrow> string \<Rightarrow> nat" where
  "rev_of s mac = dict_get_or (co_revisions s) mac 0"

definition results_numbered :: "coord \<Rightarrow> (string \<times> poll_result) list \<Rightarrow> bool" where
  "results_numbered s rs \<longleftrightarrow>
     (\<forall>mac ob. (mac, Inr (Some ob)) \<in> set rs \<longrightarrow> sa_revision (ob_attr ob) \<le> rev_of s mac)"

definition coord_inv :: "coord \<Rightarrow> bool" where
  "coord_inv s \<longleftrightarrow> agree (co_attribution s) (data_or_empty s)
     \<and> (\<forall>mac a. dict_get (co_attribution s) mac = Some a \<longrightarrow> sa_revision a \<le> rev_of s mac)
     \<and> (\<forall>rf\<in>set (co_refreshes s). results_numbered s (rf_results rf))"

named_theorems coord_frame \<open>parts of the coordinator an operation leaves alone\<close>

lemma frame_listeners [coord_frame]:
  "co_attribution (update_listeners s) = co_attribution s" "co_data (update_listeners s) = co_data s"
  "co_revisions (update_listeners s) = co_revisions s" "co_refreshes (update_listeners s) = co_refreshes s"
  "co_attribution (request_refresh s) = co_attribution s" "co_data (request_refresh s) = co_data s"
  "co_revisions (request_refresh s) = co_revisions s" "co_refreshes (request_refresh s) = co_refreshes s"
  by (simp_all add: update_listeners_def request_refresh_def)

lemma frame_active [coord_frame]:
  "co_attribution (request_active_state_refresh m s) = co_attribution s"
  "co_data (request_active_state_refresh m s) = co_data s"
  "co_revisions (request_active_state_refresh m s) = co_revisions s"
  "co_refreshes (request_active_state_refresh m s) = co_refreshes s"
  by (simp_all add: request_active_state_refresh_def)

lemma frame_tasks [coord_frame]:
  "co_attribution (schedule_bootstrap_retry m s) = co_attribution s"
  "co_data (schedule_bootstrap_retry m s) = co_data s"
  "co_revisions (schedule_bootstrap_retry m s) = co_revisions s"
  "co_refreshes (schedule_bootstrap_retry m s) = co_refreshes s"
  "co_attribution (schedule_operation_log m s) = co_attribution s"
  "co_data (schedule_operation_log m s) = co_data s"
  "co_revisions (schedule_operation_log m s) = co_revisions s"
  "co_refreshes (schedule_operation_log m s) = co_refreshes s"
  by (simp_all add: schedule_bootstrap_retry_def schedule_operation_log_def start_task_def)

lemma frame_soon [coord_frame]:
  "co_attribution (run_soon c s) = co_attribution s" "co_data (run_soon c s) = co_data s"
  "co_revisions (run_soon c s) = co_revisions s" "co_refreshes (run_soon c s) = co_refreshes s"
  by (cases c; simp add: coord_frame)+

lemma frame_loop [coord_frame]:
  "co_attribution (task_done i s) = co_attribution s" "co_data (task_done i s) = co_data s"
  "co_revisions (task_done i s) = co_revisions s" "co_refreshes (task_done i s) = co_refreshes s"
  "co_attribution (loop_turn s) = co_attribution s" "co_data (loop_turn s) = co_data s"
  "co_revisions (loop_turn s) = co_revisions s" "co_refreshes (loop_turn s) = co_refreshes s"
  by (simp_all add: task_done_def loop_turn_def coord_frame split: option.split list.split)

lemma coord_inv_same:
  assumes "co_attribution s' = co_attribution s" "co_data s' = co_data s"
    "co_revisions s' = co_revisions s" "set (co_refreshes s') \<subseteq> set (co_refreshes s)"
  shows "coord_inv s \<Longrightarrow> coord_inv s'" "published s' = published s"
  using assms by (auto simp: coord_inv_def published_def data_or_empty_def rev_of_def results_numbered_def)

subsection \<open>Publishing a refresh\<close>

lemma locked_in_set [simp]: "locked_in (dict_set k v d) m = (if m = k then ls_locked v else locked_in d m)"
  by (simp add: locked_in_def)

lemma locked_in_default [simp]: "locked_in (dict_setdefault k empty_snapshot d) m = locked_in d m"
  by (auto simp: locked_in_def dict_get_or_def empty_snapshot_def split: option.split)

lemma get_or_set: "dict_get_or (dict_set k v d) k v0 = v"
  by (simp add: dict_get_or_def)

lemma locked_in_get_or: "ls_locked (dict_get_or d m empty_snapshot) = locked_in d m"
  by (simp add: locked_in_def dict_get_or_def empty_snapshot_def split: option.split)

lemma has_state_locked: "has_state m s \<longleftrightarrow> locked_in (data_or_empty s) m \<noteq> None"
  by (simp add: has_state_def locked_in_def split: option.split)

lemma agree_known: "agree att d \<Longrightarrow> dict_get att m = Some a \<Longrightarrow> \<exists>b. locked_in d m = Some b"
  by (metis agree_def not_None_eq option.distinct(1))

lemma register_of_cong:
  "dict_get att k = dict_get att' k \<Longrightarrow> locked_in d k = locked_in d' k \<Longrightarrow> register_of att d k = register_of att' d' k"
  by (simp add: register_of_def)

lemma register_write:
  assumes "agree att d" and "locked_in d' m = Some b" and "\<And>k. k \<noteq> m \<Longrightarrow> locked_in d' k = locked_in d k"
    and "case dict_get att m of None \<Rightarrow> True | Some latest \<Rightarrow> sa_revision latest < sa_revision a"
  shows "agree (dict_set m a att) d'"
    and "register_of (dict_set m a att) d' = reg_write (m, sa_revision a, b) (register_of att d)"
proof -
  show "agree (dict_set m a att) d'" using assms(1-3) by (simp add: agree_def)
  show "register_of (dict_set m a att) d' = reg_write (m, sa_revision a, b) (register_of att d)"
  proof
    fix k
    show "register_of (dict_set m a att) d' k = reg_write (m, sa_revision a, b) (register_of att d) k"
    proof (cases "k = m")
      case True
      with assms(1,2,4) agree_known [OF assms(1)] show ?thesis
        by (auto simp: register_of_def split: option.splits)
    next
      case False
      with assms(3) [OF this] register_of_cong [of "dict_set m a att" k att d' d] show ?thesis
        by (simp split: option.split)
    qed
  qed
qed

lemma register_same:
  assumes "\<And>k. locked_in d' k = locked_in d k"
  shows "agree att d \<Longrightarrow> agree att d'" "register_of att d' = register_of att d"
  using assms by (simp_all add: agree_def register_of_def fun_eq_iff)

lemma publish_one_register:
  assumes "agree (co_attribution s) state" and "publish_one (m, r) (state, s) = (state', s')"
  shows "agree (co_attribution s') state'
    \<and> register_of (co_attribution s') state' = fold reg_write (result_offer (m, r)) (register_of (co_attribution s) state)"
proof (cases "\<exists>ob. r = Inr (Some ob)")
  case False
  then have "state' = dict_setdefault m empty_snapshot state" "s' = schedule_bootstrap_retry m s"
    "result_offer (m, r) = []"
    using assms(2) by (auto split: sum.splits option.splits)
  with assms(1) register_same [of state' state] show ?thesis by (simp add: coord_frame)
next
  case True
  then obtain ob where r: "r = Inr (Some ob)" by blast
  show ?thesis
  proof (cases "outdated m ob s")
    case True
    then obtain latest where latest: "dict_get (co_attribution s) m = Some latest"
      "sa_revision (ob_attr ob) \<le> sa_revision latest"
      by (auto simp: outdated_def split: option.splits)
    with agree_known [OF assms(1)] obtain b0 where "locked_in state m = Some b0" by blast
    with r True latest assms show ?thesis by (auto simp: register_of_def split: option.splits)
  next
    case False
    let ?new = "merge_reading (ob_state ob) (dict_get_or state m empty_snapshot)"
    show ?thesis
    proof (cases "ls_locked (ob_state ob)")
      case None
      with r False assms(2) have "state' = dict_set m ?new state" "s' = s" by auto
      moreover have "locked_in (dict_set m ?new state) k = locked_in state k" for k
        using None by (simp add: merge_reading_def locked_in_get_or)
      ultimately show ?thesis
        using None r assms(1) register_same [of state' state] by simp
    next
      case (Some b)
      with r False assms(2) have st: "state' = dict_set m ?new state"
        "co_attribution s' = dict_set m (ob_attr ob) (co_attribution s)" by auto
      have "case dict_get (co_attribution s) m of None \<Rightarrow> True
          | Some latest \<Rightarrow> sa_revision latest < sa_revision (ob_attr ob)"
        using False by (simp add: outdated_def split: option.splits)
      from register_write [OF assms(1) _ _ this, of state' b] Some r st show ?thesis
        by (simp add: merge_reading_def)
    qed
  qed
qed

lemma publish_one_frame:
  assumes "publish_one (m, r) (state, s) = (state', s')"
  shows "co_revisions s' = co_revisions s" "co_refreshes s' = co_refreshes s" "co_data s' = co_data s"
    "dict_get (co_attribution s') k = Some a \<Longrightarrow> dict_get (co_attribution s) k = Some a
      \<or> (\<exists>ob. k = m \<and> r = Inr (Some ob) \<and> a = ob_attr ob)"
  using assms by (auto simp: coord_frame split: sum.splits option.splits if_splits)

lemma publish_all:
  assumes "agree (co_attribution s) state" and "fold publish_one rs (state, s) = (state', s')"
    and "results_numbered s rs" and "\<And>k a. dict_get (co_attribution s) k = Some a \<Longrightarrow> sa_revision a \<le> rev_of s k"
  shows "agree (co_attribution s') state' \<and> co_revisions s' = co_revisions s \<and> co_refreshes s' = co_refreshes s
    \<and> register_of (co_attribution s') state' = fold reg_write (concat (map result_offer rs)) (register_of (co_attribution s) state)
    \<and> (\<forall>k a. dict_get (co_attribution s') k = Some a \<longrightarrow> sa_revision a \<le> rev_of s k)"
  using assms
proof (induction rs arbitrary: state s)
  case (Cons p rs)
  obtain m r where p: "p = (m, r)" by force
  obtain state1 s1 where one: "publish_one (m, r) (state, s) = (state1, s1)" by force
  note f = publish_one_frame [OF one]
  have "agree (co_attribution s1) state1" using publish_one_register [OF Cons.prems(1) one] by simp
  moreover have "fold publish_one rs (state1, s1) = (state', s')" using Cons.prems(2) one p by simp
  moreover have "results_numbered s1 rs" using Cons.prems(3) f by (auto simp: results_numbered_def rev_of_def)
  moreover have "sa_revision a \<le> rev_of s1 k" if "dict_get (co_attribution s1) k = Some a" for k a
    using f(4) [OF that] Cons.prems(3,4) p f(1) by (auto simp: results_numbered_def rev_of_def)
  ultimately have "agree (co_attribution s') state' \<and> co_revisions s' = co_revisions s1 \<and> co_refreshes s' = co_refreshes s1
    \<and> register_of (co_attribution s') state' = fold reg_write (concat (map result_offer rs)) (register_of (co_attribution s1) state1)
    \<and> (\<forall>k a. dict_get (co_attribution s') k = Some a \<longrightarrow> sa_revision a \<le> rev_of s1 k)"
    by (rule Cons.IH)
  with publish_one_register [OF Cons.prems(1) one] f(1,2) p show ?case by (simp add: rev_of_def)
qed simp

subsection \<open>Every event\<close>

lemma next_attribution_result:
  "next_attribution m source rssi now s = (\<lparr>sa_source = source, sa_observed_at = now, sa_rssi = rssi,
     sa_revision = rev_of s m + 1\<rparr>, s\<lparr>co_revisions := dict_set m (rev_of s m + 1) (co_revisions s)\<rparr>)"
  by (simp add: next_attribution_def rev_of_def Let_def)

lemma rev_of_set [simp]:
  "rev_of (s\<lparr>co_revisions := dict_set m n (co_revisions s)\<rparr>) k = (if k = m then n else rev_of s k)"
  by (simp add: rev_of_def dict_get_or_def)

lemma results_numbered_next:
  "results_numbered s rs \<Longrightarrow> results_numbered (s\<lparr>co_revisions := dict_set m (rev_of s m + 1) (co_revisions s)\<rparr>) rs"
  by (auto simp: results_numbered_def le_SucI)

lemma dict_set_member: "(k, v) \<in> set (dict_set m r d) \<Longrightarrow> (k, v) \<in> set d \<or> (k = m \<and> v = r)"
  by (induction d) (auto split: if_splits)

lemma refresh_results_numbered:
  assumes "results_numbered s (rf_results rf)"
    and "list_all (\<lambda>(mac, active). dict_get (rf_results rf) mac \<noteq> None) (rf_polls rf)"
  shows "results_numbered s (refresh_results rf)"
  using assms by (fastforce simp: results_numbered_def refresh_results_def list_all_iff dest: map_of_SomeD)

lemma drop_refresh_subset: "set (co_refreshes (drop_refresh i s)) \<subseteq> set (co_refreshes s)"
  by (auto simp: drop_refresh_def dest: in_set_takeD in_set_dropD)

lemma coord_quiet:
  assumes "coord_inv s" and "co_attribution (coord_apply e s) = co_attribution s"
    "co_data (coord_apply e s) = co_data s" "co_revisions (coord_apply e s) = co_revisions s"
    "co_refreshes (coord_apply e s) = co_refreshes s" "offers e s = []"
  shows "coord_inv (coord_apply e s) \<and> published (coord_apply e s) = fold reg_write (offers e s) (published s)"
proof -
  note same = coord_inv_same [of "coord_apply e s" s, OF assms(2-4)]
  from same(1) [OF _ assms(1)] same(2) assms(5,6) show ?thesis by simp
qed

lemma coord_event_register:
  assumes "coord_inv s" and "coord_enabled e s"
  shows "coord_inv (coord_apply e s) \<and> published (coord_apply e s) = fold reg_write (offers e s) (published s)"
proof (cases e)
  case (EvAdvert mac ad)
  let ?s' = "apply_advertisement mac ad s"
  let ?d = "dict_set mac \<lparr>ls_locked = ls_locked (dict_get_or (data_or_empty s) mac empty_snapshot),
      ls_battery = Some (ad_battery ad)\<rparr> (data_or_empty s)"
  have s': "co_attribution ?s' = co_attribution s" "data_or_empty ?s' = ?d"
    "co_revisions ?s' = co_revisions s" "co_refreshes ?s' = co_refreshes s"
    by (simp_all add: apply_advertisement_def Let_def coord_frame data_or_empty_def)
  have "locked_in ?d k = locked_in (data_or_empty s) k" for k by (simp add: locked_in_get_or)
  from register_same [of ?d "data_or_empty s", OF this] s' assms(1) EvAdvert show ?thesis
    by (simp add: coord_inv_def published_def rev_of_def results_numbered_def)
next
  case (EvState mac locked battery source rssi now)
  let ?a = "\<lparr>sa_source = source, sa_observed_at = now, sa_rssi = rssi, sa_revision = rev_of s mac + 1\<rparr>"
  let ?s' = "coord_apply e s"
  have s': "co_attribution ?s' = dict_set mac ?a (co_attribution s)"
    "co_revisions ?s' = dict_set mac (rev_of s mac + 1) (co_revisions s)" "co_refreshes ?s' = co_refreshes s"
    "locked_in (data_or_empty ?s') k = (if k = mac then Some locked else locked_in (data_or_empty s) k)" for k
    by (simp_all add: EvState apply_authoritative_state_def Let_def coord_frame next_attribution_result data_or_empty_def)
  have "case dict_get (co_attribution s) mac of None \<Rightarrow> True | Some latest \<Rightarrow> sa_revision latest < sa_revision ?a"
    using assms(1) by (auto simp: coord_inv_def less_Suc_eq_le split: option.split)
  note w = register_write [OF _ _ _ this, of "data_or_empty s" "data_or_empty ?s'" locked]
  have w: "agree (dict_set mac ?a (co_attribution s)) (data_or_empty ?s')"
    "register_of (dict_set mac ?a (co_attribution s)) (data_or_empty ?s')
      = reg_write (mac, rev_of s mac + 1, locked) (register_of (co_attribution s) (data_or_empty s))"
    using w assms(1) by (simp_all add: coord_inv_def s'(4) del: reg_write.simps)
  have rev: "rev_of ?s' k = (if k = mac then rev_of s mac + 1 else rev_of s k)" for k
    by (simp add: rev_of_def [of ?s'] s'(2)) (simp add: rev_of_def dict_get_or_def)
  have "results_numbered s rs \<Longrightarrow> results_numbered ?s' rs" for rs
    by (auto simp: results_numbered_def rev le_SucI)
  then have "coord_inv ?s'"
    using w(1) assms(1) unfolding coord_inv_def s'(1-3) by (auto simp: rev le_SucI)
  moreover have "offers e s = [(mac, rev_of s mac + 1, locked)]" by (simp add: EvState rev_of_def)
  ultimately show ?thesis using w(2) unfolding published_def s'(1) by (simp del: reg_write.simps)
next
  case EvBegin
  have "results_numbered s []" by (simp add: results_numbered_def)
  with assms(1) EvBegin show ?thesis
    by (auto simp: refresh_begin_def coord_inv_def published_def data_or_empty_def rev_of_def results_numbered_def)
next
  case (EvPoll i mac answer rssi now)
  obtain r s1 where obs: "poll_observation mac answer rssi now s = (r, s1)" by force
  then have s1: "co_attribution s1 = co_attribution s" "co_data s1 = co_data s"
    "\<And>k. rev_of s k \<le> rev_of s1 k" "\<And>ob. r = Inr (Some ob) \<Longrightarrow> sa_revision (ob_attr ob) \<le> rev_of s1 mac"
    by (auto simp: poll_observation_def next_attribution_result split: sum.splits option.splits prod.splits)
  let ?rf = "(co_refreshes s ! i)\<lparr>rf_results := dict_set mac r (rf_results (co_refreshes s ! i))\<rparr>"
  have more: "results_numbered s rs \<Longrightarrow> results_numbered s1 rs" for rs
    using s1(3) by (fastforce simp: results_numbered_def intro: le_trans)
  have i: "co_refreshes s ! i \<in> set (co_refreshes s)" using assms(2) EvPoll by simp
  then have "results_numbered s1 (rf_results (co_refreshes s ! i))"
    using assms(1) more by (simp add: coord_inv_def)
  then have "results_numbered s1 (dict_set mac r (rf_results (co_refreshes s ! i)))"
    using s1(4) by (auto simp: results_numbered_def dest!: dict_set_member)
  with more assms(1) have "\<forall>rf\<in>set ((co_refreshes s)[i := ?rf]). results_numbered s1 (rf_results rf)"
    using set_update_subset_insert [of "co_refreshes s" i ?rf] by (auto simp: coord_inv_def)
  moreover have "coord_apply e s = s1\<lparr>co_refreshes := (co_refreshes s)[i := ?rf]\<rparr>"
    by (simp add: EvPoll poll_answer_def obs Let_def)
  moreover have "sa_revision a \<le> rev_of s1 k" if "dict_get (co_attribution s) k = Some a" for k a
    using that assms(1) s1(3) [of k] by (auto simp: coord_inv_def intro: le_trans)
  moreover have "offers e s = []" by (simp add: EvPoll)
  ultimately show ?thesis
    using assms(1) s1(1,2) by (simp add: coord_inv_def published_def data_or_empty_def rev_of_def results_numbered_def)
next
  case (EvPublish i)
  let ?rf = "co_refreshes s ! i" and ?s0 = "drop_refresh i s"
  have s0: "co_attribution ?s0 = co_attribution s" "data_or_empty ?s0 = data_or_empty s" "co_revisions ?s0 = co_revisions s"
    by (simp_all add: drop_refresh_def data_or_empty_def)
  obtain st s1 where all: "fold publish_one (refresh_results ?rf) (data_or_empty ?s0, ?s0) = (st, s1)" by force
  have "?rf \<in> set (co_refreshes s)" using assms(2) EvPublish by simp
  then have "results_numbered s (rf_results ?rf)" using assms(1) by (simp add: coord_inv_def)
  then have "results_numbered s (refresh_results ?rf)"
    using refresh_results_numbered assms(2) EvPublish by simp
  then have "results_numbered ?s0 (refresh_results ?rf)"
    by (simp add: results_numbered_def rev_of_def s0(3))
  moreover have "agree (co_attribution ?s0) (data_or_empty ?s0)"
    "\<And>k a. dict_get (co_attribution ?s0) k = Some a \<Longrightarrow> sa_revision a \<le> rev_of ?s0 k"
    using assms(1) s0 by (simp_all add: coord_inv_def rev_of_def)
  ultimately have res: "agree (co_attribution s1) st \<and> co_revisions s1 = co_revisions s \<and> co_refreshes s1 = co_refreshes ?s0
    \<and> register_of (co_attribution s1) st = fold reg_write (offers e s) (published s)
    \<and> (\<forall>k a. dict_get (co_attribution s1) k = Some a \<longrightarrow> sa_revision a \<le> rev_of s k)"
    using publish_all [OF _ all] s0 by (simp add: EvPublish published_def rev_of_def)
  have s': "coord_apply e s = update_listeners (s1\<lparr>co_data := Some st\<rparr>)"
    by (simp add: EvPublish refresh_publish_def publish_results_def all)
  have "\<forall>rf\<in>set (co_refreshes s1). results_numbered s (rf_results rf)"
    using res drop_refresh_subset [of i s] assms(1) by (auto simp: coord_inv_def)
  with res show ?thesis
    unfolding s' by (simp add: coord_inv_def published_def coord_frame data_or_empty_def rev_of_def results_numbered_def)
next
  case (EvCancelRefresh i)
  have "co_attribution (drop_refresh i s) = co_attribution s" "co_data (drop_refresh i s) = co_data s"
    "co_revisions (drop_refresh i s) = co_revisions s" by (simp_all add: drop_refresh_def)
  from coord_inv_same [OF this drop_refresh_subset] assms(1) EvCancelRefresh show ?thesis by simp
next
  case (EvUndecoded mac)
  show ?thesis by (rule coord_quiet [OF assms(1)]) (simp_all add: EvUndecoded coord_frame)
next
  case (EvUpdateEntity mac)
  show ?thesis by (rule coord_quiet [OF assms(1)]) (simp_all add: EvUpdateEntity coord_frame)
next
  case (EvTaskDone i)
  show ?thesis by (rule coord_quiet [OF assms(1)]) (simp_all add: EvTaskDone coord_frame)
next
  case (EvRetry mac)
  show ?thesis by (rule coord_quiet [OF assms(1)]) (simp_all add: EvRetry coord_frame retry_round_def)
next
  case EvLoopTurn
  show ?thesis by (rule coord_quiet [OF assms(1)]) (simp_all add: EvLoopTurn coord_frame)
qed

interpretation coord_register: newest_wins coord_inv coord_enabled coord_apply offers published
  by unfold_locales (simp_all add: coord_event_register)

lemma reach_coord_inv: "coord_reach s \<Longrightarrow> coord_inv s"
proof (induction rule: coord_reach.induct)
  case (coord_new macs)
  show ?case by (simp add: coord_inv_def agree_def new_coord_def data_or_empty_def locked_in_def)
next
  case (coord_next s e)
  with coord_event_register show ?case by blast
qed

subsection \<open>What the coordinator promises\<close>

text \<open>
  Claim C7. The coordinator refines a register per lock that keeps the newest authoritative
  observation: in every reachable state, whatever happens next, the published lock states change
  exactly as the register does when it is offered the observations of the event. Advertisements,
  polls that are not published yet, cancelled refreshes and background tasks offer nothing.
\<close>

theorem coordinator_refines_register:
  assumes "coord_reach s" and "coord_enabled e s"
  shows "published (coord_apply e s) = fold reg_write (offers e s) (published s)"
  by (rule coord_register.refines [OF reach_coord_inv [OF assms(1)] assms(2)])

text \<open>
  An advertisement never decides whether a lock is locked: it publishes the battery
  level it carries, leaves the lock state and its provenance of every lock alone, and asks
  for a connected query when its state bit changed or new records appeared.
\<close>

lemma advertisement_only_battery:
  shows "locked_in (data_or_empty (apply_advertisement mac ad s)) k = locked_in (data_or_empty s) k
    \<and> co_attribution (apply_advertisement mac ad s) = co_attribution s
    \<and> ls_battery (dict_get_or (data_or_empty (apply_advertisement mac ad s)) mac empty_snapshot) = Some (ad_battery ad)
    \<and> (co_requests (apply_advertisement mac ad s) = co_requests s + 1)
       = (dict_get (co_hints s) mac \<notin> {None, Some (ad_lock_state ad)}
          \<or> ad_new_records ad \<and> dict_get (co_new_records s) mac \<noteq> Some True)"
proof -
  let ?s1 = "update_listeners (s\<lparr>co_hints := dict_set mac (ad_lock_state ad) (co_hints s),
      co_new_records := dict_set mac (ad_new_records ad) (co_new_records s),
      co_data := Some (dict_set mac \<lparr>ls_locked = ls_locked (dict_get_or (data_or_empty s) mac empty_snapshot),
        ls_battery = Some (ad_battery ad)\<rparr> (data_or_empty s))\<rparr>)"
  let ?ask = "dict_get (co_hints s) mac \<noteq> None \<and> dict_get (co_hints s) mac \<noteq> Some (ad_lock_state ad)
      \<or> ad_new_records ad \<and> dict_get (co_new_records s) mac \<noteq> Some True"
  have s': "apply_advertisement mac ad s
      = (if ?ask then request_refresh (request_active_state_refresh mac ?s1) else ?s1)"
    by (simp add: apply_advertisement_def Let_def)
  have "co_requests (apply_advertisement mac ad s) = (if ?ask then co_requests s + 1 else co_requests s)"
    by (simp add: s' request_refresh_def request_active_state_refresh_def update_listeners_def)
  moreover have "data_or_empty (apply_advertisement mac ad s) = dict_set mac
      \<lparr>ls_locked = ls_locked (dict_get_or (data_or_empty s) mac empty_snapshot), ls_battery = Some (ad_battery ad)\<rparr>
      (data_or_empty s)"
    by (simp add: s' coord_frame data_or_empty_def)
  moreover have "co_attribution (apply_advertisement mac ad s) = co_attribution s"
    by (simp add: s' coord_frame)
  ultimately show ?thesis by (simp add: locked_in_get_or get_or_set)
qed

subsection \<open>The bootstrap loop\<close>

definition retry_one :: "'w retry_env \<Rightarrow> nat \<Rightarrow> 'w \<Rightarrow> 'w" where
  "retry_one R a w = re_refresh R (re_sleep R (retry_delay a) w)"

primrec retry_world :: "'w retry_env \<Rightarrow> nat \<Rightarrow> nat \<Rightarrow> 'w \<Rightarrow> 'w" where
  "retry_world R a 0 w = w"
| "retry_world R a (Suc n) w = retry_world R (a + 1) n (retry_one R a w)"

lemma retry_stops:
  assumes "re_known R (retry_world R a n w)"
  shows "\<exists>k w'. retry_unknown_state R a slept w = Some (slept @ map retry_delay [a..<a + k], w')
    \<and> re_known R w' \<and> k \<le> n"
  using assms
proof (induction n arbitrary: a w slept)
  case 0
  have "retry_unknown_state R a slept w = Some (slept, w)"
    using 0 by (subst retry_unknown_state.simps) simp
  with 0 show ?case by (intro exI [of _ 0]) auto
next
  case (Suc n)
  let ?w1 = "re_sleep R (retry_delay a) w"
  consider "re_known R w" | "\<not> re_known R w" "re_known R ?w1" | "\<not> re_known R w" "\<not> re_known R ?w1" by blast
  then show ?case
  proof cases
    case 1
    then have "retry_unknown_state R a slept w = Some (slept, w)"
      by (subst retry_unknown_state.simps) simp
    with 1 show ?thesis by (intro exI [of _ 0]) auto
  next
    case 2
    then have "retry_unknown_state R a slept w = Some (slept @ [retry_delay a], ?w1)"
      by (subst retry_unknown_state.simps) (simp add: Let_def)
    with 2 show ?thesis by (intro exI [of _ 1]) auto
  next
    case 3
    then have step: "retry_unknown_state R a slept w
        = retry_unknown_state R (a + 1) (slept @ [retry_delay a]) (retry_one R a w)"
      by (subst retry_unknown_state.simps) (simp add: Let_def retry_one_def)
    from Suc.IH [of "a + 1" "retry_one R a w" "slept @ [retry_delay a]"] Suc.prems obtain k w' where
      k: "retry_unknown_state R (a + 1) (slept @ [retry_delay a]) (retry_one R a w)
        = Some ((slept @ [retry_delay a]) @ map retry_delay [a + 1..<a + 1 + k], w')" "re_known R w'" "k \<le> n"
      by auto
    have "[retry_delay a] @ map retry_delay [a + 1..<a + 1 + k] = map retry_delay [a..<a + Suc k]"
      by (simp add: upt_rec [of a])
    with step k show ?thesis by (intro exI [of _ "Suc k"]) auto
  qed
qed

lemma retry_delay_range: "60 \<le> retry_delay a \<and> retry_delay a \<le> 300"
proof -
  consider "a = 0" | "a = 1" | "2 \<le> a" by arith
  then show ?thesis
    by cases (simp_all add: retry_delay_def BOOTSTRAP_RETRY_DELAYS_def min_absorb2)
qed

text \<open>
  Claim C39. The bootstrap of an unknown lock ends: if the state becomes known after some number of
  rounds, the retry loop returns, with a known state, after at most that many sleeps, the first
  of 60, the second of 120 and all others of 300 seconds.
\<close>

theorem bootstrap_retry_ends:
  assumes "re_known R (retry_world R 0 n w)"
  shows "\<exists>k w'. k \<le> n \<and> retry_unknown_state R 0 [] w = Some (map retry_delay [0..<k], w') \<and> re_known R w'
    \<and> list_all (\<lambda>d. 60 \<le> d \<and> d \<le> 300) (map retry_delay [0..<k])
    \<and> map retry_delay [0..<4] = [60, 120, 300, 300]"
proof -
  have "map retry_delay [0..<4] = [60, 120, 300, 300]"
    by (simp add: retry_delay_def BOOTSTRAP_RETRY_DELAYS_def upt_rec)
  moreover have "list_all (\<lambda>d. 60 \<le> d \<and> d \<le> 300) (map retry_delay [0..<k])" for k
    using retry_delay_range by (simp add: list_all_iff)
  ultimately show ?thesis using retry_stops [OF assms, of "[]"] by auto
qed

subsection \<open>Concrete runs\<close>

abbreviation coord_run :: "coord_event list \<Rightarrow> coord \<Rightarrow> coord option" where
  "coord_run \<equiv> run_events coord_enabled coord_apply"

lemma coord_run_reach: "coord_run es s = Some s' \<Longrightarrow> coord_reach s \<Longrightarrow> coord_reach s'"
  by (induction es arbitrary: s) (auto simp: coord_next split: if_splits)

text \<open>A refresh of two locks; the first answers, is then commanded, and the second times out.\<close>

definition sample_macs :: "string list" where
  "sample_macs = [''AA'', ''BB'']"

definition sample_race :: "coord_event list" where
  "sample_race = [EvBegin, EvPoll 0 ''AA'' (Inr (Some (Some 1, Some 80))) None 5,
     EvState ''AA'' True None ''command'' None 6, EvPoll 0 ''BB'' (Inl (TimeoutErr [])) None 9]"

definition sample_coord :: coord where
  "sample_coord = the (coord_run sample_race (new_coord sample_macs))"

lemma sample_coord_reach: "coord_reach sample_coord"
proof -
  have "coord_run sample_race (new_coord sample_macs) = Some sample_coord" by code_simp
  from coord_run_reach [OF this] show ?thesis by (simp add: coord_new sample_macs_def)
qed

lemma sample_coord_ready: "coord_enabled (EvPublish 0) sample_coord"
  by code_simp

theorem coordinator_refines_register_witness:
  "published (coord_apply (EvPublish 0) sample_coord) ''AA'' = Some (2, True)
    \<and> offers (EvPublish 0) sample_coord = [(''AA'', 1, False)]"
proof -
  have "published sample_coord ''AA'' = Some (2, True)" "offers (EvPublish 0) sample_coord = [(''AA'', 1, False)]"
    by code_simp+
  with coordinator_refines_register [OF sample_coord_reach sample_coord_ready] show ?thesis by simp
qed

lemma advertisement_only_battery_witness:
  "locked_in (data_or_empty (apply_advertisement ''AA''
      \<lparr>ad_lock_state = 1, ad_new_records = False, ad_battery = 70, ad_mac = ''AA''\<rparr> sample_coord)) ''AA'' = Some True"
proof -
  have "locked_in (data_or_empty sample_coord) ''AA'' = Some True" by code_simp
  with advertisement_only_battery show ?thesis by metis
qed

definition sample_retry :: "nat retry_env" where
  "sample_retry = \<lparr>re_known = (\<lambda>w. 2 \<le> w), re_sleep = (\<lambda>d w. w), re_refresh = Suc\<rparr>"

theorem bootstrap_retry_ends_witness:
  "\<exists>k w'. retry_unknown_state sample_retry 0 [] 0 = Some (map retry_delay [0..<k], w') \<and> k \<le> 2"
proof -
  have "re_known sample_retry (retry_world sample_retry 0 2 0)"
    by (simp add: numeral_2_eq_2 retry_one_def sample_retry_def)
  from bootstrap_retry_ends [OF this] show ?thesis by blast
qed

subsection \<open>A log fetch the coordinator loses track of\<close>

text \<open>
  The done callback of a log fetch removes the entry of its lock, whichever task the entry
  names. When a fetch ends while the next one is already due, the callback removes the entry of
  the new one: the running fetch is in no table any more, so a further fetch can start beside
  it and \<open>async_shutdown\<close> does not cancel it.
\<close>

definition lost_fetch :: "coord_event list" where
  "lost_fetch = [EvBegin, EvPoll 0 ''AA'' (Inr (Some (Some 0, None))) None 1, EvPublish 0, EvLoopTurn,
     EvBegin, EvPoll 0 ''AA'' (Inr (Some (Some 0, None))) None 2, EvPublish 0, EvTaskDone 0, EvLoopTurn, EvLoopTurn]"

lemma log_fetch_survives_shutdown:
  "\<exists>s. coord_reach s \<and> co_running s = [(1, LogTask ''AA'')] \<and> co_running (coord_shutdown s) = [(1, LogTask ''AA'')]"
proof -
  let ?s = "the (coord_run lost_fetch (new_coord [''AA'']))"
  have run: "coord_run lost_fetch (new_coord [''AA'']) = Some ?s" by code_simp
  have "co_running ?s = [(1, LogTask ''AA'')]" "co_running (coord_shutdown ?s) = [(1, LogTask ''AA'')]" by code_simp+
  with coord_run_reach [OF run] show ?thesis by (metis coord_new distinct_singleton)
qed

end
