(* ===== verification/LockEntity.thy ===== *)
theory LockEntity
  imports Coordinator ConnControl
begin

section \<open>The lock entity (lock.py, entity.py)\<close>

text \<open>
  The entity Home Assistant shows for one lock, together with the coordinator it shares: a
  command has a transitional state while it runs and a settle window after it, in which
  readings that disagree with it are not shown. \<open>home\<close> is the entity and the coordinator; a
  \<open>home_event\<close> is what runs between two awaits. The clock is an argument of the events, the
  outcome of a command and of a query comes from the connection. Log output is not modelled.
\<close>

definition COMMAND_SETTLE_SECONDS :: rat where "COMMAND_SETTLE_SECONDS = 4"
definition LOG_FETCH_DELAY_SECONDS :: rat where "LOG_FETCH_DELAY_SECONDS = 5"

text \<open>What \<open>async_write_ha_state\<close> publishes of the entity.\<close>

record shown =
  sh_locked :: "bool option"
  sh_locking :: bool
  sh_unlocking :: bool

record lock_entity =
  le_mac :: string
  is_locked :: "bool option"
  is_locking :: bool
  is_unlocking :: bool
  settle_until :: rat
  command_held :: bool
  le_added :: bool
  le_writes :: "shown list"
  le_tasks :: "string list"

record home =
  h_lock :: lock_entity
  h_coord :: coord

definition new_lock_entity :: "string \<Rightarrow> lock_entity" where
  "new_lock_entity mac = \<lparr>le_mac = mac, is_locked = None, is_locking = False, is_unlocking = False,
     settle_until = 0, command_held = False, le_added = False, le_writes = [], le_tasks = []\<rparr>"

definition write_state :: "lock_entity \<Rightarrow> lock_entity" where
  "write_state l = l\<lparr>le_writes := le_writes l @
     [\<lparr>sh_locked = is_locked l, sh_locking = is_locking l, sh_unlocking = is_unlocking l\<rparr>]\<rparr>"

definition write_state_if_added :: "lock_entity \<Rightarrow> lock_entity" where
  "write_state_if_added l = (if le_added l then write_state l else l)"

definition create_tracked_task :: "string \<Rightarrow> lock_entity \<Rightarrow> lock_entity" where
  "create_tracked_task name l = l\<lparr>le_tasks := le_tasks l @ [name]\<rparr>"

definition set_authoritative_state :: "bool \<Rightarrow> lock_entity \<Rightarrow> lock_entity" where
  "set_authoritative_state locked l = l\<lparr>is_locked := Some locked\<rparr>"

definition settling :: "rat \<Rightarrow> bool \<Rightarrow> lock_entity \<Rightarrow> bool" where
  "settling now locked l \<longleftrightarrow> now < settle_until l \<and> Some locked \<noteq> is_locked l"

text \<open>\<open>_apply_lock_state\<close>; \<open>locked_value\<close> is the SDK's \<open>LockState.LOCKED\<close>.\<close>

definition apply_lock_state :: "int \<Rightarrow> int \<Rightarrow> rat \<Rightarrow> lock_entity \<Rightarrow> bool \<times> lock_entity" where
  "apply_lock_state locked_value raw now l =
     (let new_locked = (raw = locked_value)
      in if settling now new_locked l then (False, l)
         else (True, write_state_if_added (set_authoritative_state new_locked l)))"

text \<open>\<open>TtlockBleEntity._lock_state\<close>\<close>

definition lock_snapshot_of :: "string \<Rightarrow> coord \<Rightarrow> lock_snapshot option" where
  "lock_snapshot_of mac s = (case co_data s of None \<Rightarrow> None | Some d \<Rightarrow> dict_get d mac)"

definition sync_from_coordinator :: "rat \<Rightarrow> coord \<Rightarrow> lock_entity \<Rightarrow> lock_entity" where
  "sync_from_coordinator now s l = (case lock_snapshot_of (le_mac l) s of
     None \<Rightarrow> l
   | Some sn \<Rightarrow> (case ls_locked sn of
       None \<Rightarrow> l
     | Some locked \<Rightarrow> if settling now locked l then l else set_authoritative_state locked l))"

definition handle_coordinator_update :: "rat \<Rightarrow> coord \<Rightarrow> lock_entity \<Rightarrow> lock_entity" where
  "handle_coordinator_update now s l = write_state (sync_from_coordinator now s l)"

text \<open>\<open>__init__\<close> ends with a synchronisation; then Home Assistant adds the entity.\<close>

definition new_lock :: "rat \<Rightarrow> string \<Rightarrow> coord \<Rightarrow> lock_entity" where
  "new_lock now mac s = sync_from_coordinator now s (new_lock_entity mac)"

subsection \<open>Commands\<close>

definition set_in_flight :: "action \<Rightarrow> lock_entity \<Rightarrow> lock_entity" where
  "set_in_flight a l = write_state_if_added (l\<lparr>is_locking := (a = ALock), is_unlocking := (a \<noteq> ALock)\<rparr>)"

definition clear_in_flight :: "lock_entity \<Rightarrow> lock_entity" where
  "clear_in_flight l = l\<lparr>is_locking := False, is_unlocking := False\<rparr>"

text \<open>A change of the coordinator; its listeners run at once, the entity's among them.\<close>

definition coord_change :: "rat \<Rightarrow> (coord \<Rightarrow> coord) \<Rightarrow> home \<Rightarrow> home" where
  "coord_change now f h = (let s = f (h_coord h) in h\<lparr>h_coord := s,
     h_lock := (if co_updates s \<noteq> co_updates (h_coord h) \<and> le_added (h_lock h)
       then handle_coordinator_update now s (h_lock h) else h_lock h)\<rparr>)"

datatype entity_error = HomeAssistantError string | Unhandled exn

definition command_error :: "action \<Rightarrow> exn \<Rightarrow> string \<Rightarrow> entity_error" where
  "command_error a e mac = (if is_ttlock e
     then HomeAssistantError (''Failed to '' @ action_name a @ '' '' @ mac @ '': '' @ exn_text e)
     else Unhandled e)"

text \<open>\<open>_async_run_command\<close> up to the await of the connection, and from its outcome on.\<close>

definition command_begin :: "action \<Rightarrow> home \<Rightarrow> home" where
  "command_begin a h = h\<lparr>h_lock := set_in_flight a ((h_lock h)\<lparr>command_held := True\<rparr>)\<rparr>"

definition command_settled :: "action \<Rightarrow> rat \<Rightarrow> int option \<Rightarrow> home \<Rightarrow> home" where
  "command_settled a now rssi h =
     coord_change now (apply_authoritative_state (le_mac (h_lock h)) (a = ALock) None ''command'' rssi now)
      (h\<lparr>h_lock := (set_authoritative_state (a = ALock) (h_lock h))\<lparr>settle_until := now + COMMAND_SETTLE_SECONDS\<rparr>\<rparr>)"

text \<open>The \<open>finally\<close> and the release of the lock.\<close>

definition command_finally :: "home \<Rightarrow> home" where
  "command_finally h = h\<lparr>h_lock := (write_state_if_added (clear_in_flight (h_lock h)))\<lparr>command_held := False\<rparr>\<rparr>"

definition command_end ::
  "action \<Rightarrow> exn + unit \<Rightarrow> rat \<Rightarrow> int option \<Rightarrow> home \<Rightarrow> (entity_error + unit) \<times> home" where
  "command_end a outcome now rssi h = (case outcome of
     Inl e \<Rightarrow> (Inl (command_error a e (le_mac (h_lock h))), command_finally h)
   | Inr _ \<Rightarrow> (let h1 = command_finally (command_settled a now rssi h) in
       (Inr (), h1\<lparr>h_lock := create_tracked_task ''fetch_log_after_command'' (h_lock h1),
          h_coord := request_refresh (h_coord h1)\<rparr>)))"

subsection \<open>Push notifications\<close>

definition on_lock_event :: "home \<Rightarrow> home" where
  "on_lock_event h = h\<lparr>h_lock := create_tracked_task ''query_state'' (h_lock h)\<rparr>"

text \<open>\<open>_async_query_and_apply\<close>, from the answer of the connection on.\<close>

definition query_and_apply ::
  "int \<Rightarrow> (int option \<times> int option) option \<Rightarrow> rat \<Rightarrow> int option \<Rightarrow> home \<Rightarrow> home" where
  "query_and_apply locked_value answer now rssi h = (case answer of
     None \<Rightarrow> h
   | Some (raw_state, battery) \<Rightarrow> (case raw_state of
       None \<Rightarrow> h
     | Some raw \<Rightarrow> (let (ok, l) = apply_lock_state locked_value raw now (h_lock h) in
         if ok then coord_change now (apply_authoritative_state (le_mac l) (raw = locked_value) battery
             ''query_after_push'' rssi now) (h\<lparr>h_lock := l\<rparr>)
         else h)))"

text \<open>\<open>async_update\<close>\<close>

definition async_update :: "home \<Rightarrow> home" where
  "async_update h = h\<lparr>h_coord := request_refresh (request_active_state_refresh (le_mac (h_lock h)) (h_coord h))\<rparr>"

subsection \<open>Histories\<close>

datatype home_event =
    HCoord coord_event rat
  | HAdded
  | HPush
  | HQuery "(int option \<times> int option) option" rat "int option"
  | HBegin action
  | HEnd action "exn + unit" rat "int option"
  | HUpdate

fun home_apply :: "int \<Rightarrow> home_event \<Rightarrow> home \<Rightarrow> home" where
  "home_apply lv (HCoord e now) h = coord_change now (coord_apply e) h"
| "home_apply lv HAdded h = h\<lparr>h_lock := (h_lock h)\<lparr>le_added := True\<rparr>\<rparr>"
| "home_apply lv HPush h = on_lock_event h"
| "home_apply lv (HQuery answer now rssi) h = query_and_apply lv answer now rssi h"
| "home_apply lv (HBegin a) h = command_begin a h"
| "home_apply lv (HEnd a outcome now rssi) h = snd (command_end a outcome now rssi h)"
| "home_apply lv HUpdate h = async_update h"

text \<open>The command lock: one command at a time, and it ends as the one that began.\<close>

fun home_enabled :: "home_event \<Rightarrow> home \<Rightarrow> bool" where
  "home_enabled (HCoord e now) h \<longleftrightarrow> coord_enabled e (h_coord h)"
| "home_enabled (HBegin a) h \<longleftrightarrow> \<not> command_held (h_lock h)"
| "home_enabled (HEnd a outcome now rssi) h \<longleftrightarrow> command_held (h_lock h) \<and> is_locking (h_lock h) = (a = ALock)"
| "home_enabled e h \<longleftrightarrow> True"

inductive home_reach :: "int \<Rightarrow> home \<Rightarrow> bool" for lv where
  home_new: "coord_reach s \<Longrightarrow> home_reach lv \<lparr>h_lock = new_lock now mac s, h_coord = s\<rparr>"
| home_next: "home_reach lv h \<Longrightarrow> home_enabled e h \<Longrightarrow> home_reach lv (home_apply lv e h)"

text \<open>A whole command: the entity's bookkeeping around the connection's \<open>run_command\<close>.\<close>

definition entity_command ::
  "'w env \<Rightarrow> action \<Rightarrow> rat \<Rightarrow> int option \<Rightarrow> home \<times> 'w conn \<Rightarrow> (entity_error + unit) \<times> home \<times> 'w conn" where
  "entity_command E a now rssi = (\<lambda>(h, c). let (outcome, c') = run_command E a c;
     (r, h') = command_end a outcome now rssi (command_begin a h) in (r, h', c'))"

end
