(* ===== verification/PollRuns.thy ===== *)
theory PollRuns
  imports House CoordProps LockEntity
begin

section \<open>A refresh over all connections (coordinator.py, connection.py, lock.py)\<close>

text \<open>
  The coordinator's refresh together with the connections it polls. The polls of one refresh run
  concurrently, each on the connection of its lock; \<open>run_refresh\<close> takes the order in which they
  return as an argument, and what it publishes does not depend on it. The operation log is
  fetched apart from the state, by tasks whose failures stay their own.
\<close>

subsection \<open>Polls\<close>

text \<open>\<open>_async_poll\<close> of the lock \<open>mac\<close> in the refresh \<open>i\<close>; \<open>conn_of\<close> is the coordinator's map of connections.\<close>

definition poll_lock ::
  "(string \<Rightarrow> nat) \<Rightarrow> (nat \<Rightarrow> 'w env) \<Rightarrow> (string \<Rightarrow> rat) \<Rightarrow> nat \<Rightarrow> string \<Rightarrow> coord \<times> 'w house \<Rightarrow> coord \<times> 'w house" where
  "poll_lock conn_of E now i mac = (\<lambda>(s, H).
     let c = conn_of mac; active = (dict_get (rf_polls (co_refreshes s ! i)) mac = Some True) in
     case on_connection c (query_state (E c) active) H of
       (answer, H') \<Rightarrow> (poll_answer i mac answer (last_rssi (H' c)) (now mac) s, H'))"

text \<open>\<open>_async_update_data\<close> with nothing else in between.\<close>

definition run_refresh ::
  "(string \<Rightarrow> nat) \<Rightarrow> (nat \<Rightarrow> 'w env) \<Rightarrow> (string \<Rightarrow> rat) \<Rightarrow> string list \<Rightarrow> coord \<times> 'w house \<Rightarrow> coord \<times> 'w house" where
  "run_refresh conn_of E now order = (\<lambda>(s, H). let i = length (co_refreshes s) in
     case fold (poll_lock conn_of E now i) order (refresh_begin s, H) of (s', H') \<Rightarrow> (refresh_publish i s', H'))"

subsection \<open>What one lock's answer becomes\<close>

definition poll_outcome ::
  "exn + (int option \<times> int option) option \<Rightarrow> int option \<Rightarrow> rat \<Rightarrow> nat \<Rightarrow> poll_result" where
  "poll_outcome answer rssi now rv = (case answer of
     Inl e \<Rightarrow> Inl e
   | Inr None \<Rightarrow> Inr None
   | Inr (Some (raw, battery)) \<Rightarrow> Inr (Some \<lparr>ob_state = \<lparr>ls_locked = parse_lock_state raw, ls_battery = battery\<rparr>,
       ob_attr = \<lparr>sa_source = ''query'', sa_observed_at = now, sa_rssi = rssi, sa_revision = rv + 1\<rparr>\<rparr>))"

text \<open>The reference: what the lock shows after a poll with this answer.\<close>

fun polled_snapshot :: "exn + (int option \<times> int option) option \<Rightarrow> lock_snapshot \<Rightarrow> lock_snapshot" where
  "polled_snapshot (Inr (Some (raw, battery))) current =
     merge_reading \<lparr>ls_locked = parse_lock_state raw, ls_battery = battery\<rparr> current"
| "polled_snapshot _ current = current"

lemma poll_observation_outcome:
  "fst (poll_observation mac answer rssi now s) = poll_outcome answer rssi now (rev_of s mac)"
  "co_data (snd (poll_observation mac answer rssi now s)) = co_data s"
  "co_attribution (snd (poll_observation mac answer rssi now s)) = co_attribution s"
  "co_refreshes (snd (poll_observation mac answer rssi now s)) = co_refreshes s"
  "k \<noteq> mac \<Longrightarrow> rev_of (snd (poll_observation mac answer rssi now s)) k = rev_of s k"
  by (auto simp: poll_observation_def poll_outcome_def next_attribution_result Let_def
      split: sum.split option.split prod.split)

lemma poll_answer_frame:
  assumes "i < length (co_refreshes s)"
  shows "co_data (poll_answer i mac answer rssi now s) = co_data s"
    and "co_attribution (poll_answer i mac answer rssi now s) = co_attribution s"
    and "co_refreshes (poll_answer i mac answer rssi now s) = (co_refreshes s)[i := (co_refreshes s ! i)
      \<lparr>rf_results := dict_set mac (poll_outcome answer rssi now (rev_of s mac)) (rf_results (co_refreshes s ! i))\<rparr>]"
    and "k \<noteq> mac \<Longrightarrow> rev_of (poll_answer i mac answer rssi now s) k = rev_of s k"
proof -
  obtain r s1 where o: "poll_observation mac answer rssi now s = (r, s1)" by force
  have run: "poll_answer i mac answer rssi now s
    = s1\<lparr>co_refreshes := (co_refreshes s)[i := (co_refreshes s ! i)\<lparr>rf_results := dict_set mac r (rf_results (co_refreshes s ! i))\<rparr>]\<rparr>"
    by (simp add: poll_answer_def o Let_def)
  note f = poll_observation_outcome [where mac = mac and answer = answer and rssi = rssi and now = now and s = s, unfolded o, simplified]
  show "co_data (poll_answer i mac answer rssi now s) = co_data s"
    "co_attribution (poll_answer i mac answer rssi now s) = co_attribution s"
    "co_refreshes (poll_answer i mac answer rssi now s) = (co_refreshes s)[i := (co_refreshes s ! i)
      \<lparr>rf_results := dict_set mac (poll_outcome answer rssi now (rev_of s mac)) (rf_results (co_refreshes s ! i))\<rparr>]"
    using f(1-3) by (simp_all add: run)
  show "k \<noteq> mac \<Longrightarrow> rev_of (poll_answer i mac answer rssi now s) k = rev_of s k"
    using f(5) by (simp add: run rev_of_def)
qed

subsection \<open>The polls of one refresh\<close>

text \<open>The poll of a lock as it would run alone on the connections \<open>H\<close>.\<close>

definition lone_query ::
  "(string \<Rightarrow> nat) \<Rightarrow> (nat \<Rightarrow> 'w env) \<Rightarrow> (string \<times> bool) list \<Rightarrow> 'w house \<Rightarrow> string \<Rightarrow>
   (exn + (int option \<times> int option) option) \<times> 'w conn" where
  "lone_query conn_of E polls H mac =
     query_state (E (conn_of mac)) (dict_get polls mac = Some True) (H (conn_of mac))"

lemma poll_lock_step:
  assumes "i < length (co_refreshes s)" and "poll_lock conn_of E now i mac (s, H) = (s1, H1)"
    and "lone_query conn_of E (rf_polls (co_refreshes s ! i)) H mac = (answer, c')"
  shows "H1 = H(conn_of mac := c') \<and> s1 = poll_answer i mac answer (last_rssi c') (now mac) s"
  using assms(2,3) by (auto simp: poll_lock_def lone_query_def on_connection_def Let_def split: prod.splits)

lemma polls_result:
  assumes "fold (poll_lock conn_of E now i) order (s, H) = (s', H')" and "i < length (co_refreshes s)"
    and "distinct order" and "inj_on conn_of (set order)"
  shows "co_data s' = co_data s \<and> co_attribution s' = co_attribution s
    \<and> length (co_refreshes s') = length (co_refreshes s)
    \<and> rf_polls (co_refreshes s' ! i) = rf_polls (co_refreshes s ! i)
    \<and> (\<forall>m. m \<notin> set order \<longrightarrow> rev_of s' m = rev_of s m
        \<and> dict_get (rf_results (co_refreshes s' ! i)) m = dict_get (rf_results (co_refreshes s ! i)) m)
    \<and> (\<forall>c. c \<notin> conn_of ` set order \<longrightarrow> H' c = H c)
    \<and> (\<forall>m\<in>set order. \<forall>answer c'. lone_query conn_of E (rf_polls (co_refreshes s ! i)) H m = (answer, c') \<longrightarrow>
        H' (conn_of m) = c' \<and> dict_get (rf_results (co_refreshes s' ! i)) m
          = Some (poll_outcome answer (last_rssi c') (now m) (rev_of s m)))"
  using assms
proof (induction order arbitrary: s H)
  case (Cons m ms)
  let ?P = "rf_polls (co_refreshes s ! i)"
  obtain answer c' where q: "lone_query conn_of E ?P H m = (answer, c')" by force
  obtain s1 H1 where one: "poll_lock conn_of E now i m (s, H) = (s1, H1)" by force
  from poll_lock_step [OF Cons.prems(2) one q]
  have H1: "H1 = H(conn_of m := c')" and s1: "s1 = poll_answer i m answer (last_rssi c') (now m) s" by simp_all
  note f = poll_answer_frame [OF Cons.prems(2), where mac = m and answer = answer and rssi = "last_rssi c'" and now = "now m", folded s1]
  have i1: "i < length (co_refreshes s1)" using Cons.prems(2) f(3) by simp
  have polls: "rf_polls (co_refreshes s1 ! i) = ?P" using Cons.prems(2) f(3) by simp
  have res: "dict_get (rf_results (co_refreshes s1 ! i)) k = (if k = m
      then Some (poll_outcome answer (last_rssi c') (now m) (rev_of s m))
      else dict_get (rf_results (co_refreshes s ! i)) k)" for k
    using Cons.prems(2) f(3) by simp
  have other: "lone_query conn_of E ?P H1 k = lone_query conn_of E ?P H k" if "k \<in> set ms" for k
  proof -
    have "conn_of m \<notin> conn_of ` set ms" using Cons.prems(3,4) by simp
    with that have "conn_of k \<noteq> conn_of m" by (metis imageI)
    then show ?thesis by (simp add: lone_query_def H1)
  qed
  have keep: "rev_of s1 k = rev_of s k" if "k \<noteq> m" for k using f(4) that by blast
  have run: "fold (poll_lock conn_of E now i) ms (s1, H1) = (s', H')" using Cons.prems(1) one by simp
  have "conn_of m \<notin> conn_of ` set ms" and fresh: "m \<notin> set ms" using Cons.prems(3,4) by simp_all
  have ms: "distinct ms" "inj_on conn_of (set ms)" using Cons.prems(3,4) by simp_all
  from Cons.IH [OF run i1 ms] polls have
    same: "co_data s' = co_data s1" "co_attribution s' = co_attribution s1" "length (co_refreshes s') = length (co_refreshes s1)"
      "rf_polls (co_refreshes s' ! i) = ?P"
    and untouched: "\<And>k. k \<notin> set ms \<Longrightarrow> rev_of s' k = rev_of s1 k
        \<and> dict_get (rf_results (co_refreshes s' ! i)) k = dict_get (rf_results (co_refreshes s1 ! i)) k"
    and conns: "\<And>c. c \<notin> conn_of ` set ms \<Longrightarrow> H' c = H1 c"
    and polled: "\<And>k answer c'. k \<in> set ms \<Longrightarrow> lone_query conn_of E ?P H1 k = (answer, c') \<Longrightarrow>
        H' (conn_of k) = c' \<and> dict_get (rf_results (co_refreshes s' ! i)) k
          = Some (poll_outcome answer (last_rssi c') (now k) (rev_of s1 k))"
    by simp_all
  have "H' (conn_of k) = c \<and> dict_get (rf_results (co_refreshes s' ! i)) k = Some (poll_outcome a (last_rssi c) (now k) (rev_of s k))"
    if k: "k \<in> set (m # ms)" "lone_query conn_of E ?P H k = (a, c)" for k a c
  proof (cases "k = m")
    case True
    with k(2) q have "a = answer" "c = c'" by simp_all
    with True conns [OF \<open>conn_of m \<notin> _\<close>] untouched [OF fresh] res [of m] H1 show ?thesis by simp
  next
    case False
    with k(1) have "k \<in> set ms" by simp
    with polled [of k a c] other [of k] k(2) keep [OF False] show ?thesis by simp
  qed
  moreover have "rev_of s' k = rev_of s k
      \<and> dict_get (rf_results (co_refreshes s' ! i)) k = dict_get (rf_results (co_refreshes s ! i)) k"
    if "k \<notin> set (m # ms)" for k
    using untouched [of k] res [of k] keep [of k] that by simp
  moreover have "H' c = H c" if "c \<notin> conn_of ` set (m # ms)" for c
    using conns [of c] H1 that by simp
  ultimately show ?case using same f(1,2,3) by simp
qed simp

subsection \<open>Publishing them\<close>

text \<open>A result is the poll's own, newer than anything published of the lock.\<close>

definition current_result :: "coord \<Rightarrow> string \<times> poll_result \<Rightarrow> bool" where
  "current_result s p \<longleftrightarrow> (\<forall>ob. snd p = Inr (Some ob) \<longrightarrow> \<not> outdated (fst p) ob s)"

fun result_snapshot :: "poll_result \<Rightarrow> lock_snapshot \<Rightarrow> lock_snapshot" where
  "result_snapshot (Inr (Some ob)) current = merge_reading (ob_state ob) current"
| "result_snapshot _ current = current"

lemma publish_one_snapshot:
  assumes "publish_one (m, r) (d, s) = (d', s')" and "current_result s (m, r)"
  shows "dict_get d' k = (if k = m then Some (result_snapshot r (dict_get_or d m empty_snapshot)) else dict_get d k)
    \<and> (k \<noteq> m \<longrightarrow> dict_get (co_attribution s') k = dict_get (co_attribution s) k)"
proof (cases "\<exists>ob. r = Inr (Some ob)")
  case True
  then obtain ob where r: "r = Inr (Some ob)" by blast
  with assms(2) have "\<not> outdated m ob s" by (simp add: current_result_def)
  with assms(1) r show ?thesis by (auto split: if_splits)
next
  case False
  then have "d' = dict_setdefault m empty_snapshot d" "s' = schedule_bootstrap_retry m s"
    and "result_snapshot r x = x" for x
    using assms(1) by (auto split: sum.splits option.splits elim: result_snapshot.elims)
  then show ?thesis by (simp add: coord_frame)
qed

lemma publish_snapshots:
  assumes "fold publish_one ps (d, s) = (d', s')" and "distinct (map fst ps)" and "list_all (current_result s) ps"
  shows "dict_get d' k = (case dict_get ps k of None \<Rightarrow> dict_get d k
    | Some r \<Rightarrow> Some (result_snapshot r (dict_get_or d k empty_snapshot)))"
  using assms
proof (induction ps arbitrary: d s)
  case (Cons p ps)
  obtain m r where p: "p = (m, r)" by force
  obtain d1 s1 where one: "publish_one (m, r) (d, s) = (d1, s1)" by force
  have "current_result s (m, r)" using Cons.prems(3) p by simp
  note first = publish_one_snapshot [OF one this]
  have "current_result s1 q" if "q \<in> set ps" for q
  proof -
    have "fst q \<noteq> m" using that Cons.prems(2) p by auto
    with first [of "fst q"] have "dict_get (co_attribution s1) (fst q) = dict_get (co_attribution s) (fst q)" by simp
    moreover have "current_result s q" using that Cons.prems(3) by (simp add: list_all_iff)
    ultimately show ?thesis by (simp add: current_result_def outdated_def)
  qed
  then have "list_all (current_result s1) ps" by (simp add: list_all_iff)
  moreover have "fold publish_one ps (d1, s1) = (d', s')" "distinct (map fst ps)" using Cons.prems(1,2) one p by simp_all
  ultimately have IH: "dict_get d' k = (case dict_get ps k of None \<Rightarrow> dict_get d1 k
    | Some r \<Rightarrow> Some (result_snapshot r (dict_get_or d1 k empty_snapshot)))" using Cons.IH by blast
  have "dict_get ps m = None" using Cons.prems(2) p by (simp add: map_of_eq_None_iff)
  then show ?case
    using IH first [of k] p by (auto simp: dict_get_or_def split: option.split)
qed simp

lemma poll_outcome_snapshot:
  "result_snapshot (poll_outcome answer rssi now rv) current = polled_snapshot answer current"
  by (cases "(answer, current)" rule: polled_snapshot.cases) (simp_all add: poll_outcome_def)

lemma poll_outcome_current:
  assumes "coord_inv s0" and "co_attribution s = co_attribution s0"
  shows "current_result s (m, poll_outcome answer rssi now (rev_of s0 m))"
proof -
  have "\<not> outdated m ob s" if "poll_outcome answer rssi now (rev_of s0 m) = Inr (Some ob)" for ob
  proof -
    from that have "sa_revision (ob_attr ob) = rev_of s0 m + 1"
      by (auto simp: poll_outcome_def split: sum.splits option.splits prod.splits)
    moreover have "sa_revision a \<le> rev_of s0 m" if "dict_get (co_attribution s) m = Some a" for a
      using assms that by (simp add: coord_inv_def)
    ultimately show ?thesis by (auto simp: outdated_def split: option.split)
  qed
  then show ?thesis by (simp add: current_result_def)
qed

subsection \<open>A whole refresh\<close>

lemma refresh_begin_polls:
  assumes "mac \<in> set (co_macs s)"
  shows "dict_get (rf_polls (co_refreshes (refresh_begin s) ! length (co_refreshes s))) mac
    = Some (mac \<in> co_scan_requested s \<or> \<not> has_state mac s)"
  using assms by (simp add: refresh_begin_def map_of_map_restrict restrict_map_def)

lemma refresh_begin_frame:
  "co_data (refresh_begin s) = co_data s" "co_attribution (refresh_begin s) = co_attribution s"
  "rev_of (refresh_begin s) = rev_of s" "length (co_refreshes (refresh_begin s)) = Suc (length (co_refreshes s))"
  "map fst (rf_polls (co_refreshes (refresh_begin s) ! length (co_refreshes s))) = co_macs s"
  "rf_results (co_refreshes (refresh_begin s) ! length (co_refreshes s)) = []"
  by (simp_all add: refresh_begin_def rev_of_def fun_eq_iff comp_def)

lemma published_snapshots:
  assumes "distinct (map fst (rf_polls rf))" and "rf = co_refreshes s ! i"
    and "list_all (current_result s) (refresh_results rf)" and "mac \<in> set (map fst (rf_polls rf))"
    and "dict_get (rf_results rf) mac = Some r"
  shows "dict_get (data_or_empty (refresh_publish i s)) mac
    = Some (result_snapshot r (dict_get_or (data_or_empty s) mac empty_snapshot))"
proof -
  let ?s = "drop_refresh i s"
  have frame: "data_or_empty ?s = data_or_empty s" "co_attribution ?s = co_attribution s"
    by (simp_all add: drop_refresh_def data_or_empty_def)
  obtain d' s' where run: "fold publish_one (refresh_results rf) (data_or_empty ?s, ?s) = (d', s')" by force
  have fsts: "map fst (refresh_results rf) = map fst (rf_polls rf)"
    by (simp add: refresh_results_def split_def comp_def)
  have "list_all (current_result ?s) (refresh_results rf)"
    using assms(3) frame(2) by (simp add: current_result_def outdated_def list_all_iff)
  from publish_snapshots [OF run _ this, of mac, unfolded frame(1)] fsts assms(1)
  have d': "dict_get d' mac = (case dict_get (refresh_results rf) mac of None \<Rightarrow> dict_get (data_or_empty s) mac
    | Some r \<Rightarrow> Some (result_snapshot r (dict_get_or (data_or_empty s) mac empty_snapshot)))" by (simp add: frame)
  have "(mac, r) \<in> set (refresh_results rf)"
    using assms(4,5) by (force simp: refresh_results_def)
  then have "dict_get (refresh_results rf) mac = Some r" using fsts assms(1) by simp
  moreover have "data_or_empty (refresh_publish i s) = d'"
    using run assms(2) by (simp add: refresh_publish_def publish_results_def update_listeners_def data_or_empty_def)
  ultimately show ?thesis using d' by simp
qed

text \<open>
  Claim C8. The locks of a refresh do not disturb one another. Whatever order their polls return in, a
  refresh publishes for each lock exactly what that lock's own poll, run alone on its own
  connection, makes of the state published before: the state and battery it read, the older
  value where it read none, and no change where it failed or did not answer. Each connection is
  left as its own poll leaves it, at rest and without a bolt command, and every lock has an entry.
\<close>

theorem refresh_polls_independent:
  assumes "coord_reach s" and "distinct (co_macs s)" and "inj_on conn_of (set (co_macs s))"
    and "distinct order" and "set order = set (co_macs s)" and "house_at_rest H"
    and "run_refresh conn_of E now order (s, H) = (s', H')" and "mac \<in> set (co_macs s)"
    and "query_state (E (conn_of mac)) (mac \<in> co_scan_requested s \<or> \<not> has_state mac s) (H (conn_of mac)) = (answer, c')"
  shows "dict_get (data_or_empty s') mac = Some (polled_snapshot answer (dict_get_or (data_or_empty s) mac empty_snapshot))
    \<and> H' (conn_of mac) = c' \<and> at_rest c'
    \<and> (\<exists>cs. sdk_log c' = sdk_log (H (conn_of mac)) @ cs \<and> controls cs = 0)"
proof -
  let ?i = "length (co_refreshes s)" and ?s0 = "refresh_begin s"
  let ?P = "rf_polls (co_refreshes ?s0 ! ?i)"
  obtain s1 where polls: "fold (poll_lock conn_of E now ?i) order (?s0, H) = (s1, H')" and s': "s' = refresh_publish ?i s1"
    using assms(7) by (auto simp: run_refresh_def Let_def split: prod.splits)
  note begun = refresh_begin_frame [of s]
  have "?i < length (co_refreshes ?s0)" by (simp add: begun)
  from polls_result [OF polls this assms(4)] assms(3,5) have
    same: "co_data s1 = co_data s" "co_attribution s1 = co_attribution s" "rf_polls (co_refreshes s1 ! ?i) = ?P"
    and polled: "\<And>m a c. m \<in> set (co_macs s) \<Longrightarrow> lone_query conn_of E ?P H m = (a, c) \<Longrightarrow> H' (conn_of m) = c
      \<and> dict_get (rf_results (co_refreshes s1 ! ?i)) m = Some (poll_outcome a (last_rssi c) (now m) (rev_of s m))"
    by (simp_all add: begun)
  let ?rf = "co_refreshes s1 ! ?i"
  have inv: "coord_inv s" using assms(1) by (rule reach_coord_inv)
  have "current_result s1 p" if p: "p \<in> set (refresh_results ?rf)" for p
  proof -
    from p obtain m where m: "m \<in> set (co_macs s)" "p = (m, the (dict_get (rf_results ?rf) m))"
      unfolding begun(5) [symmetric] refresh_results_def same(3) by force
    obtain a c where "lone_query conn_of E ?P H m = (a, c)" by force
    from polled [OF m(1) this] m(2) show ?thesis using poll_outcome_current [OF inv same(2)] by simp
  qed
  then have current: "list_all (current_result s1) (refresh_results ?rf)" by (simp add: list_all_iff)
  have lone: "lone_query conn_of E ?P H mac = (answer, c')"
    using assms(9) refresh_begin_polls [OF assms(8)] by (simp add: lone_query_def)
  have "dict_get (data_or_empty s') mac = Some (result_snapshot
      (poll_outcome answer (last_rssi c') (now mac) (rev_of s mac)) (dict_get_or (data_or_empty s1) mac empty_snapshot))"
    unfolding s' by (rule published_snapshots [OF _ refl current])
      (use assms(2,8) polled [OF assms(8) lone] begun(5) same(3) in simp_all)
  moreover have "data_or_empty s1 = data_or_empty s" using same(1) by (simp add: data_or_empty_def)
  moreover have "rest 0 (H (conn_of mac)) c'"
  proof -
    have "at_rest (H (conn_of mac))" using assms(6) by (simp add: house_at_rest_def)
    from triple_result [OF query_rest rest_refl [OF this] assms(9)] show ?thesis by (cases answer) auto
  qed
  ultimately show ?thesis
    using polled [OF assms(8) lone] by (auto simp: poll_outcome_snapshot rest_def issued_def)
qed

subsection \<open>Operation logs\<close>

text \<open>\<open>_async_sync_operation_log\<close>, and \<open>_async_fetch_log_after_command\<close> of the lock entity.\<close>

definition sync_operation_log :: "'w env \<Rightarrow> ('w conn, unit) eff" where
  "sync_operation_log E = m_catch (m_bind (get_operation_log E) (\<lambda>_. m_return ()))
     (\<lambda>e. if is_exception e then m_return () else m_raise e)"

definition fetch_log_after_command :: "'w env \<Rightarrow> ('w conn, unit) eff" where
  "fetch_log_after_command E =
     m_then (sleep_for E LOG_FETCH_DELAY_SECONDS) (m_bind (get_operation_log E) (\<lambda>_. m_return ()))"

lemma log_done: "triple (rest k s0) (m_bind (get_operation_log E) (\<lambda>_. m_return ())) (\<lambda>_. rest k s0) (\<lambda>e s. e = Cancelled \<and> rest k s0 s)"
  by (rule triple_bind [OF log_rest]) (rule triple_return)

text \<open>Both leave the connection at rest without a bolt command, and raise nothing but a cancellation.\<close>

lemma sync_log_contained:
  "triple (rest k s0) (sync_operation_log E) (\<lambda>_. rest k s0) (\<lambda>e s. e = Cancelled \<and> rest k s0 s)"
  unfolding sync_operation_log_def
  by (rule triple_catch [OF log_done]) (auto simp: triple_def eff_defs)

lemma fetch_after_command_contained:
  "triple (rest k s0) (fetch_log_after_command E) (\<lambda>_. rest k s0) (\<lambda>e s. e = Cancelled \<and> rest k s0 s)"
proof -
  have "triple (rest k s0) (if c then m_raise Cancelled else m_return ()) (\<lambda>_. rest k s0) (\<lambda>e s. e = Cancelled \<and> rest k s0 s)" for c
    by (auto simp: triple_def eff_defs)
  then have "triple (rest k s0) (sleep_for E t) (\<lambda>_. rest k s0) (\<lambda>e s. e = Cancelled \<and> rest k s0 s)" for t
    unfolding sleep_for_def by (intro triple_then [OF triple_call] triple_bind [OF triple_await [OF stable_rest]]) auto
  then show ?thesis unfolding fetch_log_after_command_def by (rule triple_then) (rule log_done)
qed

subsection \<open>A query after a push event\<close>

text \<open>\<open>_async_query_and_apply\<close> with the query it makes; the connection is not scanned for actively.\<close>

definition push_query ::
  "'w env \<Rightarrow> int \<Rightarrow> rat \<Rightarrow> home \<times> 'w conn \<Rightarrow> (exn + unit) \<times> home \<times> 'w conn" where
  "push_query E locked_value now = (\<lambda>(h, c). case query_state E False c of
     (Inl e, c') \<Rightarrow> (Inl e, h, c')
   | (Inr answer, c') \<Rightarrow> (Inr (), query_and_apply locked_value answer now (last_rssi c') h, c'))"

lemma push_query_unanswered:
  assumes "push_query E lv now (h, c) = (r, h', c')" and "fst (query_state E False c) = Inr None"
  shows "h' = h"
  using assms by (auto simp: push_query_def query_and_apply_def split: prod.splits sum.splits)

subsection \<open>A concrete refresh\<close>

definition sample_lines :: "nat house" where "sample_lines = (\<lambda>_. sample_conn)"

definition line_of :: "string \<Rightarrow> nat" where "line_of mac = (if mac = ''AA'' then 0 else 1)"

definition line_env :: "nat \<Rightarrow> nat env" where
  "line_env i = (if i = 0 then sample_env else sample_absent)"

lemma merge_empty: "merge_reading sn empty_snapshot = sn"
  by (cases sn) (auto simp: merge_reading_def empty_snapshot_def)

theorem refresh_polls_independent_witness:
  "\<exists>s' H' raw battery. run_refresh line_of line_env (\<lambda>_. 5) [''BB'', ''AA''] (new_coord [''AA'', ''BB''], sample_lines) = (s', H')
    \<and> dict_get (data_or_empty s') ''AA'' = Some \<lparr>ls_locked = parse_lock_state raw, ls_battery = battery\<rparr>
    \<and> dict_get (data_or_empty s') ''BB'' = Some empty_snapshot"
proof -
  let ?s = "new_coord [''AA'', ''BB'']"
  obtain s' H' where run: "run_refresh line_of line_env (\<lambda>_. 5) [''BB'', ''AA''] (?s, sample_lines) = (s', H')" by force
  have reach: "coord_reach ?s" by (rule coord_new) simp
  have rest: "house_at_rest sample_lines" using sample_rest by (simp add: house_at_rest_def sample_lines_def)
  have macs: "co_macs ?s = [''AA'', ''BB'']" and none: "data_or_empty ?s = []" "\<not> has_state m ?s" for m
    by (simp_all add: new_coord_def data_or_empty_def has_state_def)
  have inj: "inj_on line_of (set (co_macs ?s))" by (simp add: macs line_of_def inj_on_def)
  have lists: "distinct (co_macs ?s)" "distinct [''BB'', ''AA'']" "set [''BB'', ''AA''] = set (co_macs ?s)" by (auto simp: macs)
  note one = refresh_polls_independent [OF reach lists(1) inj lists(2,3) rest run]
  obtain a ca where a: "query_state (line_env (line_of ''AA'')) True (sample_lines (line_of ''AA'')) = (a, ca)" by force
  obtain b cb where b: "query_state (line_env (line_of ''BB'')) True (sample_lines (line_of ''BB'')) = (b, cb)" by force
  have "\<exists>v. fst (query_state (line_env (line_of ''AA'')) True (sample_lines (line_of ''AA''))) = Inr (Some v)"
  proof -
    have "case fst (query_state (line_env (line_of ''AA'')) True (sample_lines (line_of ''AA''))) of Inr (Some v) \<Rightarrow> True | _ \<Rightarrow> False"
      by code_simp
    then show ?thesis by (auto split: sum.splits option.splits)
  qed
  then obtain raw battery where answered: "a = Inr (Some (raw, battery))" using a by auto
  have "fst (query_state (line_env (line_of ''BB'')) True (sample_lines (line_of ''BB''))) = Inr None" by code_simp
  then have unknown: "b = Inr None" using b by simp
  from one [of "''AA''" a ca] a answered macs none
  have "dict_get (data_or_empty s') ''AA'' = Some \<lparr>ls_locked = parse_lock_state raw, ls_battery = battery\<rparr>"
    by (simp add: dict_get_or_def merge_empty)
  moreover from one [of "''BB''" b cb] b unknown macs none have "dict_get (data_or_empty s') ''BB'' = Some empty_snapshot"
    by (simp add: dict_get_or_def)
  ultimately show ?thesis using run by blast
qed

end
