(* ===== verification/ConnProtocol.thy ===== *)
theory ConnProtocol
  imports ConnProps
begin

section \<open>The protocol of the one session (connection.py)\<close>

text \<open>
  What the SDK and the scanner see of a connection. The specification is an automaton over the
  calls (\<open>session_run\<close>) that knows nothing of the connection: clients are numbered in the order
  they are created, a client is connected once, right after its creation, used only between
  its connection and its first disconnect, and never again once a later one exists. The calls
  of every history are a run of it, and the client the connection owns is the one the
  automaton is at.
\<close>

subsection \<open>The automaton\<close>

datatype session = NoSession | Created nat | Dialled nat | Closed nat

fun session_gen :: "session \<Rightarrow> nat" where
  "session_gen NoSession = 0"
| "session_gen (Created g) = g"
| "session_gen (Dialled g) = g"
| "session_gen (Closed g) = g"

fun in_setup :: "session \<Rightarrow> bool" where
  "in_setup (Created g) = True"
| "in_setup _ = False"

fun client_of :: "sdk_call \<Rightarrow> nat option" where
  "client_of (CCreate g n) = Some g"
| "client_of (CConnect g t) = Some g"
| "client_of (CDisconnect g) = Some g"
| "client_of (CQuery g) = Some g"
| "client_of (CControl g a) = Some g"
| "client_of (CManage g nm) = Some g"
| "client_of (CLogRead g) = Some g"
| "client_of (CInventory g nm b) = Some g"
| "client_of _ = None"

text \<open>The calls that use a client, between its connection and its disconnect.\<close>

fun uses :: "nat \<Rightarrow> sdk_call \<Rightarrow> bool" where
  "uses g (CQuery h) = (h = g)"
| "uses g (CControl h a) = (h = g)"
| "uses g (CManage h nm) = (h = g)"
| "uses g (CLogRead h) = (h = g)"
| "uses g (CInventory h nm b) = (h = g)"
| "uses g _ = False"

definition session_step :: "sdk_call \<Rightarrow> session \<Rightarrow> session option" where
  "session_step c st = (case c of
     CCreate g n \<Rightarrow> if g = Suc (session_gen st) \<and> \<not> in_setup st then Some (Created g) else None
   | CConnect g t \<Rightarrow> if st = Created g then Some (Dialled g) else None
   | CDisconnect g \<Rightarrow> if st = Dialled g \<or> st = Closed g then Some (Closed g) else None
   | _ \<Rightarrow> if (case client_of c of None \<Rightarrow> \<not> in_setup st | Some g \<Rightarrow> st = Dialled g) then Some st else None)"

fun session_run :: "sdk_call list \<Rightarrow> session \<Rightarrow> session option" where
  "session_run [] st = Some st"
| "session_run (c # cs) st = (case session_step c st of None \<Rightarrow> None | Some st' \<Rightarrow> session_run cs st')"

lemma session_run_append:
  "session_run (cs @ ds) st = (case session_run cs st of None \<Rightarrow> None | Some st' \<Rightarrow> session_run ds st')"
  by (induction cs arbitrary: st) (auto split: option.split)

lemma session_step_gen: "session_step c st = Some st' \<Longrightarrow> session_gen st \<le> session_gen st'"
  by (auto simp: session_step_def split: sdk_call.splits if_splits)

text \<open>What a run excludes: a client that was passed or disconnected is not used again.\<close>

definition past :: "nat \<Rightarrow> session \<Rightarrow> bool" where
  "past g st \<longleftrightarrow> g < session_gen st \<or> st = Closed g"

lemma past_step:
  assumes "session_step c st = Some st'" and "past g st"
  shows "past g st' \<and> \<not> uses g c \<and> (client_of c = Some g \<longrightarrow> c = CDisconnect g)"
  using assms by (cases c) (auto simp: session_step_def past_def split: if_splits)

lemma past_run:
  assumes "session_run cs st = Some st'" and "past g st" and "c \<in> set cs"
  shows "client_of c = Some g \<longrightarrow> c = CDisconnect g"
  using assms
proof (induction cs arbitrary: st)
  case (Cons d ds)
  then obtain st1 where one: "session_step d st = Some st1" "session_run ds st1 = Some st'"
    by (auto split: option.splits)
  from past_step [OF one(1) Cons.prems(2)] Cons.IH [OF one(2)] Cons.prems(3) show ?case by auto
qed simp

lemma passed_run:
  assumes "session_run cs st = Some st'" and "g < session_gen st" and "c \<in> set cs"
  shows "client_of c \<noteq> Some g"
  using assms
proof (induction cs arbitrary: st)
  case (Cons d ds)
  then obtain st1 where one: "session_step d st = Some st1" "session_run ds st1 = Some st'"
    by (auto split: option.splits)
  have "client_of d \<noteq> Some g"
    using one(1) Cons.prems(2) by (cases d) (auto simp: session_step_def split: if_splits)
  with session_step_gen [OF one(1)] Cons.IH [OF one(2)] Cons.prems(2,3) show ?case by auto
qed simp

subsection \<open>The connection and the automaton\<close>

text \<open>
  \<open>at_session st s\<close>: the calls so far lead the automaton to \<open>st\<close>. \<open>in_session s\<close>: between
  operations, an installed client is dialled, a pending one is the last created.
\<close>

definition at_session :: "session \<Rightarrow> 'w conn \<Rightarrow> bool" where
  "at_session st s \<longleftrightarrow> session_run (sdk_log s) NoSession = Some st \<and> session_gen st = next_generation s"

definition in_session :: "'w conn \<Rightarrow> bool" where
  "in_session s \<longleftrightarrow> (\<exists>st. at_session st s \<and> \<not> in_setup st
     \<and> (\<forall>g. client s = Some g \<longrightarrow> st = Dialled g \<and> pending s = None)
     \<and> (\<forall>g. pending s = Some g \<longrightarrow> st = Dialled g \<or> st = Closed g))"

text \<open>No client installed, \<open>g\<close> pending and dialled, \<open>g\<close> installed.\<close>

definition unused :: "'w conn \<Rightarrow> bool" where
  "unused s \<longleftrightarrow> in_session s \<and> client s = None"

definition dialled :: "nat \<Rightarrow> 'w conn \<Rightarrow> bool" where
  "dialled g s \<longleftrightarrow> at_session (Dialled g) s \<and> client s = None \<and> pending s = Some g"

definition live :: "nat \<Rightarrow> 'w conn \<Rightarrow> bool" where
  "live g s \<longleftrightarrow> in_session s \<and> client s = Some g"

named_theorems session_defs \<open>the stages of a session\<close>

declare at_session_def [session_defs] in_session_def [session_defs] unused_def [session_defs]
  dialled_def [session_defs] live_def [session_defs]

lemma stable_sessions [stable_intros]:
  "stable in_session" "stable unused" "stable (dialled g)" "stable (live g)"
  by (auto simp: stable_def session_defs)

lemma stages:
  "unused s \<Longrightarrow> in_session s" "live g s \<Longrightarrow> in_session s" "dialled g s \<Longrightarrow> unused s"
  by (auto simp: session_defs)

lemma in_session_single: "in_session s \<Longrightarrow> client s = None \<or> pending s = None"
  by (auto simp: in_session_def)

lemma session_frame [simp]:
  "in_session (s\<lparr>world := w\<rparr>) = in_session s" "unused (s\<lparr>world := w\<rparr>) = unused s" "live g (s\<lparr>world := w\<rparr>) = live g s"
  "in_session (s\<lparr>reachability := r\<rparr>) = in_session s" "unused (s\<lparr>reachability := r\<rparr>) = unused s"
  "in_session (s\<lparr>acquisition_failure := f\<rparr>) = in_session s" "unused (s\<lparr>acquisition_failure := f\<rparr>) = unused s"
  "in_session (s\<lparr>inventory_diag := d\<rparr>) = in_session s" "live g (s\<lparr>inventory_diag := d\<rparr>) = live g s"
  "in_session (s\<lparr>inventory_running := b\<rparr>) = in_session s"
  "in_session (s\<lparr>advertisement_source := a\<rparr>) = in_session s"
  "in_session (s\<lparr>control_requests := k\<rparr>) = in_session s"
  "in_session (s\<lparr>maintaining := b\<rparr>) = in_session s"
  "in_session (s\<lparr>cleanup_task := c\<rparr>) = in_session s" "unused (s\<lparr>cleanup_task := c\<rparr>) = unused s"
  "in_session (s\<lparr>conn_history := h, dispatched := ds\<rparr>) = in_session s"
  "in_session (stop_begin s) = in_session s"
  "in_session (interfere i s) = in_session s" "live g (interfere i s) = live g s"
  by (simp_all add: session_defs stop_begin_def)

text \<open>The calls that leave the automaton where it is.\<close>

lemma run_snoc:
  "at_session st s \<Longrightarrow> session_step c st = Some st' \<Longrightarrow> session_gen st' = session_gen st \<Longrightarrow>
   at_session st' (s\<lparr>sdk_log := sdk_log s @ [c]\<rparr>)"
  by (simp add: at_session_def session_run_append)

lemma call_outside:
  assumes "client_of c = None"
  shows "triple in_session (call c) (\<lambda>_. in_session) X" "triple unused (call c) (\<lambda>_. unused) X"
proof -
  have "session_step c st = Some st" if "\<not> in_setup st" for st
    using assms that by (cases c) (simp_all add: session_step_def)
  then have "in_session (s\<lparr>sdk_log := sdk_log s @ [c]\<rparr>)" if "in_session s" for s :: "'a conn"
    using that unfolding in_session_def by (auto intro: run_snoc)
  then show "triple in_session (call c) (\<lambda>_. in_session) X" "triple unused (call c) (\<lambda>_. unused) X"
    by (simp_all add: triple_def call_def m_modify_def unused_def)
qed

lemma call_use:
  assumes "uses g c"
  shows "triple (live g) (call c) (\<lambda>_. live g) X"
proof -
  have "session_step c (Dialled g) = Some (Dialled g)"
    using assms by (cases c) (simp_all add: session_step_def)
  then have "live g (s\<lparr>sdk_log := sdk_log s @ [c]\<rparr>)" if "live g s" for s :: "'a conn"
    using that unfolding live_def in_session_def by (auto dest: run_snoc)
  then show ?thesis by (simp add: triple_def call_def m_modify_def)
qed

subsection \<open>Teardown\<close>

lemma call_disconnect:
  "triple (\<lambda>s. unused s \<and> pending s = Some g) (call (CDisconnect g)) (\<lambda>_. unused) X"
  unfolding call_def unused_def in_session_def
  by (rule triple_modify)
    (auto intro!: exI [of _ "Closed g"] simp: at_session_def session_run_append session_step_def)

lemma disconnect_once_session:
  "triple (\<lambda>s. unused s \<and> pending s = Some g) (disconnect_once E g) (\<lambda>_. unused) (\<lambda>_. unused)"
  unfolding disconnect_once_def
  by (intro triple_bind_gets triple_if triple_return triple_pre [OF triple_then [OF call_disconnect]]
        triple_bind [OF triple_await [OF stable_sessions(2)]])
      (auto intro!: triple_if triple_gets triple_raise triple_return split: sum.split)

lemma cleanup_finished_session: "unused s \<Longrightarrow> unused (cleanup_finished g ok s)"
  by (auto simp: session_defs split: option.splits)

lemma cleanup_session: "triple unused (cleanup_candidate E g) (\<lambda>_. unused) (\<lambda>_. unused)"
proof -
  let ?P = "\<lambda>s. unused s \<and> pending s = Some g"
  have st: "stable ?P" by (intro stable_intros)
  have body: "triple ?P (m_catch (disconnect_once E g)
       (\<lambda>e. if is_exception e then m_raise e
            else m_then (m_modify (\<lambda>s. s\<lparr>cleanup_task := None\<rparr>)) (m_raise e))) (\<lambda>_. unused) (\<lambda>_. unused)"
    by (rule triple_catch [OF disconnect_once_session])
      (auto intro!: triple_if triple_raise triple_then_modify [where R = unused])
  have finish: "triple unused (m_then (m_modify (cleanup_finished g ok))
      (if 0 < n then m_raise Cancelled else m_return ok)) (\<lambda>_. unused) (\<lambda>_. unused)" for n :: nat and ok
    by (intro triple_then_modify [where R = unused] triple_if triple_raise triple_return cleanup_finished_session)
  show ?thesis
    unfolding cleanup_candidate_def
    by (intro triple_bind_gets)
      (auto intro!: triple_if triple_raise triple_then_modify [where R = ?P] triple_bind [OF triple_await [OF st]]
        triple_bind [OF body finish])
qed

lemma retry_session: "triple in_session (retry_pending_cleanup E) (\<lambda>_. in_session) (\<lambda>_. in_session)"
proof -
  have "triple unused (cleanup_candidate E g) (\<lambda>_. in_session) (\<lambda>_. in_session)" for g
    by (rule triple_post [OF cleanup_session]) (auto intro: stages)
  then show ?thesis
    unfolding retry_pending_cleanup_def
    by (intro triple_bind_gets triple_option triple_return triple_pre [OF \<open>triple unused _ _ _\<close>])
      (auto simp: session_defs split: option.splits)
qed

lemma disconnect_session: "triple in_session (disconnect_locked E) (\<lambda>_. unused) (\<lambda>_. unused)"
proof -
  have retire: "unused (retire_client g s)" if "in_session s" "client s = Some g" for g and s :: "'a conn"
    using that by (auto simp: session_defs retire_client_def)
  have retry: "triple unused (retry_pending_cleanup E) (\<lambda>_. unused) (\<lambda>_. unused)"
    unfolding retry_pending_cleanup_def
    by (intro triple_bind_gets triple_option triple_return triple_pre [OF cleanup_session]) auto
  show ?thesis
    unfolding disconnect_locked_def
    by (intro triple_bind_gets)
      (auto intro!: triple_option triple_if triple_pre [OF retry] triple_raise
        triple_then_modify [OF cleanup_session] retire simp: unused_def split: prod.split,
        metis in_session_single option.distinct(1))
qed

lemma disconnect_sessionE: "triple in_session (disconnect_locked E) (\<lambda>_. unused) (\<lambda>_. in_session)"
  by (rule triple_post [OF disconnect_session]) (auto dest: stages)

lemma teardown_session:
  "triple in_session (m_bind (disconnect_locked E) (\<lambda>_. m_return a)) (\<lambda>_. in_session) (\<lambda>_. in_session)"
  "triple in_session (teardown_raise E e) Q (\<lambda>_. in_session)"
  unfolding teardown_raise_def
  by (intro triple_bind [OF disconnect_sessionE] triple_return triple_raise; simp add: stages)+

subsection \<open>Acquisition\<close>

lemma scan_session: "triple unused (wait_for_connectable_device E deadline) (\<lambda>_. unused) (\<lambda>_. unused)"
proof -
  have outcome: "triple unused (scan_outcome m r) (\<lambda>_. unused) (\<lambda>_. unused)" for m r
    unfolding scan_outcome_def Let_def
    by (auto intro!: triple_if triple_raise triple_return triple_bind_gets triple_then_modify [where R = unused]
        split: sum.split)
  have gathered: "triple unused (m_bind (await (e_gather E)) (\<lambda>c. if c then m_raise Cancelled else m_return ()))
      (\<lambda>_. unused) (\<lambda>_. unused)"
    by (intro triple_bind [OF triple_await [OF stable_sessions(2)]] triple_if triple_raise triple_return)
  have scan: "triple unused (m_then (call (CScan n)) (m_finally (m_bind (await (e_scan E n)) (scan_outcome m))
      (m_bind (await (e_gather E)) (\<lambda>c. if c then m_raise Cancelled else m_return ())))) (\<lambda>_. unused) (\<lambda>_. unused)" for n m
    by (rule triple_then [OF call_outside(2)], simp)
      (rule triple_finally [OF triple_bind [OF triple_await [OF stable_sessions(2)] outcome] gathered gathered])
  show ?thesis
    unfolding wait_for_connectable_device_def remaining_acquisition_time_def Let_def
    by (intro triple_bind [where R = "\<lambda>_. unused"] triple_env_call stable_sessions(2) triple_if triple_return
        triple_env_peek scan)
qed

lemma connect_session:
  "triple (\<lambda>s. at_session (Created g) s \<and> client s = None \<and> pending s = Some g) (connect_before_deadline E g t)
     (\<lambda>r s. case r of None \<Rightarrow> dialled g s | Some ok \<Rightarrow> unused s) (\<lambda>_. unused)"
proof -
  have called: "triple (\<lambda>s. at_session (Created g) s \<and> client s = None \<and> pending s = Some g)
      (call (CConnect g t)) (\<lambda>_. dialled g) X" for X
    unfolding call_def
    by (rule triple_modify) (auto simp: dialled_def at_session_def session_run_append session_step_def)
  have clean: "triple (dialled g) (cleanup_candidate E g) (\<lambda>_. unused) (\<lambda>_. unused)"
    by (rule triple_pre [OF cleanup_session]) (rule stages)
  show ?thesis
    unfolding connect_before_deadline_def
    by (intro triple_then [OF called] triple_bind [OF triple_await [OF stable_sessions(3)]])
      (auto intro!: triple_if triple_bind [OF clean] triple_raise triple_return dest: stages split: sum.split)
qed

lemma phase_session:
  "triple (\<lambda>s. at_session (Created g) s \<and> client s = None \<and> pending s = Some g) (connect_phase E g t)
     (\<lambda>r s. case r of PConnected \<Rightarrow> dialled g s | _ \<Rightarrow> unused s) (\<lambda>_. unused)"
  unfolding connect_phase_def discard_failed_setup_def
  by (intro triple_catch [OF triple_bind [OF connect_session]])
    (auto intro!: triple_if triple_raise triple_return triple_bind [OF cleanup_session] split: option.splits,
     auto intro!: triple_then [where R = "\<lambda>_. unused"] triple_bind [OF cleanup_session] triple_return)

lemma adopt_session:
  "triple (dialled g) (adopt_connected_candidate E g cd)
     (\<lambda>r s. case r of None \<Rightarrow> unused s | Some g' \<Rightarrow> live g' s) (\<lambda>_. unused)"
proof -
  have install: "live g (install_client g cd s)" if "dialled g s" for s :: "'a conn"
    using that by (simp add: session_defs install_client_def broadcast_state_def)
  have clean: "triple (dialled g) (cleanup_candidate E g) (\<lambda>_. unused) (\<lambda>_. unused)"
    by (rule triple_pre [OF cleanup_session]) (rule stages)
  show ?thesis
    unfolding adopt_connected_candidate_def
    by (intro triple_bind_gets)
      (auto intro!: triple_if triple_bind [OF triple_pre [OF clean]] triple_return triple_raise
        triple_then_modify [where R = "live g"] install dest: stages split: prod.split)
qed

lemma create_session:
  "triple (\<lambda>s. unused s \<and> pending s = None) (create_client n cd)
     (\<lambda>g s. at_session (Created g) s \<and> client s = None \<and> pending s = Some g) X"
  unfolding create_client_def
  by (auto simp: triple_def eff_defs session_defs session_run_append session_step_def)

lemma attempt_session:
  "triple unused (attempt E active_scan attempted deadline cd)
     (\<lambda>st s. case st of ReturnClient (Some g) \<Rightarrow> live g s | _ \<Rightarrow> unused s) (\<lambda>_. unused)" (is "triple _ _ ?Q ?E")
proof -
  have adopt: "triple (dialled g) (m_bind (adopt_connected_candidate E g cd) (\<lambda>r. m_return (ReturnClient r))) ?Q ?E" for g
    by (rule triple_bind [OF adopt_session]) (auto intro!: triple_return split: option.splits)
  have tried: "triple (\<lambda>s. case ph of PConnected \<Rightarrow> dialled g s | _ \<Rightarrow> unused s) (case ph of
              PConnected \<Rightarrow> m_bind (adopt_connected_candidate E g cd) (\<lambda>r. m_return (ReturnClient r))
            | PCleaned ok \<Rightarrow> m_return (if ok then NextRoute else BreakLoop)
            | PBroken \<Rightarrow> m_return BreakLoop) ?Q ?E" for g ph
    using adopt by (cases ph) (auto intro!: triple_return)
  show ?thesis
    unfolding attempt_def remaining_acquisition_time_def Let_def
    by (intro triple_bind [OF triple_bind [OF triple_env_call [OF stable_sessions(2)]]] triple_if triple_bind_gets
        triple_pre [OF triple_bind [OF create_session triple_bind [OF phase_session tried]]])
      (auto intro!: triple_return triple_raise)
qed

lemma loop_session:
  "triple unused (acquire_loop E active_scan deadline attempted cand)
     (\<lambda>r s. case r of Some (Some g) \<Rightarrow> live g s | _ \<Rightarrow> unused s) (\<lambda>_. unused)"
proof (induction E active_scan deadline attempted cand rule: acquire_loop.induct)
  case (1 E active_scan deadline attempted cand)
  let ?Q = "\<lambda>r s. case r of Some (Some g) \<Rightarrow> live g s | _ \<Rightarrow> unused s"
  have next_route: "triple unused (m_bind (m_gets closing_event) (\<lambda>stopped_now.
        if stopped_now \<or> \<not> active_scan \<or> attempted then m_return None
        else m_bind (wait_for_connectable_device E deadline)
               (\<lambda>next. acquire_loop E active_scan deadline True next))) ?Q (\<lambda>_. unused)" if "cand = Some cd" for cd
    using 1 [OF that]
    by (intro triple_bind_gets triple_if triple_pre [OF triple_bind [OF scan_session]]) (auto intro!: triple_return)
  have outcome: "triple (\<lambda>s. case st of ReturnClient (Some g) \<Rightarrow> live g s | _ \<Rightarrow> unused s) (case st of
      ReturnClient r \<Rightarrow> m_return (Some r)
    | BreakLoop \<Rightarrow> m_return None
    | NextRoute \<Rightarrow> m_bind (m_gets closing_event) (\<lambda>stopped_now.
        if stopped_now \<or> \<not> active_scan \<or> attempted then m_return None
        else m_bind (wait_for_connectable_device E deadline)
               (\<lambda>next. acquire_loop E active_scan deadline True next))) ?Q (\<lambda>_. unused)" if "cand = Some cd" for cd st
    using next_route [OF that] by (cases st) (auto intro!: triple_return split: option.splits)
  show ?case
    unfolding acquire_loop.simps [of E active_scan deadline attempted cand]
    by (intro triple_bind_gets triple_option triple_if triple_pre [OF triple_bind [OF attempt_session outcome]])
      (auto intro!: triple_return)
qed

lemma open_session:
  "triple unused (open_connection E active_scan deadline)
     (\<lambda>r s. case r of Some g \<Rightarrow> live g s | None \<Rightarrow> in_session s) (\<lambda>_. unused)" (is "triple _ _ ?Q ?E")
proof -
  have initial: "triple unused (resolve_initial_candidate E active_scan deadline) (\<lambda>_. unused) ?E"
    unfolding resolve_initial_candidate_def Let_def candidate_is_stale_def
    by (intro triple_bind [OF triple_env_peek] triple_if triple_option triple_return triple_bind [OF scan_session]
        triple_bind [where R = "\<lambda>_. unused"] triple_env_call stable_sessions(2))
  have tail: "triple (\<lambda>s. case out of Some (Some g) \<Rightarrow> live g s | _ \<Rightarrow> unused s) (case out of
         Some r \<Rightarrow> m_return r
       | None \<Rightarrow> m_bind (m_gets closing_event) (\<lambda>stopping.
           m_then (if stopping then m_return () else record_reachability E) (m_return None))) ?Q ?E" for out
  proof (cases out)
    case None
    have recorded: "triple unused (record_reachability E) (\<lambda>_. unused) ?E"
      by (auto simp: triple_def record_reachability_def env_peek_def eff_defs split: option.splits sum.splits)
    have "triple unused (m_bind (m_gets closing_event) (\<lambda>stopping.
        m_then (if stopping then m_return () else record_reachability E) (m_return None))) ?Q ?E"
      by (intro triple_bind_gets triple_then [where R = "\<lambda>_. unused"] triple_if triple_return triple_pre [OF recorded])
        (auto dest: stages)
    with None show ?thesis by simp
  qed (auto intro!: triple_return dest: stages split: option.splits)
  show ?thesis
    unfolding open_connection_def
    by (rule triple_bind [OF initial]) (auto intro: triple_bind [OF loop_session tail] split: prod.split)
qed

lemma ensure_session:
  "triple in_session (ensure_connected E active_scan i)
     (\<lambda>r s. case r of Some g \<Rightarrow> live g s | None \<Rightarrow> in_session s) (\<lambda>_. in_session)" (is "triple _ _ ?Q ?E")
proof -
  have fail: "triple unused (fail_acquisition f) ?Q ?E" "triple in_session (fail_acquisition f) ?Q ?E" for f
    unfolding fail_acquisition_def by (auto intro!: triple_then_modify [where R = in_session] triple_return dest: stages)
  have fresh: "triple unused (open_connection E active_scan deadline) ?Q ?E" for deadline
    by (rule triple_post [OF open_session]) (auto dest: stages)
  have replace: "triple in_session (m_bind (disconnect_locked E) (\<lambda>freed.
                  if \<not> freed then fail_acquisition AF_CLEANUP
                  else open_connection E active_scan deadline)) ?Q ?E" for deadline
    by (intro triple_bind [OF disconnect_sessionE] triple_if fail fresh)
  have acquire: "triple in_session (m_bind (m_gets (\<lambda>s. case client s of
                None \<Rightarrow> None | Some g \<Rightarrow> if e_connected E g (world s) then Some g else None)) (\<lambda>live.
              case live of
                Some g \<Rightarrow> m_return (Some g)
              | None \<Rightarrow> m_bind (disconnect_locked E) (\<lambda>freed.
                  if \<not> freed then fail_acquisition AF_CLEANUP
                  else open_connection E active_scan deadline))) ?Q ?E" for deadline
    by (intro triple_bind_gets triple_option triple_pre [OF replace] triple_return)
      (auto simp: live_def split: option.splits if_splits)
  have clock: "triple in_session (env_call (e_monotonic E)) (\<lambda>_. in_session) ?E"
    by (rule triple_env_call [OF stable_sessions(1)])
  show ?thesis
    unfolding ensure_connected_def Let_def
    by (intro triple_bind [OF clock] triple_then_modify [where R = in_session] triple_bind_gets triple_if
        triple_pre [OF triple_bind [OF retry_session]] fail acquire) (auto intro!: triple_return)
qed

subsection \<open>Operations\<close>

text \<open>One use of the acquired client, and a handler that starts from it.\<close>

lemma use_session:
  assumes "uses g c" and "\<And>r. triple (live g) (k r) (\<lambda>_. in_session) (\<lambda>_. in_session)"
  shows "triple (live g) (m_then (call c) (m_bind (await f) k)) (\<lambda>_. in_session) (\<lambda>_. in_session)"
  by (intro triple_then [OF call_use [OF assms(1)]] triple_bind [OF triple_await [OF stable_sessions(4)] assms(2)])

lemma on_client_session:
  assumes "triple in_session none (\<lambda>_. in_session) (\<lambda>_. in_session)"
    and "\<And>g. triple (live g) (some g) (\<lambda>_. in_session) (\<lambda>_. in_session)"
  shows "triple in_session (m_bind (ensure_connected E active i) (\<lambda>client. case client of None \<Rightarrow> none | Some g \<Rightarrow> some g))
    (\<lambda>_. in_session) (\<lambda>_. in_session)"
  using assms by (intro triple_bind [OF ensure_session] triple_option) auto

lemma live_teardown [intro]:
  "triple (live g) (m_bind (disconnect_locked E) (\<lambda>_. m_return a)) (\<lambda>_. in_session) (\<lambda>_. in_session)"
  "triple (live g) (teardown_raise E e) Q (\<lambda>_. in_session)"
  by (auto intro: triple_pre [OF teardown_session(1)] triple_pre [OF teardown_session(2)] stages)

lemma query_session: "triple in_session (query_state E active) (\<lambda>_. in_session) (\<lambda>_. in_session)"
  unfolding query_state_def
  by (intro on_client_session use_session)
    (auto intro!: triple_return triple_raise triple_if dest: stages split: sum.split)

lemma management_session:
  "triple in_session (run_management_command E name op active) (\<lambda>_. in_session) (\<lambda>_. in_session)"
  unfolding run_management_command_def
  by (intro on_client_session use_session)
    (auto intro!: triple_return triple_raise triple_if triple_bind_gets triple_pre [OF live_teardown(2)]
      dest: stages split: sum.split)

lemma dispatch_session: "in_session s \<Longrightarrow> in_session (snd (dispatch_new_entries es s))"
  by (simp add: dispatch_new_entries_def split_beta)

lemma log_session: "triple in_session (get_operation_log E) (\<lambda>_. in_session) (\<lambda>_. in_session)"
proof -
  have "triple (live g) (\<lambda>s. case dispatch_new_entries es s of (new, s') \<Rightarrow> (Inr new, s'))
      (\<lambda>_. in_session) (\<lambda>_. in_session)" for es g
    by (auto simp: triple_def split_beta intro: dispatch_session stages)
  then show ?thesis
    unfolding get_operation_log_def
    by (intro on_client_session use_session)
      (auto intro!: triple_return triple_raise triple_if dest: stages split: sum.split)
qed

lemma sleep_session: "triple in_session (sleep_for E t) (\<lambda>_. in_session) (\<lambda>_. in_session)"
  unfolding sleep_for_def
  by (intro triple_then [OF call_outside(1)] triple_bind [OF triple_await [OF stable_sessions(1)]])
    (auto intro!: triple_if triple_return triple_raise)

lemma rounds_session: "triple in_session (maintain_rounds E n b) (\<lambda>_. in_session) (\<lambda>_. in_session)"
proof (induction n arbitrary: b)
  case (Suc n)
  have wait: "triple in_session (m_then (sleep_for E t) (m_return v)) (\<lambda>_. in_session) (\<lambda>_. in_session)" for t v
    by (rule triple_then [OF sleep_session]) (rule triple_return)
  have held: "triple (live g) (m_bind (await (e_wait_dropped E)) (\<lambda>cancelled.
      if cancelled then m_raise Cancelled
      else m_bind (m_gets cooldown) (\<lambda>c. m_then (sleep_for E c) (m_return RECONNECT_INITIAL_BACKOFF))))
      (\<lambda>_. in_session) (\<lambda>_. in_session)" for g
    by (intro triple_bind [OF triple_await [OF stable_sessions(4)]] triple_if triple_raise triple_bind_gets
        triple_pre [OF wait]) (auto dest: stages)
  have round: "triple in_session (maintain_round E b) (\<lambda>_. in_session) (\<lambda>_. in_session)"
    unfolding maintain_round_def
    by (intro triple_catch [OF on_client_session] wait held triple_if triple_raise)
  show ?case
    unfolding maintain_rounds.simps
    by (intro triple_bind_gets triple_if triple_return triple_pre [OF triple_bind [OF round Suc.IH]]) auto
qed (auto intro: triple_return)

lemma cancel_session: "triple in_session cancel_inventory (\<lambda>_. in_session) X"
  unfolding cancel_inventory_def
  by (intro triple_bind_gets triple_if triple_return triple_pre [OF call_outside(1)]) auto

lemma stop_session: "triple in_session (async_stop E) (\<lambda>_. in_session) (\<lambda>_. in_session)"
proof -
  have "triple in_session (stop_teardown E) (\<lambda>_. in_session) (\<lambda>_. in_session)"
    unfolding stop_teardown_def
    by (intro triple_bind [OF disconnect_sessionE] triple_bind [where R = "\<lambda>_. in_session"] triple_if
        triple_pre [OF retry_session] triple_bind_gets triple_return triple_raise) (auto dest: stages)
  moreover have "triple in_session (m_bind (await (e_gather E)) (\<lambda>_. m_modify (\<lambda>s. s\<lparr>maintaining := False\<rparr>)))
      (\<lambda>_. in_session) (\<lambda>_. in_session)"
    by (intro triple_bind [OF triple_await [OF stable_sessions(1)]] triple_modify) simp
  ultimately show ?thesis
    unfolding async_stop_def
    by (intro triple_then_modify [where R = in_session] triple_then [OF cancel_session] triple_bind_gets
        triple_then [where R = "\<lambda>_. in_session"] triple_if) (auto intro!: triple_return intro: triple_pre)
qed

subsection \<open>Bolt commands and inventory reads\<close>

lemma drain_live: "live g (snd (drain c ws t s)) = live g s"
  by (induction c ws t s rule: drain.induct) simp_all

lemma wait_live: "control_wait c final ws t s = (r, t', s') \<Longrightarrow> live g s' = live g s"
  by (induction c final ws t s rule: control_wait.induct)
    (auto split: option.splits wake.splits if_splits simp: drain_live dest!: arg_cong [of "drain _ _ _ _" _ snd])

lemma await_control_session:
  "triple (live g) (await_control_task E a g) (\<lambda>_. live g) (\<lambda>_. live g)"
proof -
  have "triple (live g) (\<lambda>s. case e_control E g a (world s) of ((ws, final), w) \<Rightarrow>
         (case control_wait (e_cmds E) final ws
            (begin_control (e_cmds E) a (set_control_allowed new_tracker)) (s\<lparr>world := w\<rparr>) of
          (r, _, s') \<Rightarrow> (r, s'))) (\<lambda>_. live g) (\<lambda>_. live g)"
    by (auto simp: triple_def dest!: wait_live split: prod.splits sum.splits)
  then show ?thesis
    unfolding await_control_task_def by (intro triple_then [OF call_use]) simp_all
qed

lemma matches_session: "triple (live g) (query_matches E a g) (\<lambda>_. in_session) (\<lambda>_. in_session)"
  unfolding query_matches_def
  by (rule use_session) (auto intro!: triple_return triple_raise triple_if dest: stages split: sum.split prod.split)

lemma reconcile_session: "triple (live g) (reconcile_control E a g) (\<lambda>_. in_session) (\<lambda>_. in_session)"
  unfolding reconcile_control_def
  by (intro triple_bind_gets triple_if triple_pre [OF matches_session]
      triple_pre [OF triple_bind [OF disconnect_sessionE triple_pre [OF on_client_session]]] matches_session)
    (auto intro!: triple_return dest: stages)

lemma capture_session: "triple (live g) (capture_reconciliation E a g u) (\<lambda>_. in_session) X"
proof -
  have tear: "triple in_session (m_catch (m_bind (disconnect_locked E) (\<lambda>_. m_return ())) (\<lambda>_. m_return ()))
      (\<lambda>_. in_session) X"
    by (rule triple_catch [OF teardown_session(1)]) (auto intro: triple_return)
  have "triple (live g) (m_catch (reconcile_control E a g) (\<lambda>_. m_return False)) (\<lambda>_. in_session) X"
    by (rule triple_catch [OF reconcile_session]) (auto intro: triple_return)
  then show ?thesis
    unfolding capture_reconciliation_def
    by (rule triple_bind) (intro triple_if triple_return triple_then [OF tear])
qed

lemma failed_session: "triple (live g) (control_failed E a g e) (\<lambda>_. in_session) (\<lambda>_. in_session)"
proof -
  have unknown: "triple (live g) (await_reconciliation E a g e) (\<lambda>_. in_session) (\<lambda>_. in_session)"
    unfolding await_reconciliation_def
    by (intro triple_bind [OF triple_env_peek] triple_if triple_raise triple_bind [OF capture_session] triple_option)
      (auto intro!: triple_return triple_raise dest: stages)
  show ?thesis
    unfolding control_failed_def
    by (intro triple_bind_gets triple_if triple_pre [OF unknown] triple_pre [OF live_teardown(2)] triple_raise)
      (auto dest: stages)
qed

lemma command_session: "triple in_session (run_command E a) (\<lambda>_. in_session) (\<lambda>_. in_session)"
proof -
  have missing: "triple in_session (m_bind (m_gets f) (\<lambda>msg. m_raise (TTLockErr msg))) (\<lambda>_. in_session) (\<lambda>_. in_session)"
    for f :: "'a conn \<Rightarrow> string"
    by (intro triple_bind_gets triple_raise) simp
  have control: "triple (live g) (m_catch (await_control_task E a g) (control_failed E a g)) (\<lambda>_. in_session) (\<lambda>_. in_session)" for g
    by (rule triple_catch [OF _ failed_session], rule triple_post [OF await_control_session]) (auto dest: stages)
  have "triple in_session (m_then cancel_inventory (run_control_command E a)) (\<lambda>_. in_session) (\<lambda>_. in_session)"
    unfolding run_control_command_def
    by (intro triple_then [OF cancel_session] on_client_session missing control)
  then show ?thesis
    unfolding run_command_def
    by (intro triple_then_modify [where R = in_session] triple_finally) (auto intro!: triple_modify)
qed

lemma session_diag [simp]:
  "in_session (diag_update kvs s) = in_session s" "live g (diag_update kvs s) = live g s"
  "in_session (diag_reason r st s) = in_session s"
  by (simp_all add: diag_update_def diag_reason_def)

lemma inventory_session: "triple in_session (start_inventory E K method) (\<lambda>_. in_session) (\<lambda>_. in_session)"
proof -
  have returned: "triple (live g) (m_then (m_modify (diag_reason r st)) (m_return a)) (\<lambda>_. in_session) (\<lambda>_. in_session)"
    for g r st and a :: 'b
    by (auto intro!: triple_then_modify [where R = in_session] triple_return dest: stages)
  have body: "triple in_session (inventory_block E K method) (\<lambda>_. in_session) (\<lambda>_. in_session)"
    unfolding inventory_block_def
    by (intro on_client_session triple_bind_gets triple_raise triple_then_modify [OF use_session])
      (auto intro!: returned triple_raise dest: stages split: sum.split)
  have handler: "triple in_session (inventory_handler e) (\<lambda>_. in_session) (\<lambda>_. in_session)" for e
    by (cases e) (auto simp: triple_def eff_defs)
  have caught: "triple in_session (m_catch (inventory_timed E K method) inventory_handler) (\<lambda>_. in_session) (\<lambda>_. in_session)"
    unfolding inventory_timed_def
    by (intro triple_catch [OF triple_catch [OF body] handler] triple_bind [OF triple_env_peek] triple_if triple_raise)
  have closing: "triple in_session (inventory_closing E t) (\<lambda>_. in_session) X" for t X
    unfolding inventory_closing_def Let_def
    by (intro triple_bind_gets triple_bind [OF triple_pre [OF triple_env_call [OF stable_sessions(1)]]] triple_modify) auto
  have "triple in_session (read_access_inventory E K method) (\<lambda>_. in_session) (\<lambda>_. in_session)"
    unfolding read_access_inventory_def
    by (intro triple_bind_gets triple_if triple_raise triple_bind [OF triple_pre [OF triple_env_call [OF stable_sessions(1)]]]
        triple_then_modify [where R = in_session] triple_finally [OF caught] triple_finally [OF teardown_session(1)] closing) auto
  then show ?thesis
    unfolding start_inventory_def
    by (intro triple_bind_gets) (auto intro!: triple_if triple_raise triple_then_modify [where R = in_session]
        triple_finally triple_modify split: prod.split)
qed

subsection \<open>Every history\<close>

lemma session_result:
  "triple in_session m (\<lambda>_. in_session) (\<lambda>_. in_session) \<Longrightarrow> in_session s \<Longrightarrow> m s = (r, s') \<Longrightarrow> in_session s'"
  by (drule (2) triple_result) (simp split: sum.splits)

lemma acquire_session: "triple in_session (ensure_connected E a i) (\<lambda>_. in_session) (\<lambda>_. in_session)"
  by (rule triple_post [OF ensure_session]) (auto dest: stages split: option.splits)

lemma reach_in_session: "conn_reach s \<Longrightarrow> in_session s"
proof (induction rule: conn_reach.induct)
  case (reach_new m ps cool h w)
  show ?case by (simp add: session_defs new_conn_def)
next
  case (reach_start s b)
  then show ?case by (simp add: async_start_def session_defs)
qed (auto intro: session_result query_session management_session log_session command_session inventory_session
    rounds_session acquire_session stop_session simp: get_access_inventory_def get_administrative_inventory_def)

lemma run_split:
  assumes "session_run (xs @ c # ys) st = Some st'"
  obtains st1 st2 where "session_step c st1 = Some st2" "session_run ys st2 = Some st'"
  using assms by (auto simp: session_run_append split: option.splits)

text \<open>
  Claim C5. What a connection asks of the SDK keeps to the protocol of one session, in every history
  of operations, callbacks, errors and cancellations: the calls are a run of the automaton, whose
  count of clients is the connection's, an installed client is the one the automaton has dialled
  and a pending one the last created. So a client that was disconnected is only ever
  disconnected again, and once a client is created no earlier one is called.
\<close>

theorem sessions_follow_protocol:
  assumes "conn_reach s"
  shows "(\<exists>st. session_run (sdk_log s) NoSession = Some st \<and> session_gen st = next_generation s
      \<and> (\<forall>g. client s = Some g \<longrightarrow> st = Dialled g \<and> pending s = None)
      \<and> (\<forall>g. pending s = Some g \<longrightarrow> st = Dialled g \<or> st = Closed g))
    \<and> (\<forall>xs ys g. sdk_log s = xs @ CDisconnect g # ys \<longrightarrow> (\<forall>c\<in>set ys. client_of c = Some g \<longrightarrow> c = CDisconnect g))
    \<and> (\<forall>xs ys g n h. sdk_log s = xs @ CCreate g n # ys \<longrightarrow> (\<forall>c\<in>set ys. client_of c = Some h \<longrightarrow> g \<le> h))"
proof (intro conjI)
  obtain st where st: "session_run (sdk_log s) NoSession = Some st" and rel: "session_gen st = next_generation s"
    "\<forall>g. client s = Some g \<longrightarrow> st = Dialled g \<and> pending s = None" "\<forall>g. pending s = Some g \<longrightarrow> st = Dialled g \<or> st = Closed g"
    using reach_in_session [OF assms] by (auto simp: in_session_def at_session_def)
  then show "\<exists>st. session_run (sdk_log s) NoSession = Some st \<and> session_gen st = next_generation s
      \<and> (\<forall>g. client s = Some g \<longrightarrow> st = Dialled g \<and> pending s = None)
      \<and> (\<forall>g. pending s = Some g \<longrightarrow> st = Dialled g \<or> st = Closed g)" by blast
  show "\<forall>xs ys g. sdk_log s = xs @ CDisconnect g # ys \<longrightarrow> (\<forall>c\<in>set ys. client_of c = Some g \<longrightarrow> c = CDisconnect g)"
  proof (intro allI impI ballI)
    fix xs ys g c assume log: "sdk_log s = xs @ CDisconnect g # ys" and c: "c \<in> set ys" "client_of c = Some g"
    obtain st1 st2 where "session_step (CDisconnect g) st1 = Some st2" and ys: "session_run ys st2 = Some st"
      using st unfolding log by (rule run_split)
    then have "past g st2" by (auto simp: session_step_def past_def split: if_splits)
    with past_run [OF ys _ c(1)] c(2) show "c = CDisconnect g" by blast
  qed
  show "\<forall>xs ys g n h. sdk_log s = xs @ CCreate g n # ys \<longrightarrow> (\<forall>c\<in>set ys. client_of c = Some h \<longrightarrow> g \<le> h)"
  proof (intro allI impI ballI)
    fix xs ys g n h c assume log: "sdk_log s = xs @ CCreate g n # ys" and c: "c \<in> set ys" "client_of c = Some h"
    obtain st1 st2 where "session_step (CCreate g n) st1 = Some st2" and ys: "session_run ys st2 = Some st"
      using st unfolding log by (rule run_split)
    then have "session_gen st2 = g" by (auto simp: session_step_def split: if_splits)
    with passed_run [OF ys _ c(1), of h] c(2) show "g \<le> h" by (metis not_le)
  qed
qed

text \<open>A command, a query whose answer is garbled and ends in a teardown, and a query on a second client.\<close>

definition sample_twice :: "nat conn" where
  "sample_twice = snd (query_state sample_env False (snd (query_state sample_broken False sample_locked)))"

theorem sessions_follow_protocol_witness:
  "sdk_log sample_twice = [CCreate 1 1, CConnect 1 16, CControl 1 ALock, CQuery 1, CQuery 1, CDisconnect 1,
      CCreate 2 3, CConnect 2 15, CQuery 2]
    \<and> client sample_twice = Some 2 \<and> session_run (sdk_log sample_twice) NoSession = Some (Dialled 2)"
proof -
  have log: "sdk_log sample_twice = [CCreate 1 1, CConnect 1 16, CControl 1 ALock, CQuery 1, CQuery 1, CDisconnect 1,
      CCreate 2 3, CConnect 2 15, CQuery 2]" by code_simp
  have owner: "client sample_twice = Some 2" by code_simp
  have "conn_reach (snd (query_state sample_broken False sample_locked))"
    by (rule reach_query [OF sample_locked_reach prod.collapse [symmetric]])
  then have "conn_reach sample_twice"
    unfolding sample_twice_def by (rule reach_query [OF _ prod.collapse [symmetric]])
  from sessions_follow_protocol [OF this] log owner show ?thesis by blast
qed

end
