(* ===== verification/LockProps.thy ===== *)
theory LockProps
  imports LockEntity CoordProps ConnProps
begin

section \<open>Properties of the lock entity\<close>

text \<open>
  What the entity shows: the transitional state exactly while a command runs, the commanded
  state when the connection confirmed it, and that state throughout the settle window.
\<close>

subsection \<open>The settle window\<close>

definition settled :: "rat \<Rightarrow> bool \<Rightarrow> home \<Rightarrow> bool" where
  "settled until b h \<longleftrightarrow> is_locked (h_lock h) = Some b \<and> until \<le> settle_until (h_lock h)"

lemma entity_frame [simp]:
  "is_locked (write_state l) = is_locked l" "settle_until (write_state l) = settle_until l"
  "is_locked (write_state_if_added l) = is_locked l" "settle_until (write_state_if_added l) = settle_until l"
  "is_locked (set_in_flight a l) = is_locked l" "settle_until (set_in_flight a l) = settle_until l"
  "is_locked (clear_in_flight l) = is_locked l" "settle_until (clear_in_flight l) = settle_until l"
  "is_locked (create_tracked_task n l) = is_locked l" "settle_until (create_tracked_task n l) = settle_until l"
  "is_locked (set_authoritative_state b l) = Some b" "settle_until (set_authoritative_state b l) = settle_until l"
  by (simp_all add: write_state_def write_state_if_added_def set_in_flight_def clear_in_flight_def
      create_tracked_task_def set_authoritative_state_def)

lemma sync_settled:
  assumes "is_locked l = Some b" and "now < settle_until l"
  shows "is_locked (sync_from_coordinator now s l) = Some b \<and> settle_until (sync_from_coordinator now s l) = settle_until l"
  using assms by (auto simp: sync_from_coordinator_def settling_def split: option.splits)

lemma change_settled: "settled until b h \<Longrightarrow> now < until \<Longrightarrow> settled until b (coord_change now f h)"
  using sync_settled [of "h_lock h" b now "f (h_coord h)"]
  by (auto simp: settled_def coord_change_def Let_def handle_coordinator_update_def)

fun inside_window :: "rat \<Rightarrow> home_event \<Rightarrow> bool" where
  "inside_window until (HCoord e now) \<longleftrightarrow> now < until"
| "inside_window until (HQuery answer now rssi) \<longleftrightarrow> now < until"
| "inside_window until (HEnd a outcome now rssi) \<longleftrightarrow> (\<exists>e. outcome = Inl e)"
| "inside_window until _ \<longleftrightarrow> True"

lemma query_settled:
  assumes "settled until b h" and "now < until"
  shows "settled until b (query_and_apply lv answer now rssi h)"
proof (cases "\<exists>raw battery. answer = Some (Some raw, battery)")
  case True
  then obtain raw battery where answer: "answer = Some (Some raw, battery)" by blast
  show ?thesis
  proof (cases "settling now (raw = lv) (h_lock h)")
    case True
    with answer assms(1) show ?thesis by (simp add: query_and_apply_def apply_lock_state_def)
  next
    case False
    with assms have "(raw = lv) = b" by (auto simp: settled_def settling_def)
    moreover have "settled until b (h\<lparr>h_lock := write_state_if_added (set_authoritative_state b (h_lock h))\<rparr>)"
      using assms(1) by (simp add: settled_def)
    ultimately show ?thesis
      using False answer assms(2) change_settled by (simp add: query_and_apply_def apply_lock_state_def)
  qed
qed (use assms(1) in \<open>auto simp: query_and_apply_def split: option.split\<close>)

lemma event_settled: "settled until b h \<Longrightarrow> inside_window until e \<Longrightarrow> settled until b (home_apply lv e h)"
proof (cases e)
  case (HQuery answer now rssi)
  then show "settled until b h \<Longrightarrow> inside_window until e \<Longrightarrow> ?thesis"
    by (simp add: query_settled)
qed (auto simp: change_settled, auto simp: settled_def on_lock_event_def command_begin_def command_end_def
      command_finally_def async_update_def)

lemma events_settled:
  "settled until b h \<Longrightarrow> list_all (inside_window until) es \<Longrightarrow> settled until b (fold (home_apply lv) es h)"
  by (induction es arbitrary: h) (simp_all add: event_settled)

lemma command_end_settled: "settled (now + COMMAND_SETTLE_SECONDS) (a = ALock) (snd (command_end a (Inr u) now rssi h))"
proof -
  have "now < now + COMMAND_SETTLE_SECONDS" by (simp add: COMMAND_SETTLE_SECONDS_def)
  then have "settled (now + COMMAND_SETTLE_SECONDS) (a = ALock) (command_settled a now rssi h)"
    unfolding command_settled_def by (intro change_settled) (simp_all add: settled_def)
  then show ?thesis by (simp add: command_end_def Let_def command_finally_def settled_def)
qed

text \<open>
  Claim C30. For four seconds after a successful command nothing but another successful command
  changes the state the entity shows, whatever polls, queries, advertisements, push
  notifications and failing commands report meanwhile.
\<close>

theorem settle_window_holds:
  assumes "list_all (inside_window (now + COMMAND_SETTLE_SECONDS)) es"
  shows "is_locked (h_lock (fold (home_apply lv) es (snd (command_end a (Inr ()) now rssi h)))) = Some (a = ALock)"
  using events_settled [OF command_end_settled assms] by (simp add: settled_def)

subsection \<open>Transitional state\<close>

definition flags_ok :: "lock_entity \<Rightarrow> bool" where
  "flags_ok l \<longleftrightarrow> (is_locking l \<or> is_unlocking l) = command_held l \<and> \<not> (is_locking l \<and> is_unlocking l)
     \<and> list_all (\<lambda>w. \<not> (sh_locking w \<and> sh_unlocking w)) (le_writes l)"

lemma flags_write [simp]: "flags_ok l \<Longrightarrow> flags_ok (write_state l)"
  by (auto simp: flags_ok_def write_state_def)

lemma flags_write_added [simp]: "flags_ok l \<Longrightarrow> flags_ok (write_state_if_added l)"
  by (simp add: write_state_if_added_def)

lemma flags_authoritative [simp]: "flags_ok (set_authoritative_state b l) = flags_ok l"
  by (simp add: flags_ok_def set_authoritative_state_def)

lemma flags_sync: "flags_ok l \<Longrightarrow> flags_ok (sync_from_coordinator now s l)"
  by (auto simp: sync_from_coordinator_def split: option.split)

lemma flags_change: "flags_ok (h_lock h) \<Longrightarrow> flags_ok (h_lock (coord_change now f h))"
  by (simp add: coord_change_def Let_def handle_coordinator_update_def flags_sync)

lemma flags_task [simp]: "flags_ok (create_tracked_task n l) = flags_ok l"
  by (simp add: flags_ok_def create_tracked_task_def)

lemma flags_begin: "flags_ok l \<Longrightarrow> flags_ok (set_in_flight a (l\<lparr>command_held := True\<rparr>))"
  by (cases a) (auto simp: set_in_flight_def write_state_if_added_def write_state_def flags_ok_def)

lemma flags_finally:
  assumes "flags_ok l"
  shows "flags_ok ((write_state_if_added (clear_in_flight l))\<lparr>command_held := False\<rparr>)"
  using assms by (auto simp: flags_ok_def clear_in_flight_def write_state_if_added_def write_state_def)

lemma flags_query: "flags_ok (h_lock h) \<Longrightarrow> flags_ok (h_lock (query_and_apply lv answer now rssi h))"
  by (auto simp: query_and_apply_def apply_lock_state_def Let_def flags_change split: option.split prod.split)

lemma flags_end: "flags_ok (h_lock h) \<Longrightarrow> flags_ok (h_lock (snd (command_end a outcome now rssi h)))"
  by (auto simp: command_end_def Let_def command_finally_def command_settled_def intro!: flags_finally flags_change
      split: sum.split) (simp add: flags_ok_def set_authoritative_state_def)

lemma flags_event: "flags_ok (h_lock h) \<Longrightarrow> flags_ok (h_lock (home_apply lv e h))"
  by (cases e)
    (simp_all add: flags_change flags_query flags_end command_begin_def flags_begin on_lock_event_def async_update_def,
      simp add: flags_ok_def)

text \<open>
  The entity says locking or unlocking exactly while a command holds the command lock,
  never both, and never both in anything it has published, whatever the order of commands,
  updates, queries and failures.
\<close>

lemma transitional_state_exact:
  assumes "home_reach lv h"
  shows "(is_locking (h_lock h) \<or> is_unlocking (h_lock h)) = command_held (h_lock h)
    \<and> \<not> (is_locking (h_lock h) \<and> is_unlocking (h_lock h))
    \<and> list_all (\<lambda>w. \<not> (sh_locking w \<and> sh_unlocking w)) (le_writes (h_lock h))"
proof -
  have "flags_ok (h_lock h)"
    using assms
  proof (induction rule: home_reach.induct)
    case (home_new s now)
    have "flags_ok (new_lock_entity (mac :: string))" for mac by (simp add: flags_ok_def new_lock_entity_def)
    then show ?case by (simp add: new_lock_def flags_sync)
  qed (rule flags_event)
  then show ?thesis by (simp add: flags_ok_def)
qed

subsection \<open>A whole command\<close>

lemma settled_coord: "locked_in (data_or_empty (h_coord (coord_change now (apply_authoritative_state mac b battery src rssi now) h))) mac = Some b
    \<and> map_option sa_source (dict_get (co_attribution (h_coord (coord_change now (apply_authoritative_state mac b battery src rssi now) h))) mac) = Some src"
  by (simp add: coord_change_def Let_def apply_authoritative_state_def next_attribution_def coord_frame data_or_empty_def)

lemma update_mac [simp]:
  "le_mac (write_state l) = le_mac l" "le_mac (write_state_if_added l) = le_mac l"
  "le_mac (set_in_flight a l) = le_mac l" "le_mac (clear_in_flight l) = le_mac l"
  "le_mac (set_authoritative_state b l) = le_mac l" "le_mac (create_tracked_task n l) = le_mac l"
  by (simp_all add: write_state_def write_state_if_added_def set_in_flight_def clear_in_flight_def
      create_tracked_task_def set_authoritative_state_def)

text \<open>
  Claim C9. A command through the entity: when it returns, the lock or a fresh query confirmed it,
  the entity shows the commanded state and the coordinator published it as the result of a
  command; when it fails, the entity raises a \<open>HomeAssistantError\<close> or passes the
  cancellation on, and neither the state it shows nor the coordinator changed. In both
  cases it no longer says that the lock is moving.
\<close>

theorem entity_command_outcome:
  assumes "at_rest c" and "entity_command E a now rssi (h, c) = (r, h', c')"
  shows "\<not> is_locking (h_lock h') \<and> \<not> is_unlocking (h_lock h')
    \<and> (case r of
        Inr _ \<Rightarrow> (sdk_acknowledged E a c' \<or> fresh_state_seen E a c') \<and> is_locked (h_lock h') = Some (a = ALock)
          \<and> locked_in (data_or_empty (h_coord h')) (le_mac (h_lock h)) = Some (a = ALock)
          \<and> map_option sa_source (dict_get (co_attribution (h_coord h')) (le_mac (h_lock h))) = Some ''command''
      | Inl e \<Rightarrow> ((\<exists>m. e = HomeAssistantError m) \<or> e = Unhandled Cancelled)
          \<and> is_locked (h_lock h') = is_locked (h_lock h) \<and> h_coord h' = h_coord h)"
proof -
  obtain outcome c1 where run: "run_command E a c = (outcome, c1)" by force
  have moving: "\<not> is_locking (h_lock (command_finally k)) \<and> \<not> is_unlocking (h_lock (command_finally k))" for k
    by (simp add: command_finally_def write_state_if_added_def write_state_def clear_in_flight_def)
  have quiet: "is_locking (create_tracked_task n l) = is_locking l" "is_unlocking (create_tracked_task n l) = is_unlocking l" for n l
    by (simp_all add: create_tracked_task_def)
  show ?thesis
  proof (cases outcome)
    case (Inl e)
    with run assms(2) have res: "r = Inl (command_error a e (le_mac (h_lock h)))" "h' = command_finally (command_begin a h)"
      by (auto simp: entity_command_def command_end_def command_begin_def)
    from command_result [OF assms(1) run] Inl have "is_ttlock e \<or> e = Cancelled" by simp
    with res moving [of "command_begin a h"] show ?thesis
      by (auto simp: command_error_def) (simp_all add: command_finally_def command_begin_def)
  next
    case (Inr u)
    let ?h = "command_finally (command_settled a now rssi (command_begin a h))"
    from Inr run assms(2) have res: "r = Inr ()"
        "h' = ?h\<lparr>h_lock := create_tracked_task ''fetch_log_after_command'' (h_lock ?h), h_coord := request_refresh (h_coord ?h)\<rparr>"
        "c' = c1"
      by (auto simp: entity_command_def command_end_def Let_def)
    have "settled (now + COMMAND_SETTLE_SECONDS) (a = ALock) (snd (command_end a (Inr u) now rssi (command_begin a h)))"
      by (rule command_end_settled)
    then have "is_locked (h_lock h') = Some (a = ALock)"
      using res by (simp add: settled_def command_end_def Let_def)
    moreover have "data_or_empty (h_coord h') = data_or_empty (h_coord (command_settled a now rssi (command_begin a h)))"
      "co_attribution (h_coord h') = co_attribution (h_coord (command_settled a now rssi (command_begin a h)))"
      using res by (simp_all add: command_finally_def data_or_empty_def coord_frame)
    moreover have "le_mac (h_lock (command_begin a h)) = le_mac (h_lock h)" by (simp add: command_begin_def)
    ultimately show ?thesis
      using res(1,3) moving command_confirmed [OF run [unfolded Inr]] settled_coord res(2) quiet
      by (simp add: command_settled_def)
  qed
qed

subsection \<open>Concrete runs\<close>

abbreviation home_run :: "int \<Rightarrow> home_event list \<Rightarrow> home \<Rightarrow> home option" where
  "home_run lv \<equiv> run_events home_enabled (home_apply lv)"

lemma home_run_reach: "home_run lv es h = Some h' \<Longrightarrow> home_reach lv h \<Longrightarrow> home_reach lv h'"
  by (induction es arbitrary: h) (auto intro: home_next split: if_splits)

definition sample_home :: home where
  "sample_home = \<lparr>h_lock = new_lock 0 ''AA'' (new_coord [''AA'']), h_coord = new_coord [''AA'']\<rparr>"

lemma sample_home_reach: "home_reach lv sample_home"
  unfolding sample_home_def by (intro home_new coord_new) simp

text \<open>A poll that reads the lock as open during the settle window of a lock command.\<close>

definition sample_flip :: "home_event list" where
  "sample_flip = [HCoord EvBegin 2, HCoord (EvPoll 0 ''AA'' (Inr (Some (Some 1, Some 80))) None 2) 2,
     HCoord (EvPublish 0) 3, HQuery (Some (Some 1, None)) 4 None, HPush]"

subsection \<open>The published state never goes back\<close>

text \<open>The observations an event of the entity or the coordinator brings.\<close>

fun home_offers :: "int \<Rightarrow> home_event \<Rightarrow> home \<Rightarrow> (string \<times> nat \<times> bool) list" where
  "home_offers lv (HCoord e now) h = offers e (h_coord h)"
| "home_offers lv (HQuery (Some (Some raw, battery)) now rssi) h =
     (if settling now (raw = lv) (h_lock h) then []
      else [(le_mac (h_lock h), rev_of (h_coord h) (le_mac (h_lock h)) + 1, raw = lv)])"
| "home_offers lv (HEnd a (Inr _) now rssi) h = [(le_mac (h_lock h), rev_of (h_coord h) (le_mac (h_lock h)) + 1, a = ALock)]"
| "home_offers lv _ h = []"

lemma entity_mac [simp]:
  "le_mac (write_state_if_added l) = le_mac l" "le_mac (set_authoritative_state b l) = le_mac l"
  by (simp_all add: write_state_def write_state_if_added_def set_authoritative_state_def)

lemma change_coord [simp]: "h_coord (coord_change now f h) = f (h_coord h)"
  by (simp add: coord_change_def Let_def)

lemma state_register:
  assumes "coord_inv s"
  shows "coord_inv (apply_authoritative_state mac b battery source rssi now s)"
    and "published (apply_authoritative_state mac b battery source rssi now s)
      = reg_write (mac, rev_of s mac + 1, b) (published s)"
  using coord_event_register [OF assms, of "EvState mac b battery source rssi now"]
  by (simp_all add: rev_of_def)

lemma asking_register [simp]:
  "coord_inv s \<Longrightarrow> coord_inv (request_refresh s)" "published (request_refresh s) = published s"
  "coord_inv s \<Longrightarrow> coord_inv (request_active_state_refresh m s)"
  "published (request_active_state_refresh m s) = published s"
  by (rule coord_inv_same; simp add: coord_frame)+

lemma home_event_register:
  assumes "coord_inv (h_coord h)" "home_enabled e h"
  shows "coord_inv (h_coord (home_apply lv e h))
    \<and> published (h_coord (home_apply lv e h)) = fold reg_write (home_offers lv e h) (published (h_coord h))"
proof (cases e)
  case (HQuery answer now rssi)
  show ?thesis
  proof (cases "\<exists>raw battery. answer = Some (Some raw, battery)")
    case True
    then obtain raw battery where "answer = Some (Some raw, battery)" by blast
    then show ?thesis using HQuery assms(1) state_register
      by (simp add: query_and_apply_def apply_lock_state_def Let_def)
  next
    case False
    then have "home_offers lv e h = []" "home_apply lv e h = h"
      using HQuery by (auto simp: query_and_apply_def split: option.split) (cases answer; auto)
    with assms(1) show ?thesis by simp
  qed
next
  case (HEnd a outcome now rssi)
  with assms(1) show ?thesis
    by (cases outcome)
      (simp_all add: command_end_def command_finally_def command_settled_def state_register Let_def)
qed (use assms in \<open>simp_all add: coord_event_register command_begin_def on_lock_event_def async_update_def\<close>)

interpretation home_register: newest_wins "\<lambda>h. coord_inv (h_coord h)" home_enabled "home_apply lv"
    "home_offers lv" "\<lambda>h. published (h_coord h)" for lv
  by unfold_locales (simp_all add: home_event_register)

lemma home_reach_coord: "home_reach lv h \<Longrightarrow> coord_inv (h_coord h)"
  by (induction rule: home_reach.induct) (simp_all add: reach_coord_inv home_register.keeps_ok)

text \<open>
  Claim C35. The state shown for a lock never goes back. Once a state is published, any further
  events of the coordinator and of the entity (polls, their delayed publication, advertisements,
  commands, queries after a push, shutdown), in any order, leave it as it is or replace it by an
  observation with a higher number, that is one the lock gave later. A refresh held up by another
  lock cannot undo a command.
\<close>

theorem published_never_older:
  assumes "home_reach lv h" and "home_run lv es h = Some h'" and "published (h_coord h) mac = Some (r, locked)"
  shows "\<exists>r' locked'. published (h_coord h') mac = Some (r', locked') \<and> (r' = r \<and> locked' = locked \<or> r < r')"
  by (rule home_register.run_never_older [OF assms(2) home_reach_coord [OF assms(1)] assms(3)])

text \<open>A poll of two locks; a command of the first runs before the second lets it be published.\<close>

definition sample_overtaken :: "home_event list" where
  "sample_overtaken = [HCoord EvBegin 2, HCoord (EvPoll 0 ''AA'' (Inr (Some (Some 1, Some 80))) None 2) 2,
     HBegin ALock, HEnd ALock (Inr ()) 6 None]"

definition sample_pair :: home where
  "sample_pair = \<lparr>h_lock = new_lock 0 ''AA'' (new_coord [''AA'', ''BB'']), h_coord = new_coord [''AA'', ''BB'']\<rparr>"

theorem published_never_older_witness:
  "\<exists>h h' r' locked'. home_run 0 sample_overtaken sample_pair = Some h \<and> published (h_coord h) ''AA'' = Some (2, True)
    \<and> home_run 0 [HCoord (EvPoll 0 ''BB'' (Inl (TimeoutErr [])) None 9) 9, HCoord (EvPublish 0) 9] h = Some h'
    \<and> published (h_coord h') ''AA'' = Some (r', locked') \<and> 2 \<le> r'"
proof -
  let ?es = "[HCoord (EvPoll 0 ''BB'' (Inl (TimeoutErr [])) None 9) 9, HCoord (EvPublish 0) 9]"
  define h where "h = the (home_run 0 sample_overtaken sample_pair)"
  define h' where "h' = the (home_run 0 ?es h)"
  have run: "home_run 0 sample_overtaken sample_pair = Some h" unfolding h_def by code_simp
  have later: "home_run 0 ?es h = Some h'" unfolding h'_def h_def by code_simp
  have now: "published (h_coord h) ''AA'' = Some (2, True)" unfolding h_def by code_simp
  have "home_reach 0 sample_pair" unfolding sample_pair_def by (intro home_new coord_new) simp
  from published_never_older [OF home_run_reach [OF run this] later now]
  obtain r' l' where "published (h_coord h') ''AA'' = Some (r', l')" "2 \<le> r'" by auto
  with run later now show ?thesis by blast
qed

theorem settle_window_holds_witness:
  "is_locked (h_lock (fold (home_apply 0) sample_flip
     (snd (command_end ALock (Inr ()) 1 None (command_begin ALock (home_apply 0 HAdded sample_home)))))) = Some True"
proof -
  have "list_all (inside_window (1 + COMMAND_SETTLE_SECONDS)) sample_flip"
    by (simp add: sample_flip_def COMMAND_SETTLE_SECONDS_def)
  from settle_window_holds [OF this, of 0 ALock None] show ?thesis by simp
qed

lemma transitional_state_exact_witness:
  "is_locking (h_lock (command_begin ALock sample_home)) \<and> command_held (h_lock (command_begin ALock sample_home))
    \<and> \<not> is_unlocking (h_lock (command_begin ALock sample_home))"
proof -
  have "home_enabled (HBegin ALock) sample_home" by code_simp
  from transitional_state_exact [OF home_next [OF sample_home_reach [of 0] this]]
  have "(is_locking (h_lock (command_begin ALock sample_home)) \<or> is_unlocking (h_lock (command_begin ALock sample_home)))
      = command_held (h_lock (command_begin ALock sample_home))
    \<and> \<not> (is_locking (h_lock (command_begin ALock sample_home)) \<and> is_unlocking (h_lock (command_begin ALock sample_home)))"
    by simp
  moreover have "is_locking (h_lock (command_begin ALock sample_home))" by code_simp
  ultimately show ?thesis by simp
qed

theorem entity_command_outcome_witness:
  "is_locked (h_lock (fst (snd (entity_command sample_env ALock 1 None (sample_home, sample_conn))))) = Some True
    \<and> locked_in (data_or_empty (h_coord (fst (snd (entity_command sample_env ALock 1 None (sample_home, sample_conn)))))) ''AA''
      = Some True"
proof -
  let ?run = "entity_command sample_env ALock 1 None (sample_home, sample_conn)"
  have ok: "fst ?run = Inr ()" and mac: "le_mac (h_lock sample_home) = ''AA''" by code_simp+
  from ok have "?run = (Inr (), fst (snd ?run), snd (snd ?run))" by (metis prod.collapse)
  from entity_command_outcome [OF sample_rest this] mac show ?thesis by simp
qed

subsection \<open>Where readings of the settle window end up\<close>

text \<open>
  A reading that disagrees with the command is not dropped but only held back: the coordinator
  keeps it, and the first update of any kind after the window, here an advertisement that says
  nothing about the lock state, makes the entity adopt the reading taken inside the window.
\<close>

lemma settle_window_reading_returns:
  "\<exists>h h'. home_reach 0 h \<and> settle_until (h_lock h) = 5 \<and> is_locked (h_lock h) = Some True
    \<and> h' = home_apply 0 (HCoord (EvAdvert ''AA'' \<lparr>ad_lock_state = 0, ad_new_records = False,
        ad_battery = 70, ad_mac = ''AA''\<rparr>) 6) h
    \<and> is_locked (h_lock h') = Some False
    \<and> map_option sa_observed_at (dict_get (co_attribution (h_coord h')) ''AA'') = Some 2"
proof -
  let ?es = "[HAdded, HBegin ALock, HEnd ALock (Inr ()) 1 None] @ take 3 sample_flip"
  let ?h = "the (home_run 0 ?es sample_home)"
  have run: "home_run 0 ?es sample_home = Some ?h" by code_simp
  have "settle_until (h_lock ?h) = 5" "is_locked (h_lock ?h) = Some True"
    "is_locked (h_lock (home_apply 0 (HCoord (EvAdvert ''AA'' \<lparr>ad_lock_state = 0, ad_new_records = False,
        ad_battery = 70, ad_mac = ''AA''\<rparr>) 6) ?h)) = Some False"
    "map_option sa_observed_at (dict_get (co_attribution (h_coord (home_apply 0 (HCoord (EvAdvert ''AA'' \<lparr>ad_lock_state = 0,
        ad_new_records = False, ad_battery = 70, ad_mac = ''AA''\<rparr>) 6) ?h))) ''AA'') = Some 2"
    by code_simp+
  with home_run_reach [OF run sample_home_reach] show ?thesis by blast
qed

text \<open>
  A raw state that is neither locked nor unlocked: a poll reports it as unknown, a query after a
  push shows the lock as unlocked.
\<close>

lemma unknown_raw_state_differs:
  assumes "raw \<noteq> LOCK_STATE_LOCKED" and "raw \<noteq> LOCK_STATE_UNLOCKED" and "settle_until l \<le> now"
  shows "parse_lock_state (Some raw) = None
    \<and> is_locked (snd (apply_lock_state LOCK_STATE_LOCKED raw now l)) = Some False"
  using assms by (simp add: parse_lock_state_def apply_lock_state_def settling_def Let_def)

end
