(* ===== verification/ManualKey.thy ===== *)
theory ManualKey
  imports PyDict
begin

section \<open>The manual key form (manual_key.py)\<close>

text \<open>
  Validation of a key entered by hand and the virtual key built from it. The SDK's advertisement
  decoder, Home Assistant's \<open>format_mac\<close> and its Bluetooth history are parameters
  (\<open>form_env\<close>). The numbers of the form are integers; their range is the selector's.
\<close>

definition AES_KEY_BYTES :: nat where "AES_KEY_BYTES = 16"
definition AES_SEPARATORS :: string where "AES_SEPARATORS = '',. -''"

definition hex_char :: "char \<Rightarrow> bool" where
  "hex_char c \<longleftrightarrow> hex_value c \<noteq> None"

text \<open>\<open>_MAC_PATTERN\<close> on a stripped text: five groups of a pair and a separator, and a pair.\<close>

fun mac_groups :: "nat \<Rightarrow> string \<Rightarrow> bool" where
  "mac_groups 0 s = (case s of [a, b] \<Rightarrow> hex_char a \<and> hex_char b | _ \<Rightarrow> False)"
| "mac_groups (Suc n) s = (case s of
     a # b # sep # rest \<Rightarrow> hex_char a \<and> hex_char b \<and> (sep = CHR '':'' \<or> sep = CHR ''-'') \<and> mac_groups n rest
   | _ \<Rightarrow> False)"

definition mac_pattern :: "string \<Rightarrow> bool" where
  "mac_pattern s \<longleftrightarrow> mac_groups 5 s"

definition normalized_mac :: "string \<Rightarrow> string" where
  "normalized_mac raw = py_upper (py_replace (CHR ''-'') '':'' (py_strip raw))"

definition aes_key_bytes :: "string \<Rightarrow> byte list option" where
  "aes_key_bytes raw =
     (let key_text = fold (\<lambda>sep t. py_replace sep [] t) AES_SEPARATORS (py_strip raw)
      in if length key_text \<noteq> AES_KEY_BYTES * 2 then None else bytes_fromhex key_text)"

record manual_input =
  mk_mac :: string
  mk_aes :: string
  mk_unlock :: string
  mk_admin :: "string option"
  mk_name :: "string option"
  mk_protocol_type :: int
  mk_protocol_version :: int
  mk_scene :: int
  mk_group :: int
  mk_org :: int

text \<open>What the code sets of the SDK's \<open>VirtualKey\<close>, and what is stored of it; the rest is constant.\<close>

record virtual_key =
  vk_mac :: string
  vk_alias :: string
  vk_name :: string
  vk_protocol_type :: int
  vk_protocol_version :: int
  vk_scene :: int
  vk_group :: int
  vk_org :: int
  vk_aes :: string
  vk_unlock :: string
  vk_admin :: string

record proto_advert =
  pa_mac :: string
  pa_header :: "int \<times> int \<times> int"

record form_env =
  fe_last_info :: "string \<Rightarrow> (int \<times> byte list) list option"
  fe_decode :: "int \<Rightarrow> byte list \<Rightarrow> proto_advert option"
  fe_format_mac :: "string \<Rightarrow> string"

fun matching_advert :: "form_env \<Rightarrow> string \<Rightarrow> (int \<times> byte list) list \<Rightarrow> proto_advert option" where
  "matching_advert F mac [] = None"
| "matching_advert F mac ((company, payload) # rest) = (case fe_decode F company payload of
     None \<Rightarrow> matching_advert F mac rest
   | Some ad \<Rightarrow> if fe_format_mac F (pa_mac ad) = fe_format_mac F mac then Some ad else matching_advert F mac rest)"

definition advertised :: "form_env \<Rightarrow> string \<Rightarrow> proto_advert option" where
  "advertised F mac = (case fe_last_info F mac of None \<Rightarrow> None | Some entries \<Rightarrow> matching_advert F mac entries)"

definition check_against_advertisement :: "form_env \<Rightarrow> manual_input \<Rightarrow> (string, string) dict" where
  "check_against_advertisement F u = (case advertised F (normalized_mac (mk_mac u)) of
     None \<Rightarrow> []
   | Some ad \<Rightarrow> if (mk_protocol_type u, mk_protocol_version u, mk_scene u) = pa_header ad then []
       else [(''base'', ''protocol_mismatch'')])"

text \<open>\<open>(x or "").strip()\<close>\<close>

definition stripped_or_empty :: "string option \<Rightarrow> string" where
  "stripped_or_empty x = py_strip (case x of None \<Rightarrow> [] | Some s \<Rightarrow> s)"

definition form_validate :: "form_env \<Rightarrow> manual_input \<Rightarrow> (string, string) dict" where
  "form_validate F u =
     (let mac_bad = \<not> mac_pattern (py_strip (mk_mac u));
          admin = stripped_or_empty (mk_admin u) in
      (if mac_bad then [(''lock_mac'', ''invalid_mac'')] else [])
      @ (if aes_key_bytes (mk_aes u) = None then [(''aes_key'', ''invalid_aes_key'')] else [])
      @ (if \<not> py_isdigit (py_strip (mk_unlock u)) then [(''unlock_key'', ''invalid_unlock_key'')] else [])
      @ (if admin \<noteq> [] \<and> \<not> py_isdigit admin then [(''admin_passcode'', ''invalid_admin_passcode'')] else [])
      @ (if mac_bad then [] else check_against_advertisement F u))"

definition form_build :: "manual_input \<Rightarrow> exn + virtual_key" where
  "form_build u =
     (let mac = normalized_mac (mk_mac u);
          entered = stripped_or_empty (mk_name u);
          name = (if entered \<noteq> [] then entered else ''TTLock '' @ mac) in
      case aes_key_bytes (mk_aes u) of
        None \<Rightarrow> Inl (ValueErr ''build() requires input that async_validate accepted'')
      | Some key \<Rightarrow> Inr \<lparr>vk_mac = mac, vk_alias = name, vk_name = name,
          vk_protocol_type = mk_protocol_type u, vk_protocol_version = mk_protocol_version u,
          vk_scene = mk_scene u, vk_group = mk_group u, vk_org = mk_org u,
          vk_aes = bytes_hex key, vk_unlock = py_strip (mk_unlock u), vk_admin = stripped_or_empty (mk_admin u)\<rparr>)"

definition form_defaults :: "virtual_key \<Rightarrow> manual_input" where
  "form_defaults k = \<lparr>mk_mac = vk_mac k, mk_aes = vk_aes k, mk_unlock = vk_unlock k,
     mk_admin = Some (vk_admin k), mk_name = Some (vk_alias k),
     mk_protocol_type = vk_protocol_type k, mk_protocol_version = vk_protocol_version k,
     mk_scene = vk_scene k, mk_group = vk_group k, mk_org = vk_org k\<rparr>"

end
