(* ===== verification/ConfigFlow.thy ===== *)
theory ConfigFlow
  imports ManualKey
begin

section \<open>The config flow and the cloud client (config_flow.py, api.py)\<close>

text \<open>
  How config entries come to be and change. The TTLock cloud is the environment \<open>cloud_env\<close>;
  Home Assistant's part (the list of entries, unique ids, \<open>slugify\<close>, \<open>format_mac\<close>) is the state
  and parameters. A step ends with a \<open>flow_result\<close>; an \<open>AbortFlow\<close> is the result \<open>Abort\<close>. Form
  layouts and log output are not modelled.
\<close>

subsection \<open>The cloud client\<close>

text \<open>
  What the SDK raises: \<open>CloudError\<close> with its body, an HTTP error of the client, anything else.
\<close>

datatype cloud_exc = CloudError "(string, json) dict" string | HttpError string | UnknownExc string

datatype api_error = ApiVerification string | ApiAuth string | ApiCommunication string | ApiBase string
  | Uncaught string

record 'w cloud_env =
  cl_discover :: "'w \<Rightarrow> (cloud_exc + unit) \<times> 'w"
  cl_login :: "string \<Rightarrow> string \<Rightarrow> 'w \<Rightarrow> (cloud_exc + unit) \<times> 'w"
  cl_request_code :: "string \<Rightarrow> 'w \<Rightarrow> (cloud_exc + unit) \<times> 'w"
  cl_validate :: "string \<Rightarrow> string \<Rightarrow> 'w \<Rightarrow> (cloud_exc + unit) \<times> 'w"
  cl_list :: "'w \<Rightarrow> (cloud_exc + virtual_key list) \<times> 'w"

definition CLOUD_ERR_NEW_DEVICE_LOGIN :: int where "CLOUD_ERR_NEW_DEVICE_LOGIN = -1014"
definition HTTP_STATUS_UNAUTHORIZED :: "int set" where "HTTP_STATUS_UNAUTHORIZED = {401, 403}"

text \<open>Python's truth of a value, and \<open>isinstance(value, int)\<close>, which a bool passes.\<close>

fun json_true :: "json \<Rightarrow> bool" where
  "json_true JNull = False"
| "json_true (JBool b) = b"
| "json_true (JInt i) = (i \<noteq> 0)"
| "json_true (JStr s) = (s \<noteq> [])"
| "json_true (JList xs) = (xs \<noteq> [])"
| "json_true (JDict d) = (d \<noteq> [])"

fun json_int :: "json \<Rightarrow> int option" where
  "json_int (JInt i) = Some i"
| "json_int (JBool b) = Some (if b then 1 else 0)"
| "json_int _ = None"

definition body_get :: "(string, json) dict \<Rightarrow> string \<Rightarrow> json" where
  "body_get body k = dict_get_or body k JNull"

definition classify_cloud_error :: "(string, json) dict \<Rightarrow> string \<Rightarrow> api_error" where
  "classify_cloud_error body msg = (case json_int (body_get body ''http_status'') of
     Some status \<Rightarrow> if status \<in> HTTP_STATUS_UNAUTHORIZED then ApiAuth msg else ApiCommunication msg
   | None \<Rightarrow> (let errcode = (if json_true (body_get body ''errorCode'') then body_get body ''errorCode''
          else body_get body ''errcode'')
       in if json_int errcode = Some CLOUD_ERR_NEW_DEVICE_LOGIN then ApiVerification msg
          else if errcode \<noteq> JNull then ApiAuth msg
          else ApiBase msg))"

fun api_failure :: "cloud_exc \<Rightarrow> api_error" where
  "api_failure (CloudError body msg) = classify_cloud_error body msg"
| "api_failure (HttpError msg) = ApiCommunication (''Failed to reach TTLock cloud: '' @ msg)"
| "api_failure (UnknownExc msg) = Uncaught msg"

definition api_result :: "(cloud_exc + 'a) \<times> 'w \<Rightarrow> (api_error + 'a) \<times> 'w" where
  "api_result r = (case r of (Inl e, w) \<Rightarrow> (Inl (api_failure e), w) | (Inr a, w) \<Rightarrow> (Inr a, w))"

text \<open>\<open>async_login\<close>: a \<open>CloudError\<close> of the discovery is suppressed, other errors of it are not.\<close>

definition api_login :: "'w cloud_env \<Rightarrow> string \<Rightarrow> string \<Rightarrow> 'w \<Rightarrow> (api_error + unit) \<times> 'w" where
  "api_login C user pw w = (case cl_discover C w of
     (Inl (HttpError msg), w1) \<Rightarrow> (Inl (api_failure (HttpError msg)), w1)
   | (Inl (UnknownExc msg), w1) \<Rightarrow> (Inl (Uncaught msg), w1)
   | (_, w1) \<Rightarrow> api_result (cl_login C user pw w1))"

definition api_request_code :: "'w cloud_env \<Rightarrow> string \<Rightarrow> 'w \<Rightarrow> (api_error + unit) \<times> 'w" where
  "api_request_code C account w = api_result (cl_request_code C account w)"

definition api_validate_and_login :: "'w cloud_env \<Rightarrow> string \<Rightarrow> string \<Rightarrow> string \<Rightarrow> 'w \<Rightarrow> (api_error + unit) \<times> 'w" where
  "api_validate_and_login C user pw pin w = (case cl_validate C user pin w of
     (Inl e, w1) \<Rightarrow> (Inl (api_failure e), w1)
   | (Inr _, w1) \<Rightarrow> api_result (cl_login C user pw w1))"

definition api_list_keys :: "'w cloud_env \<Rightarrow> 'w \<Rightarrow> (api_error + virtual_key list) \<times> 'w" where
  "api_list_keys C w = api_result (cl_list C w)"

subsection \<open>Entries and results\<close>

record config_entry =
  ce_id :: nat
  ce_unique :: string
  ce_title :: string
  ce_account :: "(string \<times> string) option"
  ce_keys :: "virtual_key list"
  ce_ignored :: bool

datatype flow_result =
    Menu
  | ShowForm string "(string, string) dict"
  | EntryCreated nat
  | EntryUpdated nat
  | Abort string
  | FlowError string

record 'w flow =
  fl_entries :: "config_entry list"
  fl_next :: nat
  fl_unique :: string
  fl_username :: string
  fl_password :: string
  fl_world :: 'w

record 'w flow_env =
  fw_cloud :: "'w cloud_env"
  fw_form :: form_env
  fw_slugify :: "string \<Rightarrow> string"
  fw_in_progress :: "string \<Rightarrow> 'w \<Rightarrow> bool"

type_synonym 'w flow_step = "'w flow \<Rightarrow> flow_result \<times> 'w flow"

definition base_error :: "string \<Rightarrow> (string, string) dict" where
  "base_error e = [(''base'', e)]"

text \<open>\<open>_abort_if_unique_id_configured\<close> of Home Assistant: a user may configure what was ignored.\<close>

definition unique_taken :: "string \<Rightarrow> 'w flow \<Rightarrow> bool" where
  "unique_taken u s \<longleftrightarrow> list_ex (\<lambda>e. ce_unique e = u \<and> \<not> ce_ignored e) (fl_entries s)"

text \<open>\<open>_abort_if_lock_configured\<close>: whether an entry other than \<open>ignore\<close> holds the lock.\<close>

definition lock_configured :: "(string \<Rightarrow> string) \<Rightarrow> string \<Rightarrow> nat option \<Rightarrow> 'w flow \<Rightarrow> bool" where
  "lock_configured fmt mac ignore s \<longleftrightarrow> list_ex (\<lambda>e. \<not> ce_ignored e \<and> Some (ce_id e) \<noteq> ignore
     \<and> list_ex (\<lambda>k. fmt (vk_mac k) = fmt mac) (ce_keys e)) (fl_entries s)"

definition any_lock_configured :: "(string \<Rightarrow> string) \<Rightarrow> virtual_key list \<Rightarrow> nat option \<Rightarrow> 'w flow \<Rightarrow> bool" where
  "any_lock_configured fmt ks ignore s \<longleftrightarrow> list_ex (\<lambda>k. lock_configured fmt (vk_mac k) ignore s) ks"

text \<open>Home Assistant replaces an entry with the unique id of the flow (an ignored one).\<close>

definition create_entry ::
  "string \<Rightarrow> (string \<times> string) option \<Rightarrow> virtual_key list \<Rightarrow> 'w flow_step" where
  "create_entry title account ks s = (EntryCreated (fl_next s), s\<lparr>fl_next := fl_next s + 1,
     fl_entries := filter (\<lambda>e. ce_unique e \<noteq> fl_unique s) (fl_entries s) @ [\<lparr>ce_id = fl_next s, ce_unique = fl_unique s, ce_title = title,
       ce_account = account, ce_keys = ks, ce_ignored = False\<rparr>]\<rparr>)"

definition update_entry :: "nat \<Rightarrow> (config_entry \<Rightarrow> config_entry) \<Rightarrow> 'w flow_step" where
  "update_entry i f s = (EntryUpdated i, s\<lparr>fl_entries := map (\<lambda>e. if ce_id e = i then f e else e) (fl_entries s)\<rparr>)"

subsection \<open>Cloud calls mapped to form errors\<close>

text \<open>\<open>None\<close> is success, \<open>Some (Inr errors)\<close> the errors of a form, \<open>Some (Inl text)\<close> an exception that escapes.\<close>

type_synonym form_outcome = "(string + (string, string) dict) option"

definition request_verification_code :: "'w flow_env \<Rightarrow> 'w flow \<Rightarrow> form_outcome \<times> 'w flow" where
  "request_verification_code F s = (let (r, w) = api_request_code (fw_cloud F) (fl_username s) (fl_world s) in
     (Some (case r of
        Inr _ \<Rightarrow> Inr (base_error ''verification_required'')
      | Inl (ApiCommunication m) \<Rightarrow> Inr (base_error ''connection'')
      | Inl (Uncaught m) \<Rightarrow> Inl m
      | Inl _ \<Rightarrow> Inr (base_error ''unknown'')), s\<lparr>fl_world := w\<rparr>))"

definition login_and_maybe_request_code :: "'w flow_env \<Rightarrow> 'w flow \<Rightarrow> form_outcome \<times> 'w flow" where
  "login_and_maybe_request_code F s =
     (let (r, w) = api_login (fw_cloud F) (fl_username s) (fl_password s) (fl_world s); s1 = s\<lparr>fl_world := w\<rparr> in
      case r of
        Inr _ \<Rightarrow> (None, s1)
      | Inl (ApiVerification m) \<Rightarrow> request_verification_code F s1
      | Inl (ApiAuth m) \<Rightarrow> (Some (Inr (base_error ''auth'')), s1)
      | Inl (ApiCommunication m) \<Rightarrow> (Some (Inr (base_error ''connection'')), s1)
      | Inl (ApiBase m) \<Rightarrow> (Some (Inr (base_error ''unknown'')), s1)
      | Inl (Uncaught m) \<Rightarrow> (Some (Inl m), s1))"

definition validate_code_and_login :: "'w flow_env \<Rightarrow> string \<Rightarrow> 'w flow \<Rightarrow> form_outcome \<times> 'w flow" where
  "validate_code_and_login F pin s =
     (let (r, w) = api_validate_and_login (fw_cloud F) (fl_username s) (fl_password s) pin (fl_world s) in
      (case r of
        Inr _ \<Rightarrow> None
      | Inl (ApiAuth m) \<Rightarrow> Some (Inr (base_error ''invalid_code''))
      | Inl (ApiCommunication m) \<Rightarrow> Some (Inr (base_error ''connection''))
      | Inl (Uncaught m) \<Rightarrow> Some (Inl m)
      | Inl _ \<Rightarrow> Some (Inr (base_error ''unknown'')), s\<lparr>fl_world := w\<rparr>))"

definition login_for_existing_entry :: "'w flow_env \<Rightarrow> 'w flow \<Rightarrow> form_outcome \<times> 'w flow" where
  "login_for_existing_entry F s =
     (let (r, w) = api_login (fw_cloud F) (fl_username s) (fl_password s) (fl_world s) in
      (case r of
        Inr _ \<Rightarrow> None
      | Inl (ApiVerification m) \<Rightarrow> Some (Inr (base_error ''verification_required''))
      | Inl (ApiAuth m) \<Rightarrow> Some (Inr (base_error ''auth''))
      | Inl (ApiCommunication m) \<Rightarrow> Some (Inr (base_error ''connection''))
      | Inl (ApiBase m) \<Rightarrow> Some (Inr (base_error ''unknown''))
      | Inl (Uncaught m) \<Rightarrow> Some (Inl m), s\<lparr>fl_world := w\<rparr>))"

definition fetch_keys :: "'w flow_env \<Rightarrow> 'w flow \<Rightarrow> ((string + (string, string) dict) + virtual_key list) \<times> 'w flow" where
  "fetch_keys F s =
     (let (r, w) = (case api_login (fw_cloud F) (fl_username s) (fl_password s) (fl_world s) of
          (Inl e, w1) \<Rightarrow> (Inl e, w1)
        | (Inr _, w1) \<Rightarrow> api_list_keys (fw_cloud F) w1) in
      (case r of
        Inr ks \<Rightarrow> Inr ks
      | Inl (ApiAuth m) \<Rightarrow> Inl (Inr (base_error ''auth''))
      | Inl (ApiCommunication m) \<Rightarrow> Inl (Inr (base_error ''connection''))
      | Inl (Uncaught m) \<Rightarrow> Inl (Inl m)
      | Inl _ \<Rightarrow> Inl (Inr (base_error ''unknown'')), s\<lparr>fl_world := w\<rparr>))"

subsection \<open>The steps\<close>

text \<open>\<open>async_set_unique_id\<close> of Home Assistant, which ends a flow another flow is ahead of.\<close>

definition set_unique_id :: "'w flow_env \<Rightarrow> string \<Rightarrow> 'w flow \<Rightarrow> flow_result option \<times> 'w flow" where
  "set_unique_id F u s = (if fw_in_progress F u (fl_world s) then (Some (Abort ''already_in_progress''), s)
     else (None, s\<lparr>fl_unique := u\<rparr>))"

text \<open>A step that ran into errors shows its form again; an exception leaves the step.\<close>

definition show_errors :: "string \<Rightarrow> (string + (string, string) dict) \<Rightarrow> flow_result" where
  "show_errors step r = (case r of Inl msg \<Rightarrow> FlowError msg | Inr errors \<Rightarrow> ShowForm step errors)"

definition finalize_create_entry ::
  "'w flow_env \<Rightarrow> 'w flow \<Rightarrow> ((string + (string, string) dict) + flow_result) \<times> 'w flow" where
  "finalize_create_entry F s = (case fetch_keys F s of
     (Inl errors, s1) \<Rightarrow> (Inl errors, s1)
   | (Inr ks, s1) \<Rightarrow> if any_lock_configured (fe_format_mac (fw_form F)) ks None s1
       then (Inr (Abort ''already_configured''), s1)
       else (let (r, s2) = create_entry (fl_username s1) (Some (fl_username s1, fl_password s1)) ks s1 in (Inr r, s2)))"

definition finalize_update_entry ::
  "'w flow_env \<Rightarrow> config_entry \<Rightarrow> 'w flow \<Rightarrow> ((string + (string, string) dict) + flow_result) \<times> 'w flow" where
  "finalize_update_entry F e s = (case fetch_keys F s of
     (Inl errors, s1) \<Rightarrow> (Inl errors, s1)
   | (Inr ks, s1) \<Rightarrow> if any_lock_configured (fe_format_mac (fw_form F)) ks (Some (ce_id e)) s1
       then (Inr (Abort ''already_configured''), s1)
       else (let (r, s2) = update_entry (ce_id e)
               (\<lambda>x. x\<lparr>ce_account := Some (fl_username s1, fl_password s1), ce_keys := ks\<rparr>) s1 in (Inr r, s2)))"

definition step_user :: "'w flow_step" where
  "step_user s = (Menu, s)"

definition step_cloud :: "'w flow_env \<Rightarrow> (string \<times> string) option \<Rightarrow> 'w flow_step" where
  "step_cloud F inp s = (case inp of
     None \<Rightarrow> (ShowForm ''cloud'' [], s)
   | Some (user, pw) \<Rightarrow> (case set_unique_id F (fw_slugify F user) s of
       (Some r, s1) \<Rightarrow> (r, s1)
     | (None, s1) \<Rightarrow> if unique_taken (fl_unique s1) s1 then (Abort ''already_configured'', s1)
         else (case login_and_maybe_request_code F (s1\<lparr>fl_username := user, fl_password := pw\<rparr>) of
           (Some (Inr errors), s2) \<Rightarrow>
             (if errors = base_error ''verification_required'' then ShowForm ''verify_code'' [] else ShowForm ''cloud'' errors, s2)
         | (Some (Inl msg), s2) \<Rightarrow> (FlowError msg, s2)
         | (None, s2) \<Rightarrow> (case finalize_create_entry F s2 of
             (Inl errors, s3) \<Rightarrow> (show_errors ''cloud'' errors, s3)
           | (Inr r, s3) \<Rightarrow> (r, s3)))))"

definition step_verify_code :: "'w flow_env \<Rightarrow> string option \<Rightarrow> 'w flow_step" where
  "step_verify_code F inp s = (case inp of
     None \<Rightarrow> (ShowForm ''verify_code'' [], s)
   | Some pin \<Rightarrow> (case validate_code_and_login F pin s of
       (Some errors, s1) \<Rightarrow> (show_errors ''verify_code'' errors, s1)
     | (None, s1) \<Rightarrow> (case finalize_create_entry F s1 of
         (Inl errors, s2) \<Rightarrow> (show_errors ''verify_code'' errors, s2)
       | (Inr r, s2) \<Rightarrow> (r, s2))))"

text \<open>\<open>build\<close> raises when the AES key does not decode; \<open>async_validate\<close> has refused that input.\<close>

definition step_manual :: "'w flow_env \<Rightarrow> manual_input option \<Rightarrow> 'w flow_step" where
  "step_manual F inp s = (case inp of
     None \<Rightarrow> (ShowForm ''manual'' [], s)
   | Some u \<Rightarrow> (let errors = form_validate (fw_form F) u in
       if errors \<noteq> [] then (ShowForm ''manual'' errors, s)
       else case form_build u of
         Inl e \<Rightarrow> (FlowError ''build() requires input that async_validate accepted'', s)
       | Inr k \<Rightarrow> (case set_unique_id F (fe_format_mac (fw_form F) (vk_mac k)) s of
           (Some r, s1) \<Rightarrow> (r, s1)
         | (None, s1) \<Rightarrow>
             if unique_taken (fl_unique s1) s1 \<or> lock_configured (fe_format_mac (fw_form F)) (vk_mac k) None s1
             then (Abort ''already_configured'', s1)
             else create_entry (vk_alias k) None [k] s1)))"

definition step_credentials_for_entry ::
  "'w flow_env \<Rightarrow> config_entry \<Rightarrow> string \<Rightarrow> (string \<times> string) option \<Rightarrow> 'w flow_step" where
  "step_credentials_for_entry F e step inp s = (case inp of
     None \<Rightarrow> (ShowForm step [], s)
   | Some (user, pw) \<Rightarrow> (case set_unique_id F (fw_slugify F user) s of
       (Some r, s1) \<Rightarrow> (r, s1)
     | (None, s1) \<Rightarrow> if ce_unique e \<noteq> fl_unique s1 then (Abort ''wrong_account'', s1)
         else (case login_for_existing_entry F (s1\<lparr>fl_username := user, fl_password := pw\<rparr>) of
           (Some errors, s2) \<Rightarrow> (show_errors step errors, s2)
         | (None, s2) \<Rightarrow> (case finalize_update_entry F e s2 of
             (Inl errors, s3) \<Rightarrow> (show_errors step errors, s3)
           | (Inr r, s3) \<Rightarrow> (r, s3)))))"

definition step_reauth_confirm :: "'w flow_env \<Rightarrow> config_entry \<Rightarrow> (string \<times> string) option \<Rightarrow> 'w flow_step" where
  "step_reauth_confirm F e inp = step_credentials_for_entry F e ''reauth_confirm'' inp"

definition step_reauth :: "'w flow_env \<Rightarrow> config_entry \<Rightarrow> 'w flow_step" where
  "step_reauth F e = step_reauth_confirm F e None"

definition step_reconfigure_manual :: "'w flow_env \<Rightarrow> config_entry \<Rightarrow> manual_input option \<Rightarrow> 'w flow_step" where
  "step_reconfigure_manual F e inp s = (case inp of
     None \<Rightarrow> (ShowForm ''reconfigure_manual'' [], s)
   | Some u \<Rightarrow> (let errors = form_validate (fw_form F) u in
       if errors \<noteq> [] then (ShowForm ''reconfigure_manual'' errors, s)
       else case form_build u of
         Inl err \<Rightarrow> (FlowError ''build() requires input that async_validate accepted'', s)
       | Inr k \<Rightarrow> if lock_configured (fe_format_mac (fw_form F)) (vk_mac k) (Some (ce_id e)) s
           then (Abort ''already_configured'', s)
           else update_entry (ce_id e) (\<lambda>x. x\<lparr>ce_unique := fe_format_mac (fw_form F) (vk_mac k),
                  ce_title := vk_alias k, ce_keys := [k]\<rparr>) s))"

definition step_reconfigure :: "'w flow_env \<Rightarrow> config_entry \<Rightarrow> (string \<times> string) option \<Rightarrow> 'w flow_step" where
  "step_reconfigure F e inp = (if ce_account e = None then step_reconfigure_manual F e None
     else step_credentials_for_entry F e ''reconfigure'' inp)"

subsection \<open>Everything that happens to the entries\<close>

text \<open>
  \<open>flow_reach\<close> interleaves the steps of any number of flows. \<open>handler\<close> is the change to another
  flow, with what that flow has stored of its user; \<open>removed\<close> the deletion of an entry, \<open>ignored\<close>
  a discovery the user ignores. A step runs as one transition: the checks for configured locks
  follow its last cloud call, and no other task runs between them and the new entry.
\<close>

inductive flow_reach :: "'w flow_env \<Rightarrow> 'w flow \<Rightarrow> bool" for F where
  start: "flow_reach F \<lparr>fl_entries = [], fl_next = n, fl_unique = u, fl_username = a, fl_password = p, fl_world = w\<rparr>"
| cloud: "flow_reach F s \<Longrightarrow> flow_reach F (snd (step_cloud F inp s))"
| verify: "flow_reach F s \<Longrightarrow> flow_reach F (snd (step_verify_code F pin s))"
| manual: "flow_reach F s \<Longrightarrow> flow_reach F (snd (step_manual F form s))"
| reauth: "flow_reach F s \<Longrightarrow> e \<in> set (fl_entries s) \<Longrightarrow> \<not> ce_ignored e \<Longrightarrow> flow_reach F (snd (step_reauth_confirm F e inp s))"
| reconfigure: "flow_reach F s \<Longrightarrow> e \<in> set (fl_entries s) \<Longrightarrow> \<not> ce_ignored e \<Longrightarrow> flow_reach F (snd (step_reconfigure F e inp s))"
| reconfigure_manual: "flow_reach F s \<Longrightarrow> e \<in> set (fl_entries s) \<Longrightarrow> \<not> ce_ignored e \<Longrightarrow> ce_account e = None
    \<Longrightarrow> flow_reach F (snd (step_reconfigure_manual F e form s))"
| handler: "flow_reach F s \<Longrightarrow> flow_reach F (s\<lparr>fl_unique := u, fl_username := a, fl_password := p, fl_world := w\<rparr>)"
| removed: "flow_reach F s \<Longrightarrow> flow_reach F (s\<lparr>fl_entries := filter (\<lambda>e. ce_id e \<noteq> i) (fl_entries s)\<rparr>)"
| ignored: "flow_reach F s \<Longrightarrow> flow_reach F (s\<lparr>fl_next := fl_next s + 1, fl_entries := fl_entries s
    @ [\<lparr>ce_id = fl_next s, ce_unique = u, ce_title = t, ce_account = None, ce_keys = [], ce_ignored = True\<rparr>]\<rparr>)"

end
