(* ===== verification/Entities.thy ===== *)
theory Entities
  imports LockEntity ConfigFlow ConnState
begin

section \<open>Sensors, device identity and diagnostics (sensor.py, binary_sensor.py, entity.py, diagnostics.py)\<close>

text \<open>
  The remaining entities of a lock, the ids under which Home Assistant registers them, and the
  diagnostics dump of an entry. Stored keys are the dicts of the entry's data; redacting a
  structure is Home Assistant's \<open>async_redact_data\<close> and a parameter. Subscribing to the
  dispatcher and writing states are Home Assistant's.
\<close>

subsection \<open>Ids and devices\<close>

datatype platform = BinarySensor | Event | Lock | Sensor

definition lock_unique_id :: "string \<Rightarrow> string" where "lock_unique_id mac = mac @ ''_lock''"
definition log_unique_id :: "string \<Rightarrow> string" where "log_unique_id mac = mac @ ''_log''"
definition connection_unique_id :: "string \<Rightarrow> string" where "connection_unique_id mac = mac @ ''_connection''"
definition battery_unique_id :: "string \<Rightarrow> string" where "battery_unique_id mac = mac @ ''_battery''"
definition verified_unique_id :: "string \<Rightarrow> string" where "verified_unique_id mac = mac @ ''_last_verified_state''"

text \<open>The entities the platforms create for a list of keys.\<close>

definition entity_ids :: "platform \<Rightarrow> virtual_key list \<Rightarrow> string list" where
  "entity_ids p ks = (case p of
     BinarySensor \<Rightarrow> map (connection_unique_id \<circ> vk_mac) ks
   | Event \<Rightarrow> map (log_unique_id \<circ> vk_mac) ks
   | Lock \<Rightarrow> map (lock_unique_id \<circ> vk_mac) ks
   | Sensor \<Rightarrow> concat (map (\<lambda>k. [battery_unique_id (vk_mac k), verified_unique_id (vk_mac k)]) ks))"

record device_info =
  di_identifiers :: "(string \<times> string) list"
  di_connections :: "(string \<times> string) list"
  di_name :: string
  di_manufacturer :: string
  di_model :: string

definition entity_device_info :: "(string \<Rightarrow> string) \<Rightarrow> virtual_key \<Rightarrow> device_info" where
  "entity_device_info fmt k = \<lparr>di_identifiers = [(''ttlock_ble'', fmt (vk_mac k))],
     di_connections = [(''bluetooth'', fmt (vk_mac k))],
     di_name = (if vk_alias k \<noteq> [] then vk_alias k else if vk_name k \<noteq> [] then vk_name k else vk_mac k),
     di_manufacturer = ''TTLock'',
     di_model = ''protocol '' @ int_str (vk_protocol_type k) @ ''.'' @ int_str (vk_protocol_version k)\<rparr>"

subsection \<open>Sensors\<close>

record battery_sensor =
  bs_mac :: string
  bs_value :: "int option"
  bs_writes :: nat

definition battery_sync :: "coord \<Rightarrow> battery_sensor \<Rightarrow> battery_sensor" where
  "battery_sync s b = (case lock_snapshot_of (bs_mac b) s of
     None \<Rightarrow> b
   | Some sn \<Rightarrow> (case ls_battery sn of None \<Rightarrow> b | Some level \<Rightarrow> b\<lparr>bs_value := Some level\<rparr>))"

definition new_battery_sensor :: "string \<Rightarrow> coord \<Rightarrow> battery_sensor" where
  "new_battery_sensor mac s = battery_sync s \<lparr>bs_mac = mac, bs_value = None, bs_writes = 0\<rparr>"

definition battery_write :: "battery_sensor \<Rightarrow> battery_sensor" where
  "battery_write b = b\<lparr>bs_writes := bs_writes b + 1\<rparr>"

definition battery_coordinator_update :: "coord \<Rightarrow> battery_sensor \<Rightarrow> battery_sensor" where
  "battery_coordinator_update s b = battery_write (battery_sync s b)"

text \<open>A push event and the battery byte it carries, if any.\<close>

definition battery_lock_event :: "int option \<Rightarrow> battery_sensor \<Rightarrow> battery_sensor" where
  "battery_lock_event battery b = (case battery of
     None \<Rightarrow> b | Some level \<Rightarrow> battery_write (b\<lparr>bs_value := Some level\<rparr>))"

text \<open>The time of the last verified state: \<open>now\<close> is the monotonic clock, \<open>utc\<close> the wall clock.\<close>

definition last_verified_state :: "rat \<Rightarrow> rat \<Rightarrow> string \<Rightarrow> coord \<Rightarrow> rat option" where
  "last_verified_state now utc mac s = (case dict_get (co_attribution s) mac of
     None \<Rightarrow> None | Some a \<Rightarrow> Some (utc - max 0 (now - sa_observed_at a)))"

text \<open>The connectivity sensor reads its connection; \<open>coordinator.connections[mac]\<close> may raise.\<close>

definition connection_is_on :: "'w env \<Rightarrow> (string, 'w conn) dict \<Rightarrow> string \<Rightarrow> exn + bool" where
  "connection_is_on E cs mac = (case dict_get cs mac of
     None \<Rightarrow> Inl (KeyErr mac) | Some c \<Rightarrow> Inr (is_connected E c))"

definition connection_icon :: "bool \<Rightarrow> string" where
  "connection_icon on = (if on then ''mdi:bluetooth-connect'' else ''mdi:bluetooth-off'')"

subsection \<open>Diagnostics\<close>

definition TO_REDACT :: "string set" where
  "TO_REDACT = {''password'', ''username'', ''aesKeyStr'', ''unlockKey'', ''adminPs'', ''keys''}"

definition REDACTED :: string where "REDACTED = ''**REDACTED**''"

definition SUMMARY_FIELDS :: "string list" where
  "SUMMARY_FIELDS = [''lockId'', ''lockMac'', ''lockAlias'', ''lockName'', ''keyType'', ''userType'']"

fun pick_fields :: "string list \<Rightarrow> (string, json) dict \<Rightarrow> exn + (string, json) dict" where
  "pick_fields [] key = Inr []"
| "pick_fields (f # fs) key = (case dict_get key f of
     None \<Rightarrow> Inl (KeyErr f)
   | Some v \<Rightarrow> (case pick_fields fs key of Inl e \<Rightarrow> Inl e | Inr d \<Rightarrow> Inr ((f, v) # d)))"

definition summarize_key :: "(string, json) dict \<Rightarrow> exn + (string, json) dict" where
  "summarize_key key = pick_fields SUMMARY_FIELDS key"

record decoded_advert =
  da_protocol_type :: int
  da_protocol_version :: int
  da_scene :: int
  da_lock_state :: string
  da_new_records :: bool
  da_setting_mode :: bool
  da_battery :: int
  da_mac :: string

record last_service_info =
  li_source :: string
  li_rssi :: int
  li_data :: "(int \<times> byte list) list"

record diag_advert =
  dv_source :: string
  dv_rssi :: int
  dv_data :: "(string \<times> string) list"
  dv_decoded :: "decoded_advert option"

fun first_decoded :: "(int \<Rightarrow> byte list \<Rightarrow> decoded_advert option) \<Rightarrow> (int \<times> byte list) list \<Rightarrow> decoded_advert option" where
  "first_decoded decode [] = None"
| "first_decoded decode ((company, payload) # others) = (case decode company payload of
     Some ad \<Rightarrow> Some ad | None \<Rightarrow> first_decoded decode others)"

definition summarize_advertisement ::
  "(int \<Rightarrow> byte list \<Rightarrow> decoded_advert option) \<Rightarrow> last_service_info option \<Rightarrow> diag_advert option" where
  "summarize_advertisement decode info = map_option (\<lambda>i. \<lparr>dv_source = li_source i, dv_rssi = li_rssi i,
     dv_data = map (\<lambda>(company, payload). (int_str company, bytes_hex payload)) (li_data i),
     dv_decoded = first_decoded decode (li_data i)\<rparr>) info"

text \<open>
  What the dump reads of an entry: its title, version, domain, data and options, the stored
  keys, the coordinator's data, the attempts of every connection.
\<close>

record diag_entry =
  dg_title :: string
  dg_version :: int
  dg_domain :: string
  dg_data :: "(string, json) dict"
  dg_options :: "(string, json) dict"
  dg_keys :: "(string, json) dict list"
  dg_state :: "(string, lock_snapshot) dict option"
  dg_attempts :: "(string, (string, diag_value) dict) dict"

record diag_env =
  dx_redact :: "string set \<Rightarrow> json \<Rightarrow> json"
  dx_last_info :: "string \<Rightarrow> last_service_info option"
  dx_decode :: "int \<Rightarrow> byte list \<Rightarrow> decoded_advert option"

record diag_payload =
  dp_title :: string
  dp_version :: int
  dp_domain :: string
  dp_data :: json
  dp_options :: json
  dp_locks :: "(string, json) dict list"
  dp_state :: "(string, lock_snapshot) dict"
  dp_attempts :: "(string, (string, diag_value) dict) dict"
  dp_advertisements :: "(string, diag_advert option) dict"

definition redacted_title :: "diag_entry \<Rightarrow> string" where
  "redacted_title e = (if dict_get (dg_data e) ''username'' \<noteq> None then REDACTED else dg_title e)"

fun map_raising :: "('a \<Rightarrow> exn + 'b) \<Rightarrow> 'a list \<Rightarrow> exn + 'b list" where
  "map_raising f [] = Inr []"
| "map_raising f (x # xs) = (case f x of
     Inl e \<Rightarrow> Inl e
   | Inr y \<Rightarrow> (case map_raising f xs of Inl e \<Rightarrow> Inl e | Inr ys \<Rightarrow> Inr (y # ys)))"

text \<open>The address of a stored key is a string.\<close>

definition key_mac :: "(string, json) dict \<Rightarrow> exn + string" where
  "key_mac key = (case dict_get key ''lockMac'' of Some (JStr mac) \<Rightarrow> Inr mac | _ \<Rightarrow> Inl (KeyErr ''lockMac''))"

definition config_entry_diagnostics :: "diag_env \<Rightarrow> diag_entry \<Rightarrow> exn + diag_payload" where
  "config_entry_diagnostics X e = (case map_raising summarize_key (dg_keys e) of
     Inl err \<Rightarrow> Inl err
   | Inr locks \<Rightarrow> (case map_raising key_mac (dg_keys e) of
       Inl err \<Rightarrow> Inl err
     | Inr macs \<Rightarrow> Inr \<lparr>dp_title = redacted_title e, dp_version = dg_version e, dp_domain = dg_domain e,
         dp_data = dx_redact X TO_REDACT (JDict (dg_data e)),
         dp_options = dx_redact X TO_REDACT (JDict (dg_options e)), dp_locks = locks,
         dp_state = (case dg_state e of None \<Rightarrow> [] | Some d \<Rightarrow> d), dp_attempts = dg_attempts e,
         dp_advertisements = fold (\<lambda>mac. dict_set mac (summarize_advertisement (dx_decode X) (dx_last_info X mac))) macs []\<rparr>))"

end
