(* ===== verification/LogEvents.thy ===== *)
theory LogEvents
  imports LogHistory
begin

section \<open>Operation-log events (event.py)\<close>

text \<open>
  The event entity: an operation record of the lock becomes an event with a type and
  attributes. The record types are members of the SDK's \<open>LogOperate\<close>, known here by name;
  their numbers (\<open>code_of\<close>) and the name of a number (\<open>name_of\<close>) are parameters.
\<close>

definition LOG_EVENT_TYPES :: "string list" where
  "LOG_EVENT_TYPES = [''unlock'', ''lock'', ''unlock_failed'', ''password_change'', ''other'']"

definition PASSCODE_RECORD_TYPES :: "string list" where
  "PASSCODE_RECORD_TYPES =
    [''KEYBOARD_PASSWORD_UNLOCK'', ''KEYBOARD_MODIFY_PASSWORD'', ''KEYBOARD_REMOVE_SINGLE_PASSWORD'',
     ''ERROR_PASSWORD_UNLOCK'', ''KEYBOARD_REMOVE_ALL_PASSWORDS'', ''KEYBOARD_PASSWORD_KICKED'',
     ''USE_DELETE_CODE'', ''PASSCODE_EXPIRED'', ''SPACE_INSUFFICIENT'', ''PASSCODE_IN_BLACK_LIST'',
     ''PASSCODE_LOCK'', ''PASSCODE_UNLOCK_FAILED_LOCK_REVERSE'', ''DOUBLE_CHECK_PASSCODE_UNLOCK'',
     ''ADMIN_CODE_UNLOCK'', ''ADD_PASSCODE_SUCCESSFULLY'']"

definition UNLOCK_RECORD_TYPES :: "string list" where
  "UNLOCK_RECORD_TYPES =
    [''MOBILE_UNLOCK'', ''SERVER_UNLOCK'', ''KEYBOARD_PASSWORD_UNLOCK'', ''IC_UNLOCK_SUCCEED'',
     ''FR_UNLOCK_SUCCEED'', ''BONG_UNLOCK'', ''OPERATE_KEY_UNLOCK'', ''GATEWAY_UNLOCK'',
     ''WIRELESS_KEY_FOB'', ''WIRELESS_KEY_PAD'', ''REMOTE_CONTROL_KEY'', ''QR_CODE_UNLOCK_SUCCESS'',
     ''FACE_3D_UNLOCK_SUCCESS'', ''APP_AUTH_KEY_UNLOCK_SUCCESS'', ''GATEWAY_AUTH_KEY_UNLOCK_SUCCESS'',
     ''DOUBLE_CHECK_KEY_UNLOCK'', ''DOUBLE_CHECK_PASSCODE_UNLOCK'',
     ''DOUBLE_CHECK_FINGER_PRINT_UNLOCK'', ''DOUBLE_CHECK_CARD_UNLOCK'', ''DOUBLE_CHECK_FACE_UNLOCK'',
     ''DOUBLE_CHECK_KEY_FOB_UNLOCK'', ''DOUBLE_CHECK_PALM_VEIN_UNLOCK'', ''PALM_VEIN_UNLOCK_SUCCESS'',
     ''ADMIN_CODE_UNLOCK'', ''THIRD_DEVICE_UNLOCK_SUCCESS'']"

definition LOCK_RECORD_TYPES :: "string list" where
  "LOCK_RECORD_TYPES =
    [''OPERATE_BLE_LOCK'', ''OPERATE_KEY_LOCK'', ''PASSCODE_LOCK'', ''IC_LOCK'', ''FR_LOCK'',
     ''FACE_3D_LOCK'', ''PALM_VEIN_LOCK'', ''THIRD_DEVICE_LOCK_SUCCESS'']"

definition UNLOCK_FAILED_RECORD_TYPES :: "string list" where
  "UNLOCK_FAILED_RECORD_TYPES =
    [''ERROR_PASSWORD_UNLOCK'', ''FR_UNLOCK_FAILED'', ''IC_UNLOCK_FAILED'',
     ''APP_UNLOCK_FAILED_LOCK_REVERSE'', ''PASSCODE_UNLOCK_FAILED_LOCK_REVERSE'',
     ''IC_UNLOCK_FAILED_LOCK_REVERSE'', ''FR_UNLOCK_FAILED_LOCK_REVERSE'', ''PASSCODE_EXPIRED'',
     ''PASSCODE_IN_BLACK_LIST'', ''IC_UNLOCK_FAILED_BLACKLIST'', ''QR_CODE_UNLOCK_FAILED'',
     ''FACE_3D_UNLOCK_FAILED_LOCK_REVERSE'', ''FACE_3D_UNLOCK_FAILED_INVALID_TIME'',
     ''PALM_VEIN_UNLOCK_FAILED_LOCK_REVERSE'', ''PALM_VEIN_UNLOCK_FAILED'', ''CARD_UNLOCK_FAILED'',
     ''THIRD_DEVICE_UNLOCK_FAILED_LOCK_REVERSE'', ''THIRD_DEVICE_UNLOCK_FAILED_INVALID_TIME'']"

definition PASSWORD_CHANGE_RECORD_TYPES :: "string list" where
  "PASSWORD_CHANGE_RECORD_TYPES =
    [''KEYBOARD_MODIFY_PASSWORD'', ''KEYBOARD_REMOVE_SINGLE_PASSWORD'',
     ''KEYBOARD_REMOVE_ALL_PASSWORDS'', ''KEYBOARD_PASSWORD_KICKED'', ''USE_DELETE_CODE'', ''ADD_IC'',
     ''CLEAR_IC_SUCCEED'', ''DELETE_IC_SUCCEED'', ''ADD_FR'', ''DELETE_FR_SUCCEED'']"

definition METHOD_TYPES :: "(string \<times> string list) list" where
  "METHOD_TYPES = [
     (''physical_key'', [''OPERATE_KEY_UNLOCK'', ''OPERATE_KEY_LOCK'']),
     (''fingerprint'', [''FR_UNLOCK_SUCCEED'', ''FR_UNLOCK_FAILED'', ''FR_LOCK'', ''DOUBLE_CHECK_FINGER_PRINT_UNLOCK'']),
     (''ic_card'', [''IC_UNLOCK_SUCCEED'', ''IC_UNLOCK_FAILED'', ''IC_LOCK'', ''DOUBLE_CHECK_CARD_UNLOCK'']),
     (''passcode'', [''KEYBOARD_PASSWORD_UNLOCK'', ''ERROR_PASSWORD_UNLOCK'', ''PASSCODE_LOCK'',
     ''DOUBLE_CHECK_PASSCODE_UNLOCK'', ''ADMIN_CODE_UNLOCK'']),
     (''ttlock_app'', [''MOBILE_UNLOCK'', ''OPERATE_BLE_LOCK'', ''APP_AUTH_KEY_UNLOCK_SUCCESS'']),
     (''gateway'', [''GATEWAY_UNLOCK'', ''GATEWAY_AUTH_KEY_UNLOCK_SUCCESS'']),
     (''key_fob'', [''WIRELESS_KEY_FOB'']),
     (''wireless_keypad'', [''WIRELESS_KEY_PAD'']),
     (''remote_control'', [''REMOTE_CONTROL_KEY'']),
     (''qr_code'', [''QR_CODE_UNLOCK_SUCCESS'']),
     (''face'', [''FACE_3D_UNLOCK_SUCCESS'']),
     (''palm_vein'', [''PALM_VEIN_UNLOCK_SUCCESS'']),
     (''third_party_device'', [''THIRD_DEVICE_UNLOCK_SUCCESS''])]"

record operate_enum =
  code_of :: "string \<Rightarrow> int"
  name_of :: "int \<Rightarrow> string option"

definition member_of :: "operate_enum \<Rightarrow> int \<Rightarrow> string list \<Rightarrow> bool" where
  "member_of L n names \<longleftrightarrow> n \<in> set (map (code_of L) names)"

definition classify_record :: "operate_enum \<Rightarrow> int \<Rightarrow> string" where
  "classify_record L n =
     (if member_of L n UNLOCK_RECORD_TYPES then ''unlock''
      else if member_of L n LOCK_RECORD_TYPES then ''lock''
      else if member_of L n UNLOCK_FAILED_RECORD_TYPES then ''unlock_failed''
      else if member_of L n PASSWORD_CHANGE_RECORD_TYPES then ''password_change''
      else ''other'')"

definition record_type_name :: "operate_enum \<Rightarrow> int \<Rightarrow> string" where
  "record_type_name L n = (case name_of L n of Some name \<Rightarrow> py_lower name | None \<Rightarrow> int_str n)"

fun first_method :: "operate_enum \<Rightarrow> int \<Rightarrow> (string \<times> string list) list \<Rightarrow> string" where
  "first_method L n [] = ''other''"
| "first_method L n ((name, types) # more_types) =
     (if member_of L n types then name else first_method L n more_types)"

definition operation_method :: "operate_enum \<Rightarrow> int \<Rightarrow> string" where
  "operation_method L n = first_method L n METHOD_TYPES"

text \<open>\<open>_on_log_entry\<close>: the type and the attributes of the event it fires.\<close>

definition optional_attr :: "string \<Rightarrow> json option \<Rightarrow> (string, json) dict" where
  "optional_attr k v = (case v of None \<Rightarrow> [] | Some j \<Rightarrow> [(k, j)])"

definition on_log_entry :: "operate_enum \<Rightarrow> log_entry \<Rightarrow> string \<times> (string, json) dict" where
  "on_log_entry L e = (classify_record L (record_type e),
     [(''record_type'', JStr (record_type_name L (record_type e))),
      (''method'', JStr (operation_method L (record_type e))),
      (''battery'', JInt (lock_battery e))]
     @ optional_attr ''timestamp'' (map_option (JStr \<circ> isoformat) (operate_date e))
     @ optional_attr ''uid'' (map_option JInt (uid e))
     @ optional_attr ''key_id'' (map_option JInt (key_id e))
     @ optional_attr ''accessory_battery'' (map_option JInt (accessory_battery e)))"

subsection \<open>What an event may be\<close>

definition CLASSIFIED :: "(string \<times> string list) list" where
  "CLASSIFIED = [(''unlock'', UNLOCK_RECORD_TYPES), (''lock'', LOCK_RECORD_TYPES),
     (''unlock_failed'', UNLOCK_FAILED_RECORD_TYPES), (''password_change'', PASSWORD_CHANGE_RECORD_TYPES)]"

definition classified_names :: "string list" where
  "classified_names = concat (map snd CLASSIFIED)"

lemma member_of_iff:
  assumes "inj_on (code_of L) (set all_names)" and "set names \<subseteq> set all_names" and "name \<in> set all_names"
  shows "member_of L (code_of L name) names \<longleftrightarrow> name \<in> set names"
  using assms by (auto simp: member_of_def dest: inj_onD)

lemma classified_once:
  "list_all (\<lambda>(ty, names). list_all (\<lambda>name. find (\<lambda>(ty', names'). name \<in> set names') CLASSIFIED = Some (ty, names)) names) CLASSIFIED"
  by code_simp

lemma classify_find:
  assumes "inj_on (code_of L) (set classified_names)" and "name \<in> set classified_names"
  shows "classify_record L (code_of L name)
    = (case find (\<lambda>(ty, names). name \<in> set names) CLASSIFIED of None \<Rightarrow> ''other'' | Some (ty, names) \<Rightarrow> ty)"
proof -
  have "member_of L (code_of L name) names \<longleftrightarrow> name \<in> set names" if "(ty, names) \<in> set CLASSIFIED" for ty names
    by (rule member_of_iff [OF assms(1) _ assms(2)]) (use that in \<open>auto simp: classified_names_def\<close>)
  from this [of "''unlock''" UNLOCK_RECORD_TYPES] this [of "''lock''" LOCK_RECORD_TYPES]
    this [of "''unlock_failed''" UNLOCK_FAILED_RECORD_TYPES] this [of "''password_change''" PASSWORD_CHANGE_RECORD_TYPES]
  show ?thesis by (simp add: classify_record_def CLASSIFIED_def)
qed

definition attr_typed :: "string \<times> json \<Rightarrow> bool" where
  "attr_typed a \<longleftrightarrow> (case a of (k, j) \<Rightarrow>
     k \<in> {''record_type'', ''method'', ''timestamp''} \<and> (\<exists>s. j = JStr s)
     \<or> k \<in> {''battery'', ''uid'', ''key_id'', ''accessory_battery''} \<and> (\<exists>i. j = JInt i))"

lemma optional_typed:
  "list_all attr_typed (optional_attr k (map_option f v)) = (v = None \<or> attr_typed (k, f (the v)))"
  by (cases v) (simp_all add: optional_attr_def)

lemma optional_keys: "map fst (optional_attr k (map_option f v)) = (if v = None then [] else [k])"
  by (cases v) (simp_all add: optional_attr_def)

lemma first_method_known: "first_method L n ms \<in> insert ''other'' (set (map fst ms))"
proof (induction ms)
  case (Cons m ms)
  then show ?case by (cases m) auto
qed simp

lemma classify_declared: "classify_record L n \<in> set LOG_EVENT_TYPES"
  by (simp add: classify_record_def LOG_EVENT_TYPES_def)


definition sample_enum :: operate_enum where
  "sample_enum = \<lparr>code_of = (\<lambda>name. case find (\<lambda>(i, n). n = name) (enumerate 1 classified_names) of
     None \<Rightarrow> 0 | Some (i, n) \<Rightarrow> int i), name_of = (\<lambda>i. None)\<rparr>"


end
