(* ===== verification/LogPipeline.thy ===== *)
theory LogPipeline
  imports LogEvents
begin

section \<open>Successive log fetches and restarts (log\_history.py)\<close>

text \<open>
  One lock's operation log over time: batches that were fetched and classified, and restarts that
  save the journal, load it and start with a new cutoff. \<open>log_run\<close> records for every fetch the
  batch and the records of it that were dispatched. Two fetches that are close enough never
  dispatch the same record.
\<close>

subsection \<open>The journal over several feeds\<close>

context journal
begin

lemma feed_keeps_window:
  assumes "invar j" and "m + length ks \<le> cap" and "x \<in> set (last_n m (content j))"
  shows "x \<in> set (last_n (m + length ks) (content (fst (feed seen push ks j))))"
proof -
  let ?new = "snd (feed seen push ks j)"
  have len: "length ?new \<le> length ks" by (rule length_feed)
  have "last_n (m + length ks) (content (fst (feed seen push ks j))) = last_n (m + length ks) (content j @ ?new)"
    using assms(1,2) by (simp add: feed_content last_n_last_n min_def)
  also have "\<dots> = last_n (m + length ks - length ?new) (content j) @ ?new"
    using len by (simp add: last_n_append)
  finally have window: "last_n (m + length ks) (content (fst (feed seen push ks j)))
    = last_n (m + length ks - length ?new) (content j) @ ?new" .
  have "set (last_n m (content j)) \<subseteq> set (last_n (m + length ks - length ?new) (content j))"
    by (rule set_last_n_mono) (use len in simp)
  with assms(3) window show ?thesis by auto
qed

lemma feed_new_window:
  assumes "invar j" and "length ks \<le> cap" and "x \<in> set (snd (feed seen push ks j))"
  shows "x \<in> set (last_n (length ks) (content (fst (feed seen push ks j))))"
proof -
  let ?new = "snd (feed seen push ks j)"
  have len: "length ?new \<le> length ks" by (rule length_feed)
  have "last_n (length ks) (content (fst (feed seen push ks j))) = last_n (length ks) (content j @ ?new)"
    using assms(1,2) by (simp add: feed_content last_n_last_n min_def)
  also have "\<dots> = last_n (length ks - length ?new) (content j) @ ?new"
    using len by (simp add: last_n_append)
  finally show ?thesis using assms(3) by simp
qed

end

subsection \<open>Runs\<close>

datatype log_op = Fetch "log_entry list" | Restart datetime

type_synonym fetch = "log_entry list \<times> log_entry list"

fun log_run :: "string \<Rightarrow> log_op list \<Rightarrow> log_history \<Rightarrow> fetch list \<times> log_history" where
  "log_run mac [] h = ([], h)"
| "log_run mac (Fetch es # ops) h =
     (case classify mac es h of (live, h') \<Rightarrow> (case log_run mac ops h' of (tr, h'') \<Rightarrow> ((es, live) # tr, h'')))"
| "log_run mac (Restart now # ops) h = log_run mac ops (history_load (history_save h) (new_history now True))"

definition identities :: "log_entry list \<Rightarrow> string set" where
  "identities es = record_identity ` set es"

lemma log_run_append:
  "log_run mac (xs @ ys) h = (case log_run mac xs h of (tr, h') \<Rightarrow> (case log_run mac ys h' of (tr', h'') \<Rightarrow> (tr @ tr', h'')))"
  by (induction mac xs h rule: log_run.induct) (auto split: prod.splits)

definition kept :: "log_history \<Rightarrow> bool" where
  "kept h \<longleftrightarrow> history_ok h \<and> has_store h"

lemma classify_kept: "kept h \<Longrightarrow> kept (snd (classify mac es h))"
  using classify_ok [of h mac es] by (auto simp: kept_def classify_def Let_def split: prod.splits)

lemma load_lock_store: "has_store (load_lock p h) = has_store h"
  by (cases "(p, h)" rule: load_lock.cases) (simp_all add: Let_def)

lemma loads_store: "has_store (fold load_lock ps h) = has_store h"
  by (induction ps arbitrary: h) (simp_all add: load_lock_store)

lemma restart_kept:
  assumes "kept h"
  shows "kept (history_load (history_save h) (new_history now True))"
    and "journal_of (history_load (history_save h) (new_history now True)) mac = journal_of h mac"
proof -
  let ?h = "history_load (history_save h) (new_history now True)"
  have "has_store ?h"
    by (simp add: history_load_def history_save_def serialize_def new_history_def loads_store)
  with load_save [of h now] assms show "kept ?h" "journal_of ?h mac = journal_of h mac"
    by (simp_all add: kept_def journal_of_def)
qed

lemma classify_window:
  assumes "kept h" and "classify mac es h = (live, h')" and "m + length es \<le> max_identities"
  shows "x \<in> set (last_n m (journal_of h mac)) \<Longrightarrow>
      x \<notin> identities live \<and> x \<in> set (last_n (m + length es) (journal_of h' mac))"
    and "x \<in> identities live \<Longrightarrow> x \<in> set (last_n (length es) (journal_of h' mac))"
proof -
  obtain j where j: "pair_ok j" "fst j = journal_of h mac" "journal_of h' mac = fst (fst (feed_ids es j))"
    and live: "live = fst (snd (classify_loop (startup_cutoff h) es j))"
    using assms(1,2) by (auto simp: kept_def elim: classify_feed)
  have sub: "identities live \<subseteq> set (snd (feed_ids es j))"
    using subseq_set [OF classify_loop_subseq] by (simp add: live identities_def)
  {
    assume x: "x \<in> set (last_n m (journal_of h mac))"
    have "x \<notin> set (snd (feed_ids es j))"
      unfolding feed_ids_def by (rule hist.feed_window) (use j x assms(3) in simp_all)
    moreover have "x \<in> set (last_n (m + length es) (journal_of h' mac))"
      using hist.feed_keeps_window [OF j(1), of m "map record_identity es" x] x assms(3) j
      by (simp add: feed_ids_def)
    ultimately show "x \<notin> identities live \<and> x \<in> set (last_n (m + length es) (journal_of h' mac))"
      using sub by blast
  }
  show "x \<in> set (last_n (length es) (journal_of h' mac))" if "x \<in> identities live"
    using hist.feed_new_window [OF j(1), of "map record_identity es" x] assms(3) that sub j
    by (auto simp: feed_ids_def)
qed

text \<open>What is among the youngest \<open>m\<close> identities is not dispatched by the fetches that follow closely.\<close>

lemma window_silent:
  assumes "kept h" and "log_run mac ops h = (tr, h')" and "x \<in> set (last_n m (journal_of h mac))"
    and "j < length tr" and "m + (\<Sum>p\<leftarrow>take (Suc j) tr. length (fst p)) \<le> max_identities"
  shows "x \<notin> identities (snd (tr ! j))"
  using assms
proof (induction mac ops h arbitrary: tr m j rule: log_run.induct)
  case (2 mac es ops h)
  obtain live h1 where c: "classify mac es h = (live, h1)" by force
  obtain tr1 h2 where r: "log_run mac ops h1 = (tr1, h2)" by force
  from "2.prems"(2) c r have tr: "tr = (es, live) # tr1" "h' = h2" by auto
  have fits: "m + length es \<le> max_identities" using "2.prems"(5) tr(1) by simp
  note w = classify_window(1) [OF "2.prems"(1) c fits "2.prems"(3)]
  show ?case
  proof (cases j)
    case 0
    with w tr(1) show ?thesis by simp
  next
    case (Suc i)
    have "kept h1" using classify_kept [OF "2.prems"(1), of mac es] c by simp
    from "2.IH" [OF c [symmetric] this r [folded tr(2)], of "m + length es" i] w "2.prems"(4,5) tr(1) Suc
    show ?thesis by (simp add: add.assoc)
  qed
next
  case (3 mac now ops h)
  from "3.IH" [OF restart_kept(1) [OF "3.prems"(1)], of tr m j] "3.prems" restart_kept(2) [OF "3.prems"(1)]
  show ?case by simp
qed simp

lemma fetches_apart:
  assumes "kept h" and "log_run mac ops h = (tr, h')" and "i < j" and "j < length tr"
    and "(\<Sum>p\<leftarrow>take (Suc (j - i)) (drop i tr). length (fst p)) \<le> max_identities"
  shows "identities (snd (tr ! i)) \<inter> identities (snd (tr ! j)) = {}"
  using assms
proof (induction mac ops h arbitrary: tr i j rule: log_run.induct)
  case (2 mac es ops h)
  obtain live h1 where c: "classify mac es h = (live, h1)" by force
  obtain tr1 h2 where r: "log_run mac ops h1 = (tr1, h2)" by force
  from "2.prems"(2) c r have tr: "tr = (es, live) # tr1" "h' = h2" by auto
  have kept: "kept h1" using classify_kept [OF "2.prems"(1), of mac es] c by simp
  obtain l where l: "j = Suc l" "l < length tr1" using "2.prems"(3,4) tr(1) by (cases j) auto
  show ?case
  proof (cases i)
    case 0
    with "2.prems"(5) tr(1) l have sum: "length es + (\<Sum>p\<leftarrow>take (Suc l) tr1. length (fst p)) \<le> max_identities" by simp
    then have "0 + length es \<le> max_identities" by simp
    from classify_window(2) [OF "2.prems"(1) c this] window_silent [OF kept r _ l(2) sum]
    show ?thesis using 0 tr(1) l(1) by auto
  next
    case (Suc k)
    from "2.IH" [OF c [symmetric] kept r [folded tr(2)], of k l] "2.prems"(3,5) tr(1) l Suc
    show ?thesis by simp
  qed
next
  case (3 mac now ops h)
  from "3.IH" [OF restart_kept(1) [OF "3.prems"(1)], of tr i j] "3.prems" show ?case by simp
qed simp

lemma classify_distinct:
  assumes "kept h" and "classify mac es h = (live, h')" and "length es \<le> max_identities"
  shows "distinct (map record_identity live)"
proof -
  obtain j where j: "pair_ok j" and live: "live = fst (snd (classify_loop (startup_cutoff h) es j))"
    using assms(1,2) by (auto simp: kept_def elim: classify_feed)
  have "distinct (snd (feed_ids es j))"
    unfolding feed_ids_def using j assms(3) by (intro hist.feed_new_distinct) simp_all
  then show ?thesis unfolding live using classify_loop_subseq by (rule distinct_subseq)
qed

lemma fetch_dispatches:
  assumes "kept h" and "log_run mac ops h = (tr, h')" and "(es, live) \<in> set tr"
  shows "Fetch es \<in> set ops \<and> set live \<subseteq> set es
    \<and> (length es \<le> max_identities \<longrightarrow> distinct (map record_identity live))"
  using assms
proof (induction mac ops h arbitrary: tr rule: log_run.induct)
  case (2 mac b ops h)
  obtain l h1 where c: "classify mac b h = (l, h1)" by force
  obtain tr1 h2 where r: "log_run mac ops h1 = (tr1, h2)" by force
  from "2.prems"(2) c r have tr: "tr = (b, l) # tr1" "h' = h2" by auto
  from c obtain j j' ch where "classify_loop (startup_cutoff h) b j = (j', l, ch)"
    by (auto simp: classify_def Let_def split: prod.splits)
  with classify_loop_live [of "startup_cutoff h" b j] have "set l \<subseteq> set b" by auto
  moreover have "kept h1" using classify_kept [OF "2.prems"(1), of mac b] c by simp
  ultimately show ?case
    using "2.IH" [OF c [symmetric] \<open>kept h1\<close> r [folded tr(2)]] "2.prems"(3) tr(1) classify_distinct [OF "2.prems"(1) c]
    by auto
next
  case (3 mac now ops h)
  from "3.IH" [OF restart_kept(1) [OF "3.prems"(1)]] "3.prems" show ?case by simp
qed simp

end
