(* ===== verification/LogRuns.thy ===== *)
theory LogRuns
  imports House LogPipeline
begin

section \<open>The operation log over whole sessions (connection.py, log\_history.py, \_\_init\_\_.py)\<close>

text \<open>
  A connection dispatches operation records only when it fetched the log itself; nothing else it
  does touches the journal or sends a log signal. A session is the life of a connection between
  the setup and the unloading of its entry; the journal is saved at its end and loaded by the
  next one. Every sequence of sessions is a run of \<open>LogPipeline\<close>.
\<close>

subsection \<open>What only a log fetch changes\<close>

fun logged :: "signal list \<Rightarrow> log_entry list" where
  "logged [] = []"
| "logged (SLog e # xs) = e # logged xs"
| "logged (_ # xs) = logged xs"

lemma logged_append [simp]: "logged (xs @ ys) = logged xs @ logged ys"
  by (induction xs rule: logged.induct) simp_all

lemma logged_map [simp]: "logged (map SLog es) = es"
  by (induction es) simp_all

definition log_is :: "string \<Rightarrow> log_history \<Rightarrow> log_entry list \<Rightarrow> 'w conn \<Rightarrow> bool" where
  "log_is mac h ls s \<longleftrightarrow> lock_mac s = mac \<and> conn_history s = h \<and> logged (dispatched s) = ls"

text \<open>An operation that leaves the log alone.\<close>

definition log_silent :: "('w conn, 'a) eff \<Rightarrow> bool" where
  "log_silent m \<longleftrightarrow> (\<forall>mac h ls. keeps (log_is mac h ls) m)"

named_theorems silent_intros \<open>operations that leave the log alone\<close>

lemma log_is_broadcast [simp]: "log_is mac h ls (broadcast_state c s) = log_is mac h ls s"
  by (simp add: log_is_def broadcast_state_def)

lemma log_is_interfere [simp]: "log_is mac h ls (interfere i s) = log_is mac h ls s"
  by (cases i) (auto simp: log_is_def on_disconnected_def broadcast_state_def on_event_def stop_begin_def)

lemma log_is_interferes [simp]: "log_is mac h ls (fold interfere is s) = log_is mac h ls s"
  by (induction "is" arbitrary: s) simp_all

lemma silent_return [silent_intros]: "log_silent (m_return a)"
  and silent_raise [silent_intros]: "log_silent (m_raise e)"
  and silent_gets [silent_intros]: "log_silent (m_gets f)"
  by (simp_all add: log_silent_def keeps_intros)

lemma silent_modify: "(\<And>mac h ls s. log_is mac h ls s \<Longrightarrow> log_is mac h ls (f s)) \<Longrightarrow> log_silent (m_modify f)"
  by (simp add: log_silent_def keeps_modify)

lemma silent_bind [silent_intros]: "log_silent m \<Longrightarrow> (\<And>a. log_silent (f a)) \<Longrightarrow> log_silent (m_bind m f)"
  and silent_then [silent_intros]: "log_silent m \<Longrightarrow> log_silent k \<Longrightarrow> log_silent (m_then m k)"
  and silent_catch [silent_intros]: "log_silent m \<Longrightarrow> (\<And>e. log_silent (g e)) \<Longrightarrow> log_silent (m_catch m g)"
  and silent_finally [silent_intros]: "log_silent m \<Longrightarrow> log_silent n \<Longrightarrow> log_silent (m_finally m n)"
  by (simp_all add: log_silent_def keeps_intros)

lemma silent_if [silent_intros]:
  "(b \<Longrightarrow> log_silent m) \<Longrightarrow> (\<not> b \<Longrightarrow> log_silent k) \<Longrightarrow> log_silent (if b then m else k)"
  by simp

lemma silent_option [silent_intros]:
  "log_silent m \<Longrightarrow> (\<And>a. log_silent (f a)) \<Longrightarrow> log_silent (case x of None \<Rightarrow> m | Some a \<Rightarrow> f a)"
  by (cases x) simp_all

lemma silent_sum [silent_intros]:
  "(\<And>a. log_silent (f a)) \<Longrightarrow> (\<And>b. log_silent (g b)) \<Longrightarrow> log_silent (case x of Inl a \<Rightarrow> f a | Inr b \<Rightarrow> g b)"
  by (cases x) simp_all

lemma silent_prod [silent_intros]: "(\<And>a b. log_silent (f a b)) \<Longrightarrow> log_silent (case x of (a, b) \<Rightarrow> f a b)"
  by (cases x) simp

lemma silent_let [silent_intros]: "(\<And>a. log_silent (f a)) \<Longrightarrow> log_silent (let a = x in f a)"
  by simp

lemma silent_await [silent_intros]: "log_silent (await f)"
  and silent_env_call [silent_intros]: "log_silent (env_call g)"
  and silent_env_peek [silent_intros]: "log_silent (env_peek k)"
  and silent_call [silent_intros]: "log_silent (call c)"
  by (auto simp: log_silent_def keeps_def await_def env_call_def env_peek_def call_def eff_defs split: prod.splits)
    (simp_all add: log_is_def)

text \<open>The state changes of the operations, which leave the log alone.\<close>

lemma log_is_frame [simp]:
  "log_is mac h ls (s\<lparr>world := w\<rparr>) = log_is mac h ls s"
  "log_is mac h ls (s\<lparr>cleanup_task := ct\<rparr>) = log_is mac h ls s"
  "log_is mac h ls (s\<lparr>acquisition_failure := f\<rparr>) = log_is mac h ls s"
  "log_is mac h ls (s\<lparr>reachability := r\<rparr>) = log_is mac h ls s"
  "log_is mac h ls (s\<lparr>inventory_diag := d\<rparr>) = log_is mac h ls s"
  "log_is mac h ls (s\<lparr>inventory_running := b\<rparr>) = log_is mac h ls s"
  "log_is mac h ls (s\<lparr>advertisement_source := a\<rparr>) = log_is mac h ls s"
  "log_is mac h ls (s\<lparr>control_requests := i\<rparr>) = log_is mac h ls s"
  "log_is mac h ls (s\<lparr>maintaining := b\<rparr>) = log_is mac h ls s"
  "log_is mac h ls (s\<lparr>sdk_log := l\<rparr>) = log_is mac h ls s"
  "log_is mac h ls (stop_begin s) = log_is mac h ls s"
  "log_is mac h ls (retire_client g s) = log_is mac h ls s"
  "log_is mac h ls (install_client g cd s) = log_is mac h ls s"
  "log_is mac h ls (cleanup_finished g ok s) = log_is mac h ls s"
  "log_is mac h ls (diag_update kvs s) = log_is mac h ls s"
  "log_is mac h ls (diag_reason re st s) = log_is mac h ls s"
  "log_is mac h ls (async_start b s) = log_is mac h ls s"
  by (simp_all add: log_is_def stop_begin_def retire_client_def install_client_def cleanup_finished_def
      diag_update_def diag_reason_def async_start_def broadcast_state_def Let_def)

subsection \<open>Operations that leave the log alone\<close>

lemma silent_cleanup [silent_intros]: "log_silent (cleanup_candidate E g)"
  unfolding cleanup_candidate_def disconnect_once_def by (intro silent_intros silent_modify; simp)

lemma silent_retry [silent_intros]: "log_silent (retry_pending_cleanup E)"
  unfolding retry_pending_cleanup_def by (intro silent_intros)

lemma silent_disconnect [silent_intros]: "log_silent (disconnect_locked E)"
  unfolding disconnect_locked_def by (intro silent_intros silent_modify; simp)

lemma silent_remaining [silent_intros]: "log_silent (remaining_acquisition_time E d)"
  unfolding remaining_acquisition_time_def by (intro silent_intros)

lemma silent_stale [silent_intros]: "log_silent (candidate_is_stale E cd)"
  unfolding candidate_is_stale_def by (intro silent_intros)

lemma silent_wait [silent_intros]: "log_silent (wait_for_connectable_device E d)"
  unfolding wait_for_connectable_device_def scan_outcome_def by (intro silent_intros silent_modify; simp)

lemma silent_resolve [silent_intros]: "log_silent (resolve_initial_candidate E a d)"
  unfolding resolve_initial_candidate_def Let_def by (intro silent_intros)

lemma silent_phase [silent_intros]: "log_silent (connect_phase E g t)"
  unfolding connect_phase_def connect_before_deadline_def discard_failed_setup_def by (intro silent_intros)

lemma silent_adopt [silent_intros]: "log_silent (adopt_connected_candidate E g cd)"
  unfolding adopt_connected_candidate_def by (intro silent_intros silent_modify; simp)

lemma silent_create [silent_intros]: "log_silent (create_client n cd)"
  unfolding create_client_def by (intro silent_intros silent_modify) (simp add: log_is_def)

lemma silent_attempt [silent_intros]: "log_silent (attempt E a b d cd)"
proof -
  have "log_silent (case ph of
              PConnected \<Rightarrow> m_bind (adopt_connected_candidate E g cd) (\<lambda>r. m_return (ReturnClient r))
            | PCleaned ok \<Rightarrow> m_return (if ok then NextRoute else BreakLoop)
            | PBroken \<Rightarrow> m_return BreakLoop)" for ph g
    by (cases ph) (auto intro!: silent_intros)
  then show ?thesis unfolding attempt_def by (intro silent_intros)
qed

lemma silent_loop [silent_intros]: "log_silent (acquire_loop E a d att cand)"
proof (induction E a d att cand rule: acquire_loop.induct)
  case (1 E a d att cand)
  have next_route: "log_silent (case st of ReturnClient r \<Rightarrow> m_return (Some r) | BreakLoop \<Rightarrow> m_return None
         | NextRoute \<Rightarrow> m_bind (m_gets closing_event) (\<lambda>stopped_now.
             if stopped_now \<or> \<not> a \<or> att then m_return None
             else m_bind (wait_for_connectable_device E d) (\<lambda>next. acquire_loop E a d True next)))"
    if "cand = Some cd" for cd st
    using 1 [OF that] by (cases st) (auto intro!: silent_intros)
  show ?case
    unfolding acquire_loop.simps [of E a d att cand]
    by (cases cand) (auto intro!: silent_intros next_route)
qed

lemma silent_ensure [silent_intros]: "log_silent (ensure_connected E a i)"
  unfolding ensure_connected_def fail_acquisition_def open_connection_def record_reachability_def
  by (intro silent_intros silent_modify; simp)

subsection \<open>Reads, commands and the life cycle\<close>

lemma silent_teardown_raise [silent_intros]: "log_silent (teardown_raise E e)"
  unfolding teardown_raise_def by (intro silent_intros)

lemma silent_query [silent_intros]: "log_silent (query_state E a)"
  unfolding query_state_def by (intro silent_intros)

lemma silent_management [silent_intros]: "log_silent (run_management_command E nm op a)"
  unfolding run_management_command_def by (intro silent_intros)

lemma silent_cancel_inventory [silent_intros]: "log_silent cancel_inventory"
  unfolding cancel_inventory_def by (intro silent_intros)

lemma silent_stop [silent_intros]: "log_silent (async_stop E)"
  unfolding async_stop_def stop_teardown_def by (intro silent_intros silent_modify; simp)

lemma silent_rounds [silent_intros]: "log_silent (maintain_rounds E n b)"
proof (induction n arbitrary: b)
  case 0
  show ?case by (simp add: silent_intros)
next
  case (Suc n)
  have "log_silent (maintain_round E b)" unfolding maintain_round_def sleep_for_def by (intro silent_intros)
  then show ?case unfolding maintain_rounds.simps by (intro silent_intros Suc.IH)
qed

lemma silent_start_inventory [silent_intros]: "log_silent (start_inventory E K m)"
proof -
  have handler: "log_silent (inventory_handler e)" for e :: exn
    by (cases e) (auto intro!: silent_intros silent_modify)
  show ?thesis
    unfolding start_inventory_def read_access_inventory_def inventory_timed_def inventory_block_def
      inventory_closing_def Let_def
    by (intro silent_intros silent_modify handler; simp)
qed

lemma drain_log_is: "log_is mac h ls s \<Longrightarrow> log_is mac h ls (snd (drain c ws t s))"
  by (induction c ws t s rule: drain.induct) simp_all

lemma wait_log_is: "control_wait c f ws t s = (r, t', s') \<Longrightarrow> log_is mac h ls s \<Longrightarrow> log_is mac h ls s'"
proof (induction c f ws t s rule: control_wait.induct)
  case (2 c f w ws t s)
  then show ?case
    using drain_log_is [of mac h ls s c ws t] by (cases w) (auto split: option.splits if_splits prod.splits)
qed simp

lemma silent_control_task [silent_intros]: "log_silent (await_control_task E a g)"
  by (auto simp: log_silent_def keeps_def await_control_task_def call_def eff_defs split: prod.splits dest!: wait_log_is)

lemma silent_matches [silent_intros]: "log_silent (query_matches E a g)"
  unfolding query_matches_def by (intro silent_intros)

lemma silent_command [silent_intros]: "log_silent (run_command E a)"
  unfolding run_command_def run_control_command_def control_failed_def await_reconciliation_def
    capture_reconciliation_def reconcile_control_def
  by (intro silent_intros silent_modify; simp)

text \<open>The log fetch: it leaves the log alone, or classifies a batch that the SDK returned.\<close>

definition sdk_batch :: "'w env \<Rightarrow> log_entry list \<Rightarrow> bool" where
  "sdk_batch E es \<longleftrightarrow> (\<exists>g w fs w'. e_operation_log E g MAX_LOG_ENTRIES_PER_FETCH w = ((Inr es, fs), w'))"

text \<open>The batch the SDK returned to a fetch that begins in state \<open>s\<close>; none if the fetch got none.\<close>

definition fetched_batch :: "'w env \<Rightarrow> 'w conn \<Rightarrow> log_entry list option" where
  "fetched_batch E s = (case ensure_connected E False OPERATION_LOG s of
     (Inr (Some g), t) \<Rightarrow> (case fst (fst (e_operation_log E g 25 (world t))) of Inr es \<Rightarrow> Some es | Inl e \<Rightarrow> None)
   | _ \<Rightarrow> None)"

lemma fetch_result:
  assumes "log_is mac h ls s" and "get_operation_log E s = (r, s')"
  shows "fetched_batch E s = None \<and> log_is mac h ls s'
    \<or> (\<exists>es live h'. fetched_batch E s = Some es \<and> sdk_batch E es \<and> classify mac es h = (live, h')
      \<and> log_is mac h' (ls @ live) s')"
proof -
  obtain x t where acq: "ensure_connected E False OPERATION_LOG s = (x, t)" by force
  with silent_ensure [of E False OPERATION_LOG] assms(1) have t: "log_is mac h ls t"
    by (auto simp: log_silent_def keeps_def dest!: spec [of _ mac] spec [of _ h] spec [of _ ls] spec [of _ s])
  show ?thesis
  proof (cases x)
    case (Inr c)
    show ?thesis
    proof (cases c)
      case (Some g)
      obtain q fs w where sdk: "e_operation_log E g MAX_LOG_ENTRIES_PER_FETCH (world t) = ((q, fs), w)" by (metis surj_pair)
      let ?u = "fold interfere fs (t\<lparr>sdk_log := sdk_log t @ [CLogRead g], world := w\<rparr>)"
      have u: "log_is mac h ls ?u" using t by simp
      show ?thesis
      proof (cases q)
        case (Inl e)
        with assms(2) acq \<open>x = Inr c\<close> Some sdk u show ?thesis
          by (auto simp: get_operation_log_def fetched_batch_def MAX_LOG_ENTRIES_PER_FETCH_def call_def await_def
              eff_defs split: if_splits)
      next
        case (Inr es)
        obtain live h' where cl: "classify mac es h = (live, h')" by force
        with u have "dispatch_new_entries es ?u = (live, ?u\<lparr>conn_history := h', dispatched := dispatched ?u @ map SLog live\<rparr>)"
          by (simp add: dispatch_new_entries_def log_is_def)
        with assms(2) acq \<open>x = Inr c\<close> Some sdk Inr
        have "s' = ?u\<lparr>conn_history := h', dispatched := dispatched ?u @ map SLog live\<rparr>"
          by (simp_all add: get_operation_log_def call_def await_def eff_defs)
        moreover from this u have "log_is mac h' (ls @ live) s'" by (simp add: log_is_def)
        moreover have "fetched_batch E s = Some es" "sdk_batch E es"
          using acq \<open>x = Inr c\<close> Some sdk Inr
          by (auto simp: fetched_batch_def sdk_batch_def MAX_LOG_ENTRIES_PER_FETCH_def)
        ultimately show ?thesis using cl by blast
      qed
    qed (use assms(2) acq Inr t in \<open>simp add: get_operation_log_def fetched_batch_def eff_defs\<close>)
  qed (use assms(2) acq t in \<open>simp add: get_operation_log_def fetched_batch_def eff_defs\<close>)
qed

subsection \<open>Sessions\<close>

text \<open>
  One session: its start, for each connection its address, password, cooldown and world, and what
  the integration did until the journal was saved (\<open>_stop_connections\<close> runs after the save; a fetch
  in between is the one of \<open>CoordProps\<close> that escapes shutdown).
\<close>

record 'w session =
  ses_now :: datetime
  ses_conns :: "nat \<Rightarrow> string \<times> string \<times> rat \<times> 'w"
  ses_ops :: "house_op list"

definition session_house :: "log_history \<Rightarrow> 'w session \<Rightarrow> 'w house" where
  "session_house h ses = (\<lambda>i. case ses_conns ses i of (mac, ps, cool, w) \<Rightarrow> new_conn mac ps cool h w)"

definition run_session :: "(nat \<Rightarrow> 'w env) \<Rightarrow> 'w session \<Rightarrow> log_history \<Rightarrow> 'w house" where
  "run_session E ses h = fold (house_step E) (ses_ops ses)
     (session_house (history_load (history_save h) (new_history (ses_now ses) True)) ses)"

text \<open>The records of connection \<open>i\<close> that are dispatched over successive sessions.\<close>

fun life :: "(nat \<Rightarrow> 'w env) \<Rightarrow> nat \<Rightarrow> 'w session list \<Rightarrow> log_history \<Rightarrow> log_entry list" where
  "life E i [] h = []"
| "life E i (ses # sess) h =
     logged (dispatched (run_session E ses h i)) @ life E i sess (conn_history (run_session E ses h i))"

text \<open>
  The fetches of connection \<open>i\<close>, one for each log fetch of the history to which the SDK returned a
  batch: that batch, and the records for which this very step sent a log signal.
\<close>

definition newly_logged :: "'w conn \<Rightarrow> 'w conn \<Rightarrow> log_entry list" where
  "newly_logged s s' = drop (length (logged (dispatched s))) (logged (dispatched s'))"

fun step_fetches :: "(nat \<Rightarrow> 'w env) \<Rightarrow> nat \<Rightarrow> house_op \<Rightarrow> 'w house \<Rightarrow> fetch list" where
  "step_fetches E i (HLogFetch c) H = (if c \<noteq> i then [] else case fetched_batch (E i) (H i) of
     None \<Rightarrow> [] | Some es \<Rightarrow> [(es, newly_logged (H i) (house_step E (HLogFetch c) H i))])"
| "step_fetches E i q H = []"

fun session_fetches :: "(nat \<Rightarrow> 'w env) \<Rightarrow> nat \<Rightarrow> house_op list \<Rightarrow> 'w house \<Rightarrow> fetch list" where
  "session_fetches E i [] H = []"
| "session_fetches E i (q # qs) H = step_fetches E i q H @ session_fetches E i qs (house_step E q H)"

fun life_fetches :: "(nat \<Rightarrow> 'w env) \<Rightarrow> nat \<Rightarrow> 'w session list \<Rightarrow> log_history \<Rightarrow> fetch list" where
  "life_fetches E i [] h = []"
| "life_fetches E i (ses # sess) h =
     session_fetches E i (ses_ops ses) (session_house (history_load (history_save h) (new_history (ses_now ses) True)) ses)
     @ life_fetches E i sess (conn_history (run_session E ses h i))"

text \<open>Every operation of the integration either leaves the log of a connection alone or is a fetch.\<close>

lemma house_step_log:
  assumes "log_is mac h ls (H i)"
  shows "step_fetches E i q H = [] \<and> log_is mac h ls (house_step E q H i)
    \<or> (\<exists>es live h'. step_fetches E i q H = [(es, live)] \<and> sdk_batch (E i) es \<and> classify mac es h = (live, h')
      \<and> log_is mac h' (ls @ live) (house_step E q H i))"
proof -
  have silent: "log_is mac h ls (snd (on_connection c m H) i)" if "log_silent m" for c :: nat and m :: "('a conn, 'b) eff"
    using that assms by (cases "c = i") (auto simp: log_silent_def keeps_def on_connection_def split: prod.splits dest: sndI)
  show ?thesis
  proof (cases q)
    case (HLogFetch c)
    show ?thesis
    proof (cases "c = i")
      case True
      obtain r s' where run: "get_operation_log (E i) (H i) = (r, s')" by force
      then have s': "house_step E q H i = s'" using True HLogFetch by (simp add: on_connection_def)
      have new: "newly_logged (H i) s' = live" if "log_is mac h' (ls @ live) s'" for h' live
        using that assms by (simp add: newly_logged_def log_is_def)
      have step: "step_fetches E i q H = (case fetched_batch (E i) (H i) of
          None \<Rightarrow> [] | Some es \<Rightarrow> [(es, newly_logged (H i) s')])"
        using True HLogFetch s' by (simp split: option.split)
      show ?thesis unfolding step s' using fetch_result [OF assms run] new by (elim disjE exE conjE) simp_all
    qed (use assms HLogFetch in \<open>simp add: on_connection_def split: prod.split\<close>)
  next
    case (HInventory c m)
    then show ?thesis by (simp add: silent silent_intros get_access_inventory_def)
  next
    case (HAdminInventory c m)
    then show ?thesis by (simp add: silent silent_intros get_administrative_inventory_def)
  next
    case (HReconnect c n)
    then show ?thesis by (simp add: silent silent_intros async_maintain_def)
  next
    case (HAcquire c)
    then show ?thesis by (simp add: silent silent_intros)
  qed (use assms in \<open>auto simp add: silent silent_intros\<close>)
qed

lemma house_steps_log:
  assumes "log_is mac h ls (H i)"
  shows "\<exists>ops h'. list_all (\<lambda>q. \<exists>es. q = Fetch es \<and> sdk_batch (E i) es) ops
    \<and> log_run mac ops h = (session_fetches E i qs H, h')
    \<and> log_is mac h' (ls @ concat (map snd (session_fetches E i qs H))) (fold (house_step E) qs H i)"
  using assms
proof (induction qs arbitrary: H h ls)
  case Nil
  then show ?case by (intro exI [of _ "[]"]) simp
next
  case (Cons q qs)
  from house_step_log [of mac h ls H i E q, OF Cons.prems] show ?case
  proof (elim disjE exE conjE)
    assume "step_fetches E i q H = []" "log_is mac h ls (house_step E q H i)"
    with Cons.IH [where H = "house_step E q H", OF this(2)] show ?thesis by simp
  next
    fix es live h1
    assume tr: "step_fetches E i q H = [(es, live)]" and es: "sdk_batch (E i) es" "classify mac es h = (live, h1)"
      and s: "log_is mac h1 (ls @ live) (house_step E q H i)"
    from Cons.IH [where H = "house_step E q H", OF s] obtain ops h' where
      "list_all (\<lambda>q. \<exists>es. q = Fetch es \<and> sdk_batch (E i) es) ops"
      "log_run mac ops h1 = (session_fetches E i qs (house_step E q H), h')"
      "log_is mac h' ((ls @ live) @ concat (map snd (session_fetches E i qs (house_step E q H))))
         (fold (house_step E) qs (house_step E q H) i)" by blast
    with tr es show ?thesis by (intro exI [of _ "Fetch es # ops"] exI [of _ h']) simp
  qed
qed

definition life_op :: "'w env \<Rightarrow> log_op \<Rightarrow> bool" where
  "life_op E q \<longleftrightarrow> (case q of Fetch es \<Rightarrow> sdk_batch E es | Restart now \<Rightarrow> True)"

lemma life_run:
  assumes "\<forall>ses\<in>set sess. fst (ses_conns ses i) = mac"
  shows "\<exists>ops h'. list_all (life_op (E i)) ops \<and> log_run mac ops h = (life_fetches E i sess h, h')
    \<and> life E i sess h = concat (map snd (life_fetches E i sess h))"
  using assms
proof (induction sess arbitrary: h)
  case Nil
  then show ?case by (intro exI [of _ "[]"]) simp
next
  case (Cons ses sess)
  let ?h0 = "history_load (history_save h) (new_history (ses_now ses) True)"
  let ?tr = "session_fetches E i (ses_ops ses) (session_house ?h0 ses)"
  have "fst (ses_conns ses i) = mac" using Cons.prems by simp
  then have "log_is mac ?h0 [] (session_house ?h0 ses i)"
    by (auto simp: session_house_def log_is_def new_conn_def split: prod.split)
  from house_steps_log [where H = "session_house ?h0 ses" and i = i, OF this, of E "ses_ops ses"] obtain ops h1 where
    ops: "list_all (\<lambda>q. \<exists>es. q = Fetch es \<and> sdk_batch (E i) es) ops" "log_run mac ops ?h0 = (?tr, h1)"
    and s: "log_is mac h1 (concat (map snd ?tr)) (run_session E ses h i)"
    unfolding run_session_def by auto
  from Cons.IH [of h1] Cons.prems obtain ops' h' where
    ops': "list_all (life_op (E i)) ops'" "log_run mac ops' h1 = (life_fetches E i sess h1, h')"
      "life E i sess h1 = concat (map snd (life_fetches E i sess h1))" by auto
  have "log_run mac (Restart (ses_now ses) # ops @ ops') h = (life_fetches E i (ses # sess) h, h')"
    using ops(2) ops'(2) s by (simp add: log_run_append log_is_def)
  moreover have "life E i (ses # sess) h = concat (map snd (life_fetches E i (ses # sess) h))"
    using ops'(3) s by (simp add: log_is_def)
  moreover have "list_all (life_op (E i)) (Restart (ses_now ses) # ops @ ops')"
    using ops ops'(1) by (auto simp: life_op_def list_all_iff)
  ultimately show ?case by blast
qed

lemma batches_fit:
  assumes "\<forall>p\<in>set ps. length (fst p) \<le> 25" and "length ps \<le> 20"
  shows "(\<Sum>p\<leftarrow>ps. length (fst p)) \<le> max_identities"
proof -
  have "(\<Sum>p\<leftarrow>ps. length (fst p)) \<le> (\<Sum>p\<leftarrow>ps. 25)"
    using assms(1) by (intro sum_list_mono) simp
  also have "\<dots> \<le> 500" using assms(2) by (simp add: sum_list_triv)
  finally show ?thesis by (simp add: max_identities_def)
qed

text \<open>
  Over any number of sessions the records dispatched for a lock come from its log fetches alone;
  each fetch dispatches records of its own batch without repetition; and two of any twenty
  consecutive fetches never dispatch the same record. A lock has one journal and only its own
  connection classifies its records, so the journals of the other locks in the shared history
  play no part. \<open>Dispatch\<close> follows the records to the events they fire.
\<close>

lemma dispatched_once:
  assumes "kept h" and "\<forall>ses\<in>set sess. fst (ses_conns ses i) = mac"
    and "\<And>es. sdk_batch (E i) es \<Longrightarrow> length es \<le> 25"
  shows "life E i sess h = concat (map snd (life_fetches E i sess h))"
    and "(es, live) \<in> set (life_fetches E i sess h) \<Longrightarrow>
      sdk_batch (E i) es \<and> set live \<subseteq> set es \<and> distinct (map record_identity live)"
    and "a < b \<Longrightarrow> b < a + 20 \<Longrightarrow> b < length (life_fetches E i sess h) \<Longrightarrow>
      identities (snd (life_fetches E i sess h ! a)) \<inter> identities (snd (life_fetches E i sess h ! b)) = {}"
proof -
  let ?tr = "life_fetches E i sess h"
  obtain ops h' where ops: "list_all (life_op (E i)) ops" and run: "log_run mac ops h = (?tr, h')"
    and life: "life E i sess h = concat (map snd ?tr)"
    using life_run [OF assms(2)] by blast
  have batch: "sdk_batch (E i) es \<and> length es \<le> 25 \<and> set live \<subseteq> set es \<and> distinct (map record_identity live)"
    if "(es, live) \<in> set ?tr" for es live
    using fetch_dispatches [OF assms(1) run that] ops assms(3) [of es]
    by (auto simp: list_all_iff life_op_def max_identities_def)
  show "life E i sess h = concat (map snd ?tr)" by (rule life)
  show "sdk_batch (E i) es \<and> set live \<subseteq> set es \<and> distinct (map record_identity live)" if "(es, live) \<in> set ?tr"
    using batch [OF that] by simp
  show "identities (snd (?tr ! a)) \<inter> identities (snd (?tr ! b)) = {}"
    if "a < b" "b < a + 20" "b < length ?tr"
  proof (rule fetches_apart [OF assms(1) run that(1,3)], rule batches_fit)
    show "\<forall>p\<in>set (take (Suc (b - a)) (drop a ?tr)). length (fst p) \<le> 25"
      using batch by (auto dest!: in_set_takeD in_set_dropD)
  qed (use that in simp)
qed

definition sample_log_env :: "nat env" where
  "sample_log_env = sample_env\<lparr>e_operation_log := (\<lambda>_ _ w. ((Inr [sample_entry], []), w))\<rparr>"

definition sample_session :: "nat session" where
  "sample_session = \<lparr>ses_now = sample_cutoff, ses_conns = (\<lambda>_. (''AA'', ''123'', 5, 0)), ses_ops = [HLogFetch 0]\<rparr>"

lemma sample_batch: "fetched_batch sample_log_env (new_conn ''AA'' ''123'' 5 h 0) = Some [sample_entry]"
  by code_simp

text \<open>One session with one fetch, to which the SDK returns the sample record.\<close>

lemma sample_fetch:
  "\<exists>h'. life_fetches (\<lambda>_. sample_log_env) 0 (sample_session # sess) h =
     ([sample_entry], fst (classify ''AA'' [sample_entry] (history_load (history_save h) (new_history sample_cutoff True))))
       # life_fetches (\<lambda>_. sample_log_env) 0 sess h'"
proof -
  let ?h = "history_load (history_save h) (new_history sample_cutoff True)"
  let ?H = "session_house ?h sample_session"
  have c: "?H 0 = new_conn ''AA'' ''123'' 5 ?h 0" by (simp add: session_house_def sample_session_def)
  then have "log_is ''AA'' ?h [] (?H 0)" by (simp add: log_is_def new_conn_def)
  from house_step_log [where H = ?H and i = 0, OF this, of "\<lambda>_. sample_log_env" "HLogFetch 0"]
  have "step_fetches (\<lambda>_. sample_log_env) 0 (HLogFetch 0) ?H = [([sample_entry], fst (classify ''AA'' [sample_entry] ?h))]"
    by (auto simp: c sample_batch)
  moreover have "ses_ops sample_session = [HLogFetch 0]" "ses_now sample_session = sample_cutoff"
    by (simp_all add: sample_session_def)
  ultimately show ?thesis
    by (intro exI [of _ "conn_history (run_session (\<lambda>_. sample_log_env) sample_session h 0)"])
      (simp del: step_fetches.simps)
qed

lemma sample_classify_first: "fst (classify ''AA'' [sample_entry] (history_load (history_save sample_history) (new_history sample_cutoff True)))
   = [sample_entry]"
proof -
  have "history_load (history_save sample_history) (new_history sample_cutoff True) = sample_history" by code_simp
  then show ?thesis
    by (simp add: classify_def sample_history_def new_history_def dict_get_or_def dict_setdefault_def
      loop_simps sample_entry_def is_live_def sample_cutoff_def less_datetime_def split: prod.split)
qed

end
