(* ===== verification/Dispatch.thy ===== *)
theory Dispatch
  imports Entities LogRuns "HOL-Library.Multiset"
begin

section \<open>Dispatcher signals and the entities that hear them\<close>

text \<open>
  A connection announces push events, log records and link changes under dispatcher signals named
  after the lock's address (connection.py); each platform creates its entities for the keys of the
  entry and each entity subscribes to the signal it shows (lock.py, sensor.py, binary\_sensor.py,
  event.py). The dispatcher is Home Assistant's: \<open>receivers subs name\<close> are the entities whose
  handlers it calls for a signal.
\<close>

subsection \<open>Signals\<close>

definition event_signal :: "string \<Rightarrow> string" where
  "event_signal mac = ''ttlock_ble_event_'' @ py_lower mac"

definition log_signal :: "string \<Rightarrow> string" where
  "log_signal mac = ''ttlock_ble_log_'' @ py_lower mac"

definition connection_signal :: "string \<Rightarrow> string" where
  "connection_signal mac = ''ttlock_ble_connection_'' @ py_lower mac"

lemmas signal_defs = event_signal_def log_signal_def connection_signal_def

text \<open>The name under which the connection of \<open>mac\<close> sends a signal.\<close>

fun signal_name :: "string \<Rightarrow> signal \<Rightarrow> string" where
  "signal_name mac (SConnected c) = connection_signal mac"
| "signal_name mac (SLog e) = log_signal mac"
| "signal_name mac (SPush ev) = event_signal mac"

subsection \<open>Entities and their subscriptions\<close>

datatype entity =
    LockOf string
  | LogOf string
  | ConnectionOf string
  | BatteryOf string
  | VerifiedOf string

fun entity_mac :: "entity \<Rightarrow> string" where
  "entity_mac (LockOf mac) = mac"
| "entity_mac (LogOf mac) = mac"
| "entity_mac (ConnectionOf mac) = mac"
| "entity_mac (BatteryOf mac) = mac"
| "entity_mac (VerifiedOf mac) = mac"

fun entity_unique_id :: "entity \<Rightarrow> string" where
  "entity_unique_id (LockOf mac) = lock_unique_id mac"
| "entity_unique_id (LogOf mac) = log_unique_id mac"
| "entity_unique_id (ConnectionOf mac) = connection_unique_id mac"
| "entity_unique_id (BatteryOf mac) = battery_unique_id mac"
| "entity_unique_id (VerifiedOf mac) = verified_unique_id mac"

text \<open>\<open>async_setup_entry\<close> of the platforms.\<close>

definition setup_binary_sensors :: "virtual_key list \<Rightarrow> entity list" where
  "setup_binary_sensors ks = map (ConnectionOf \<circ> vk_mac) ks"

definition setup_events :: "virtual_key list \<Rightarrow> entity list" where
  "setup_events ks = map (LogOf \<circ> vk_mac) ks"

definition setup_locks :: "virtual_key list \<Rightarrow> entity list" where
  "setup_locks ks = map (LockOf \<circ> vk_mac) ks"

definition setup_sensors :: "virtual_key list \<Rightarrow> entity list" where
  "setup_sensors ks = concat (map (\<lambda>k. [BatteryOf (vk_mac k), VerifiedOf (vk_mac k)]) ks)"

fun platform_entities :: "platform \<Rightarrow> virtual_key list \<Rightarrow> entity list" where
  "platform_entities BinarySensor ks = setup_binary_sensors ks"
| "platform_entities Event ks = setup_events ks"
| "platform_entities Lock ks = setup_locks ks"
| "platform_entities Sensor ks = setup_sensors ks"

lemmas platform_defs = setup_binary_sensors_def setup_events_def setup_locks_def setup_sensors_def

lemma platform_entity_ids: "map entity_unique_id (platform_entities p ks) = entity_ids p ks"
  by (cases p) (simp_all add: entity_ids_def platform_defs map_concat comp_def)

text \<open>\<open>async_added_to_hass\<close>: what an entity subscribes to.\<close>

definition lock_subscription :: "string \<Rightarrow> string" where "lock_subscription mac = event_signal mac"
definition log_subscription :: "string \<Rightarrow> string" where "log_subscription mac = log_signal mac"
definition connection_subscription :: "string \<Rightarrow> string" where "connection_subscription mac = connection_signal mac"
definition battery_subscription :: "string \<Rightarrow> string" where "battery_subscription mac = event_signal mac"

fun subscribed_signal :: "entity \<Rightarrow> string option" where
  "subscribed_signal (LockOf mac) = Some (lock_subscription mac)"
| "subscribed_signal (LogOf mac) = Some (log_subscription mac)"
| "subscribed_signal (ConnectionOf mac) = Some (connection_subscription mac)"
| "subscribed_signal (BatteryOf mac) = Some (battery_subscription mac)"
| "subscribed_signal (VerifiedOf mac) = None"

lemmas subscription_defs = lock_subscription_def log_subscription_def connection_subscription_def battery_subscription_def

type_synonym subscriptions = "(string \<times> entity) list"

definition added_to_hass :: "entity \<Rightarrow> subscriptions \<Rightarrow> subscriptions" where
  "added_to_hass e subs = (case subscribed_signal e of None \<Rightarrow> subs | Some name \<Rightarrow> subs @ [(name, e)])"

definition PLATFORMS :: "platform list" where
  "PLATFORMS = [BinarySensor, Event, Lock, Sensor]"

definition entry_entities :: "virtual_key list \<Rightarrow> entity list" where
  "entry_entities ks = concat (map (\<lambda>p. platform_entities p ks) PLATFORMS)"

definition entry_subscriptions :: "virtual_key list \<Rightarrow> subscriptions" where
  "entry_subscriptions ks = fold added_to_hass (entry_entities ks) []"

subsection \<open>Handlers\<close>

text \<open>
  The state of an entity as far as its handler changes it: the lock entity, the events the log
  entity fired, the number of states the connectivity sensor wrote, the battery sensor.
\<close>

datatype entity_view =
    LockView lock_entity
  | LogView "(string \<times> (string, json) dict) list"
  | ConnectionView nat
  | BatteryView battery_sensor
  | VerifiedView

definition on_connection_state :: "nat \<Rightarrow> nat" where
  "on_connection_state writes = writes + 1"

fun handle_signal :: "operate_enum \<Rightarrow> (int \<Rightarrow> int option) \<Rightarrow> signal \<Rightarrow> entity_view \<Rightarrow> entity_view" where
  "handle_signal L battery (SPush ev) (LockView l) = LockView (create_tracked_task ''query_state'' l)"
| "handle_signal L battery (SPush ev) (BatteryView b) = BatteryView (battery_lock_event (battery ev) b)"
| "handle_signal L battery (SLog e) (LogView fired) = LogView (fired @ [on_log_entry L e])"
| "handle_signal L battery (SConnected c) (ConnectionView n) = ConnectionView (on_connection_state n)"
| "handle_signal L battery sig v = v"

lemma on_lock_event_task: "h_lock (on_lock_event h) = create_tracked_task ''query_state'' (h_lock h)"
  by (simp add: on_lock_event_def)

text \<open>The entities as their platforms create them, before any signal.\<close>

fun new_view :: "rat \<Rightarrow> coord \<Rightarrow> entity \<Rightarrow> entity_view" where
  "new_view now s (LockOf mac) = LockView (new_lock now mac s)"
| "new_view now s (LogOf mac) = LogView []"
| "new_view now s (ConnectionOf mac) = ConnectionView 0"
| "new_view now s (BatteryOf mac) = BatteryView (new_battery_sensor mac s)"
| "new_view now s (VerifiedOf mac) = VerifiedView"

type_synonym receivers = "subscriptions \<Rightarrow> string \<Rightarrow> entity list"

definition send_signal ::
  "receivers \<Rightarrow> operate_enum \<Rightarrow> (int \<Rightarrow> int option) \<Rightarrow> subscriptions \<Rightarrow> string \<Rightarrow> signal \<Rightarrow>
   (entity \<Rightarrow> entity_view) \<Rightarrow> (entity \<Rightarrow> entity_view)" where
  "send_signal R L battery subs mac sig V =
     fold (\<lambda>e V. V(e := handle_signal L battery sig (V e))) (R subs (signal_name mac sig)) V"

text \<open>What Home Assistant documents: every handler connected under the name is called, and no other.\<close>

definition dispatches :: "receivers \<Rightarrow> bool" where
  "dispatches R \<longleftrightarrow> (\<forall>subs name. mset (R subs name) = mset (map snd (filter (\<lambda>(n, e). n = name) subs)))"

subsection \<open>Who hears a signal\<close>

fun hears :: "entity \<Rightarrow> signal \<Rightarrow> bool" where
  "hears (LockOf mac) (SPush ev) = True"
| "hears (BatteryOf mac) (SPush ev) = True"
| "hears (LogOf mac) (SLog e) = True"
| "hears (ConnectionOf mac) (SConnected c) = True"
| "hears e sig = False"

lemma py_lower_same: "inj_on py_lower M \<Longrightarrow> mac \<in> M \<Longrightarrow> mac' \<in> M \<Longrightarrow> py_lower mac' = py_lower mac \<longleftrightarrow> mac' = mac"
  by (auto dest: inj_onD)

lemma subscribed_iff:
  assumes "inj_on py_lower M" and "mac \<in> M" and "entity_mac e \<in> M"
  shows "subscribed_signal e = Some (signal_name mac sig) \<longleftrightarrow> entity_mac e = mac \<and> hears e sig"
  using assms by (cases e; cases sig) (auto simp: subscription_defs signal_defs py_lower_same)

lemma added_entities:
  "fold added_to_hass es subs = subs @ map (\<lambda>e. (the (subscribed_signal e), e)) (filter (\<lambda>e. subscribed_signal e \<noteq> None) es)"
  by (induction es arbitrary: subs) (auto simp: added_to_hass_def split: option.split)

lemma subscribers:
  "map snd (filter (\<lambda>(n, e). n = name) (entry_subscriptions ks)) = filter (\<lambda>e. subscribed_signal e = Some name) (entry_entities ks)"
  by (simp add: entry_subscriptions_def added_entities filter_map comp_def) (auto intro: filter_cong)

lemma entry_entities_macs: "e \<in> set (entry_entities ks) \<Longrightarrow> entity_mac e \<in> vk_mac ` set ks"
  by (auto simp: entry_entities_def PLATFORMS_def platform_defs)

lemma entry_entities_distinct: "distinct (map vk_mac ks) \<Longrightarrow> distinct (entry_entities ks)"
proof (induction ks)
  case (Cons k ks)
  have "\<not> e \<in> set (entry_entities ks)" if "entity_mac e = vk_mac k" for e
    using entry_entities_macs [of e ks] that Cons.prems by auto
  then show ?case using Cons by (auto simp: entry_entities_def PLATFORMS_def platform_defs)
qed (simp add: entry_entities_def PLATFORMS_def platform_defs)

lemma fold_handlers:
  "distinct es \<Longrightarrow> fold (\<lambda>e V. V(e := f (V e))) es V e = (if e \<in> set es then f (V e) else V e)"
  by (induction es arbitrary: V) auto

lemma send_signal_result:
  assumes "dispatches R" and "distinct (map vk_mac ks)" and "inj_on py_lower (vk_mac ` set ks)" and "mac \<in> vk_mac ` set ks"
  shows "send_signal R L battery (entry_subscriptions ks) mac sig V e =
    (if e \<in> set (entry_entities ks) \<and> entity_mac e = mac \<and> hears e sig then handle_signal L battery sig (V e) else V e)"
proof -
  let ?es = "R (entry_subscriptions ks) (signal_name mac sig)"
  have "mset ?es = mset (filter (\<lambda>e. subscribed_signal e = Some (signal_name mac sig)) (entry_entities ks))"
    using assms(1) unfolding dispatches_def subscribers [symmetric] by blast
  then have same: "set ?es = {e \<in> set (entry_entities ks). subscribed_signal e = Some (signal_name mac sig)}"
    and "distinct ?es = distinct (filter (\<lambda>e. subscribed_signal e = Some (signal_name mac sig)) (entry_entities ks))"
    by (metis set_filter set_mset_mset, metis mset_eq_imp_distinct_iff)
  then have "distinct ?es" using entry_entities_distinct [OF assms(2)] by simp
  moreover have "e \<in> set ?es \<longleftrightarrow> e \<in> set (entry_entities ks) \<and> entity_mac e = mac \<and> hears e sig"
    using subscribed_iff [OF assms(3,4)] entry_entities_macs same by blast
  ultimately show ?thesis by (simp add: send_signal_def fold_handlers)
qed


subsection \<open>A sequence of signals\<close>

definition send_signals ::
  "receivers \<Rightarrow> operate_enum \<Rightarrow> (int \<Rightarrow> int option) \<Rightarrow> virtual_key list \<Rightarrow> string \<Rightarrow> signal list \<Rightarrow>
   (entity \<Rightarrow> entity_view) \<Rightarrow> (entity \<Rightarrow> entity_view)" where
  "send_signals R L battery ks mac = fold (send_signal R L battery (entry_subscriptions ks) mac)"

fun pushes :: "signal list \<Rightarrow> int list" where
  "pushes [] = []"
| "pushes (SPush ev # sigs) = ev # pushes sigs"
| "pushes (_ # sigs) = pushes sigs"

lemma send_signals_result:
  assumes "dispatches R" and "distinct (map vk_mac ks)" and "inj_on py_lower (vk_mac ` set ks)" and "mac \<in> vk_mac ` set ks"
  shows "send_signals R L battery ks mac sigs V e =
    (if e \<in> set (entry_entities ks) \<and> entity_mac e = mac then fold (handle_signal L battery) (filter (hears e) sigs) (V e) else V e)"
  unfolding send_signals_def by (induction sigs arbitrary: V) (simp_all add: send_signal_result [OF assms])

lemma own_entities:
  "mac \<in> vk_mac ` set ks \<Longrightarrow> {LockOf mac, LogOf mac, ConnectionOf mac, BatteryOf mac, VerifiedOf mac} \<subseteq> set (entry_entities ks)"
  by (auto simp: entry_entities_def PLATFORMS_def platform_defs)

lemma log_view_signals:
  "fold (handle_signal L battery) (filter (hears (LogOf mac)) sigs) (LogView fired) = LogView (fired @ map (on_log_entry L) (logged sigs))"
  by (induction sigs arbitrary: fired rule: logged.induct) simp_all

lemma connection_view_signals:
  "fold (handle_signal L battery) (filter (hears (ConnectionOf mac)) sigs) (ConnectionView n) = ConnectionView (n + length (conn_signals sigs))"
  by (induction sigs arbitrary: n rule: conn_signals.induct) (simp_all add: on_connection_state_def)

lemma lock_view_signals:
  "fold (handle_signal L battery) (filter (hears (LockOf mac)) sigs) (LockView l)
    = LockView (fold (\<lambda>_. create_tracked_task ''query_state'') (pushes sigs) l)"
  by (induction sigs arbitrary: l rule: pushes.induct) simp_all

lemma battery_view_signals:
  "fold (handle_signal L battery) (filter (hears (BatteryOf mac)) sigs) (BatteryView b)
    = BatteryView (fold (\<lambda>ev. battery_lock_event (battery ev)) (pushes sigs) b)"
  by (induction sigs arbitrary: b rule: pushes.induct) simp_all

text \<open>
  Claim C13. Signals reach the entities of their own lock and no others. Whatever a connection
  announces, in the order it announces it: the log entity of the lock fires one event per log
  record, the connectivity sensor writes its state once per link change, the lock entity starts
  one state query and the battery sensor takes over one battery byte per push event; no entity of
  another lock of the entry changes. (The addresses of the entry's locks differ in more than the
  case of their letters.)
\<close>

theorem signals_reach_own_entities:
  assumes "dispatches R" and "distinct (map vk_mac ks)" and "inj_on py_lower (vk_mac ` set ks)" and "mac \<in> vk_mac ` set ks"
    and "V' = send_signals R L battery ks mac sigs (new_view now s)"
  shows "V' (LogOf mac) = LogView (map (on_log_entry L) (logged sigs))
    \<and> V' (ConnectionOf mac) = ConnectionView (length (conn_signals sigs))
    \<and> V' (LockOf mac) = LockView (fold (\<lambda>_. create_tracked_task ''query_state'') (pushes sigs) (new_lock now mac s))
    \<and> V' (BatteryOf mac) = BatteryView (fold (\<lambda>ev. battery_lock_event (battery ev)) (pushes sigs) (new_battery_sensor mac s))
    \<and> (\<forall>e. entity_mac e \<noteq> mac \<longrightarrow> V' e = new_view now s e)"
  using own_entities [OF assms(4)]
  by (simp add: assms(5) send_signals_result [OF assms(1-4)] log_view_signals connection_view_signals
      lock_view_signals battery_view_signals)

subsection \<open>Operation records and the events they fire\<close>

text \<open>The events the log entities of lock \<open>i\<close> fire over successive sessions; every session has new entities.\<close>

fun fired_events ::
  "receivers \<Rightarrow> operate_enum \<Rightarrow> (int \<Rightarrow> int option) \<Rightarrow> virtual_key list \<Rightarrow> string \<Rightarrow> rat \<times> coord \<Rightarrow> (nat \<Rightarrow> 'w env) \<Rightarrow> nat \<Rightarrow>
   'w session list \<Rightarrow> log_history \<Rightarrow> (string \<times> (string, json) dict) list" where
  "fired_events R L battery ks mac start E i [] h = []"
| "fired_events R L battery ks mac start E i (ses # sess) h =
     (case send_signals R L battery ks mac (dispatched (run_session E ses h i)) (new_view (fst start) (snd start)) (LogOf mac) of
        LogView fired \<Rightarrow> fired | _ \<Rightarrow> [])
     @ fired_events R L battery ks mac start E i sess (conn_history (run_session E ses h i))"

lemma fired_life:
  assumes "dispatches R" and "distinct (map vk_mac ks)" and "inj_on py_lower (vk_mac ` set ks)" and "mac \<in> vk_mac ` set ks"
  shows "fired_events R L battery ks mac start E i sess h = map (on_log_entry L) (life E i sess h)"
proof (induction sess arbitrary: h)
  case (Cons ses sess)
  have "LogOf mac \<in> set (entry_entities ks)" using own_entities [OF assms(4)] by simp
  then show ?case using Cons.IH by (simp add: send_signals_result [OF assms] log_view_signals)
qed simp

text \<open>
  Claim C12. No operation record fires its event twice. \<open>life_fetches\<close> lists, for any number of
  sessions of the integration, whatever it did in them and whatever the lock, Home Assistant and
  the callbacks did, the log fetches of a lock to which the SDK returned a batch, one entry for
  each such fetch of the history: the batch and the records this very fetch announced. The events
  the log entity of the lock fires are exactly those of these records, in their order; the
  records of a fetch belong to its batch and no two of them are the same; and two of any twenty
  consecutive fetches never announce the same record, also when the integration was restarted
  between them. (The SDK returns at most the 25 entries it is asked for.)
\<close>

theorem log_events_fire_once:
  assumes "dispatches R" and "distinct (map vk_mac ks)" and "inj_on py_lower (vk_mac ` set ks)" and "mac \<in> vk_mac ` set ks"
    and "kept h" and "\<forall>ses\<in>set sess. fst (ses_conns ses i) = mac"
    and "\<And>es. sdk_batch (E i) es \<Longrightarrow> length es \<le> 25"
  shows "fired_events R L battery ks mac start E i sess h
      = map (on_log_entry L) (concat (map snd (life_fetches E i sess h)))
    \<and> (\<forall>(es, live)\<in>set (life_fetches E i sess h). set live \<subseteq> set es \<and> distinct (map record_identity live))
    \<and> (\<forall>a b. a < b \<and> b < a + 20 \<and> b < length (life_fetches E i sess h) \<longrightarrow>
        identities (snd (life_fetches E i sess h ! a)) \<inter> identities (snd (life_fetches E i sess h ! b)) = {})"
  using dispatched_once [of h sess i mac E, OF assms(5-7)]
  by (auto simp: fired_life [OF assms(1-4)])

subsection \<open>Concrete runs\<close>

definition sample_receivers :: receivers where
  "sample_receivers subs name = map snd (filter (\<lambda>(n, e). n = name) subs)"

definition named_key :: "string \<Rightarrow> virtual_key" where
  "named_key mac = \<lparr>vk_mac = mac, vk_alias = [], vk_name = ''Door'', vk_protocol_type = 5, vk_protocol_version = 3,
     vk_scene = 2, vk_group = 1, vk_org = 1, vk_aes = [], vk_unlock = ''1'', vk_admin = ''123''\<rparr>"

definition two_keys :: "virtual_key list" where
  "two_keys = [named_key ''AA'', named_key ''BB'']"

definition plain_enum :: operate_enum where
  "plain_enum = \<lparr>code_of = (\<lambda>name. 0), name_of = (\<lambda>i. None)\<rparr>"

lemma sample_dispatches: "dispatches sample_receivers"
  by (simp add: dispatches_def sample_receivers_def)

lemma two_keys_distinct:
  "distinct (map vk_mac two_keys)" "inj_on py_lower (vk_mac ` set two_keys)" "''AA'' \<in> vk_mac ` set two_keys"
proof -
  have "py_lower ''AA'' \<noteq> py_lower ''BB''" by code_simp
  then show "inj_on py_lower (vk_mac ` set two_keys)" by (auto simp: two_keys_def named_key_def)
qed (auto simp: two_keys_def named_key_def)

theorem signals_reach_own_entities_witness:
  "send_signals sample_receivers plain_enum Some two_keys ''AA'' [SConnected True, SPush 70, SConnected False]
      (new_view 0 (new_coord [''AA'', ''BB''])) (ConnectionOf ''AA'') = ConnectionView 2
    \<and> send_signals sample_receivers plain_enum Some two_keys ''AA'' [SConnected True, SPush 70, SConnected False]
      (new_view 0 (new_coord [''AA'', ''BB''])) (ConnectionOf ''BB'') = ConnectionView 0"
proof -
  note heard = signals_reach_own_entities [OF sample_dispatches two_keys_distinct refl, of plain_enum Some
      "[SConnected True, SPush 70, SConnected False]" 0 "new_coord [''AA'', ''BB'']"]
  have "entity_mac (ConnectionOf ''BB'') \<noteq> ''AA''" by simp
  with heard show ?thesis by (simp only:) simp
qed

text \<open>Two sessions with a fetch each, to which the SDK returns the same record: it fires once.\<close>

theorem log_events_fire_once_witness:
  "fired_events sample_receivers plain_enum Some two_keys ''AA'' (0, new_coord [''AA'']) (\<lambda>_. sample_log_env) 0
      [sample_session, sample_session] sample_history = [on_log_entry plain_enum sample_entry]
    \<and> life_fetches (\<lambda>_. sample_log_env) 0 [sample_session, sample_session] sample_history
      = [([sample_entry], [sample_entry]), ([sample_entry], [])]"
proof -
  let ?tr = "life_fetches (\<lambda>_. sample_log_env) 0 [sample_session, sample_session] sample_history"
  have kept: "kept sample_history" by (simp add: kept_def sample_history_def new_history_ok) (simp add: new_history_def)
  have mac: "\<forall>ses\<in>set [sample_session, sample_session]. fst (ses_conns ses 0) = ''AA''" by (simp add: sample_session_def)
  have limit: "\<And>es. sdk_batch sample_log_env es \<Longrightarrow> length es \<le> 25"
    by (auto simp: sdk_batch_def sample_log_env_def)
  obtain h live where "?tr = ([sample_entry], [sample_entry]) # life_fetches (\<lambda>_. sample_log_env) 0 [sample_session] h"
    "life_fetches (\<lambda>_. sample_log_env) 0 [sample_session] h = [([sample_entry], live)]"
    using sample_fetch [of "[sample_session]" sample_history] sample_fetch [of "[]"]
    unfolding sample_classify_first life_fetches.simps(1) by blast
  then have tr: "?tr = [([sample_entry], [sample_entry]), ([sample_entry], live)]" by simp
  note once = log_events_fire_once [OF sample_dispatches two_keys_distinct kept mac, of "\<lambda>_. sample_log_env",
      OF limit, unfolded tr]
  have sub: "set live \<subseteq> {sample_entry}" using once [THEN conjunct2, THEN conjunct1] by simp
  have "identities [sample_entry] \<inter> identities live = {}"
    using once [THEN conjunct2, THEN conjunct2, THEN spec [of _ 0], THEN spec [of _ 1]] by simp
  with sub have "live = []" by (cases live) (auto simp: identities_def)
  with once [THEN conjunct1] tr show ?thesis by (simp del: life_fetches.simps fired_events.simps)
qed

end
