(* ===== verification/ManualKeyProps.thy ===== *)
theory ManualKeyProps
  imports ManualKey
begin

section \<open>Properties of the manual key form\<close>

text \<open>
  A form without errors can be built, and reconfiguring the entry shows a form that is valid
  again and builds the same key. The one exception, white space other than blanks inside the AES
  key, is a lemma of its own.
\<close>

subsection \<open>Texts without white space\<close>

lemma strip_plain:
  assumes "list_all (\<lambda>c. \<not> py_space c) s"
  shows "py_strip s = s"
proof -
  have "dropWhile py_space t = t" if "list_all (\<lambda>c. \<not> py_space c) t" for t
    using that by (cases t) simp_all
  from this [of s] this [of "rev s"] assms show ?thesis by (simp add: py_strip_def)
qed

lemma replace_empty: "py_replace c [] s = filter (\<lambda>x. x \<noteq> c) s"
  by (induction s) (simp_all add: py_replace_def)

lemma replace_map: "py_replace a [b] s = map (\<lambda>c. if c = a then b else c) s"
  by (induction s) (simp_all add: py_replace_def)

definition key_text :: "string \<Rightarrow> string" where
  "key_text raw = filter (\<lambda>x. x \<notin> set AES_SEPARATORS) (py_strip raw)"

lemma aes_key_bytes_text:
  "aes_key_bytes raw = (if length (key_text raw) \<noteq> 32 then None else bytes_fromhex (key_text raw))"
proof -
  have "fold (\<lambda>sep t. py_replace sep [] t) AES_SEPARATORS (py_strip raw) = key_text raw"
    by (simp add: AES_SEPARATORS_def replace_empty key_text_def)
  then show ?thesis by (simp add: aes_key_bytes_def AES_KEY_BYTES_def Let_def)
qed

lemma lower_hex_chars:
  assumes "lower_hex s"
  shows "list_all (\<lambda>c. \<not> py_space c) s" "list_all (\<lambda>c. c \<notin> set AES_SEPARATORS) s"
proof -
  have "\<not> py_space c \<and> c \<notin> set AES_SEPARATORS"
    if "(48 \<le> code c \<and> code c \<le> 57) \<or> (97 \<le> code c \<and> code c \<le> 102)" for c
    using that by (auto simp: py_space_def Let_def AES_SEPARATORS_def code_def)
  with assms show "list_all (\<lambda>c. \<not> py_space c) s" "list_all (\<lambda>c. c \<notin> set AES_SEPARATORS) s"
    unfolding lower_hex_def list_all_iff by blast+
qed

lemma aes_roundtrip:
  assumes "length key = 16"
  shows "aes_key_bytes (bytes_hex key) = Some key"
proof -
  have "key_text (bytes_hex key) = bytes_hex key"
    using lower_hex_chars [of "bytes_hex key"] by (simp add: key_text_def strip_plain list_all_iff)
  with assms show ?thesis by (simp add: aes_key_bytes_text bytes_fromhex_hex)
qed

lemma aes_length:
  assumes "aes_key_bytes raw = Some key" and "list_all (\<lambda>c. ascii_space c \<longrightarrow> c = CHR '' '') (py_strip raw)"
  shows "length key = 16"
proof -
  from assms(1) have key: "length (key_text raw) = 32" "bytes_fromhex (key_text raw) = Some key"
    by (simp_all add: aes_key_bytes_text split: if_splits)
  have "list_all (\<lambda>c. \<not> ascii_space c) (key_text raw)"
    using assms(2) by (auto simp: key_text_def list_all_iff AES_SEPARATORS_def)
  from bytes_fromhex_exact [OF key(2) this] key(1) show ?thesis by simp
qed

subsection \<open>Addresses\<close>

definition mac_char :: "char \<Rightarrow> char" where
  "mac_char c = upper_char (if c = CHR ''-'' then CHR '':'' else c)"

lemma normalized_mac_map: "normalized_mac raw = map mac_char (py_strip raw)"
  by (simp add: normalized_mac_def replace_map py_upper_def mac_char_def)

lemma upper_char_code:
  "code (upper_char c) = (if 97 \<le> code c \<and> code c \<le> 122 then code c - 32 else code c)"
proof -
  have "code c - 32 < 256" using code_less [of c] by linarith
  then show ?thesis by (simp add: upper_char_def)
qed

lemma upper_not_dash: "upper_char c = CHR ''-'' \<Longrightarrow> c = CHR ''-''"
proof -
  assume "upper_char c = CHR ''-''"
  then have "code (upper_char c) = 45" by (simp add: code_def)
  then have "code c = 45" unfolding upper_char_code by (auto split: if_splits)
  then have "code c = code CHR ''-''" by (simp add: code_def)
  then show "c = CHR ''-''" by (simp only: code_eq_iff)
qed

lemma upper_idem: "upper_char (upper_char c) = upper_char c"
proof -
  have "code (upper_char (upper_char c)) = code (upper_char c)"
    unfolding upper_char_code by (cases "97 \<le> code c \<and> code c \<le> 122") auto
  then show ?thesis by (simp only: code_eq_iff)
qed

lemma mac_char_idem: "mac_char (mac_char c) = mac_char c"
proof -
  have "mac_char c \<noteq> CHR ''-''"
  proof
    assume "mac_char c = CHR ''-''"
    then have "(if c = CHR ''-'' then CHR '':'' else c) = CHR ''-''"
      unfolding mac_char_def by (rule upper_not_dash)
    then show False by (simp split: if_splits)
  qed
  then have "mac_char (mac_char c) = upper_char (mac_char c)" by (simp add: mac_char_def [of "mac_char c"])
  then show ?thesis by (simp add: mac_char_def upper_idem)
qed

lemma hex_char_code: "hex_char c \<longleftrightarrow> (48 \<le> code c \<and> code c \<le> 57) \<or> (97 \<le> code c \<and> code c \<le> 102) \<or> (65 \<le> code c \<and> code c \<le> 70)"
  by (auto simp: hex_char_def hex_value_def Let_def)

lemma mac_char_hex:
  assumes "hex_char c"
  shows "hex_char (mac_char c)"
proof -
  have "c \<noteq> CHR ''-''" using assms by (auto simp: hex_char_code code_def)
  then have "code (mac_char c) = (if 97 \<le> code c \<and> code c \<le> 122 then code c - 32 else code c)"
    by (simp add: mac_char_def upper_char_code)
  with assms show ?thesis unfolding hex_char_code by (auto split: if_splits)
qed

lemma mac_char_sep: "mac_char CHR '':'' = CHR '':''" "mac_char CHR ''-'' = CHR '':''"
  by (simp_all add: mac_char_def upper_char_def code_def)

lemma mac_groups_map: "mac_groups n s \<Longrightarrow> mac_groups n (map mac_char s)"
  by (induction n s rule: mac_groups.induct)
    (auto simp: mac_char_hex mac_char_sep split: list.splits)

lemma mac_groups_plain: "mac_groups n s \<Longrightarrow> list_all (\<lambda>c. \<not> py_space c) s"
proof -
  have hex: "hex_char c \<Longrightarrow> \<not> py_space c" for c by (auto simp: hex_char_code py_space_def Let_def)
  have sep: "\<not> py_space CHR '':''" "\<not> py_space CHR ''-''" by (simp_all add: py_space_def Let_def code_def)
  show "mac_groups n s \<Longrightarrow> list_all (\<lambda>c. \<not> py_space c) s"
    by (induction n s rule: mac_groups.induct) (auto simp: hex sep split: list.splits)
qed

lemma mac_pattern_nonempty: "mac_pattern s \<Longrightarrow> s \<noteq> []"
  by (cases s) (simp_all add: mac_pattern_def numeral_eq_Suc)

lemma normalized_mac_stable:
  assumes "mac_pattern (py_strip raw)"
  shows "mac_pattern (normalized_mac raw)" "py_strip (normalized_mac raw) = normalized_mac raw"
    "normalized_mac (normalized_mac raw) = normalized_mac raw"
proof -
  show ok: "mac_pattern (normalized_mac raw)"
    using assms by (simp add: mac_pattern_def normalized_mac_map mac_groups_map)
  then show st: "py_strip (normalized_mac raw) = normalized_mac raw"
    by (simp add: mac_pattern_def mac_groups_plain strip_plain)
  have "normalized_mac (normalized_mac raw) = map mac_char (normalized_mac raw)"
    by (simp only: normalized_mac_map [of "normalized_mac raw"] st)
  also have "\<dots> = normalized_mac raw" by (simp add: normalized_mac_map mac_char_idem)
  finally show "normalized_mac (normalized_mac raw) = normalized_mac raw" .
qed

subsection \<open>The form\<close>

lemma form_valid:
  assumes "form_validate F u = []"
  shows "mac_pattern (py_strip (mk_mac u))" "\<exists>key. aes_key_bytes (mk_aes u) = Some key"
    "py_isdigit (py_strip (mk_unlock u))"
    "stripped_or_empty (mk_admin u) = [] \<or> py_isdigit (stripped_or_empty (mk_admin u))"
    "check_against_advertisement F u = []"
  using assms by (auto simp: form_validate_def Let_def split: if_splits)

lemma stripped_twice: "stripped_or_empty (Some (stripped_or_empty x)) = stripped_or_empty x"
  by (simp add: stripped_or_empty_def)

lemma strip_name:
  assumes "list_all (\<lambda>c. \<not> py_space c) mac" and "mac \<noteq> []"
  shows "py_strip (''TTLock '' @ mac) = ''TTLock '' @ mac"
proof -
  have "py_space (hd (''TTLock '' @ mac)) = False" by (simp add: py_space_def Let_def code_def)
  then have front: "dropWhile py_space (''TTLock '' @ mac) = ''TTLock '' @ mac"
    by (metis dropWhile_eq_self_iff)
  have "hd (rev (''TTLock '' @ mac)) \<in> set mac"
    using assms(2) by (simp add: hd_rev)
  then have "\<not> py_space (hd (rev (''TTLock '' @ mac)))" using assms(1) by (auto simp: list_all_iff)
  then have "dropWhile py_space (rev (''TTLock '' @ mac)) = rev (''TTLock '' @ mac)"
    by (metis dropWhile_eq_self_iff)
  with front show ?thesis unfolding py_strip_def by simp
qed

text \<open>
  A form without errors builds a key whose AES key is 16 bytes in hex; the input made of this key
  is again without errors and builds the same key. (White space inside the AES key is blanks.)
\<close>

lemma built_key_stable:
  assumes "form_validate F u = []"
    and "list_all (\<lambda>c. ascii_space c \<longrightarrow> c = CHR '' '') (py_strip (mk_aes u))"
  shows "\<exists>k. form_build u = Inr k \<and> length (vk_aes k) = 32 \<and> lower_hex (vk_aes k)
    \<and> form_validate F (form_defaults k) = [] \<and> form_build (form_defaults k) = Inr k"
proof -
  note v = form_valid [OF assms(1)]
  obtain key where key: "aes_key_bytes (mk_aes u) = Some key" using v(2) by blast
  have len: "length key = 16" by (rule aes_length [OF key assms(2)])
  let ?mac = "normalized_mac (mk_mac u)"
  note mac = normalized_mac_stable [OF v(1)]
  have plain: "list_all (\<lambda>c. \<not> py_space c) ?mac" "?mac \<noteq> []"
    using mac(1) mac_groups_plain mac_pattern_nonempty by (auto simp: mac_pattern_def)
  let ?name = "if stripped_or_empty (mk_name u) \<noteq> [] then stripped_or_empty (mk_name u) else ''TTLock '' @ ?mac"
  let ?k = "\<lparr>vk_mac = ?mac, vk_alias = ?name, vk_name = ?name, vk_protocol_type = mk_protocol_type u,
    vk_protocol_version = mk_protocol_version u, vk_scene = mk_scene u, vk_group = mk_group u, vk_org = mk_org u,
    vk_aes = bytes_hex key, vk_unlock = py_strip (mk_unlock u), vk_admin = stripped_or_empty (mk_admin u)\<rparr>"
  have build: "form_build u = Inr ?k" by (simp add: form_build_def key Let_def)
  have name: "stripped_or_empty (Some ?name) = ?name" "?name \<noteq> []"
    using strip_name [OF plain] by (simp_all add: stripped_or_empty_def)
  have "check_against_advertisement F (form_defaults ?k) = check_against_advertisement F u"
    using mac(3) by (cases "advertised F ?mac") (simp_all add: check_against_advertisement_def form_defaults_def)
  then have "form_validate F (form_defaults ?k) = []"
    using v mac aes_roundtrip [OF len] by (simp add: form_validate_def form_defaults_def Let_def stripped_twice)
  moreover have "form_build (form_defaults ?k) = Inr ?k"
    using name mac(3) aes_roundtrip [OF len]
    by (simp add: form_build_def form_defaults_def Let_def stripped_twice)
  ultimately show ?thesis using build len by (intro exI [of _ ?k]) simp
qed

definition sample_form :: "string \<Rightarrow> manual_input" where
  "sample_form aes = \<lparr>mk_mac = '' aa-bb-cc-dd-ee-0f'', mk_aes = aes, mk_unlock = '' 1234 '', mk_admin = None, mk_name = None,
     mk_protocol_type = 5, mk_protocol_version = 3, mk_scene = 2, mk_group = 1, mk_org = 1\<rparr>"

definition sample_form_env :: form_env where
  "sample_form_env = \<lparr>fe_last_info = (\<lambda>m. None), fe_decode = (\<lambda>c p. None), fe_format_mac = py_lower\<rparr>"

subsection \<open>Keys of the wrong length\<close>

text \<open>
  A tab inside the AES key counts as a character of it but is skipped by \<open>bytes.fromhex\<close>: 30 hex
  digits and two tabs pass the form, the key is 15 bytes, and reconfiguring the entry is
  impossible without entering the key again.
\<close>

definition tab_key :: string where
  "tab_key = replicate 10 (CHR ''0'') @ [char_of (9 :: nat)] @ replicate 10 (CHR ''0'') @ [char_of (9 :: nat)] @ replicate 10 (CHR ''0'')"

lemma short_aes_key_accepted:
  "form_validate sample_form_env (sample_form tab_key) = []
    \<and> aes_key_bytes tab_key = Some (replicate 15 0)
    \<and> (case form_build (sample_form tab_key) of Inl e \<Rightarrow> False
       | Inr k \<Rightarrow> form_validate sample_form_env (form_defaults k) = [(''aes_key'', ''invalid_aes_key'')])"
  by code_simp

text \<open>Superscripts are \<open>isdigit\<close>, so the unlock key need not be decimal.\<close>

lemma superscript_unlock_key_accepted:
  "form_validate sample_form_env ((sample_form (replicate 32 (CHR ''0'')))\<lparr>mk_unlock := map char_of [178, 179 :: nat]\<rparr>) = []"
  by code_simp

end
