(* ===== verification/ConfigForms.thy ===== *)
theory ConfigForms
  imports ManualKeyProps ConfigFlow
begin

section \<open>The forms of the config flow (config\_flow.py)\<close>

text \<open>
  The schemas the steps of the flow show, the submission of a form against its schema (an unknown
  key, a missing required key or a value its selector refuses is refused; a missing key with a
  default takes the default), and the manual key form shown again, filled with what was entered
  or with the stored key. What a selector accepts is Home Assistant's and a parameter; numbers are
  integers, as \<open>int()\<close> in \<open>build\<close> makes them.
\<close>

subsection \<open>Schemas\<close>

datatype selector =
    TextSelector
  | PasswordSelector
  | NumberSelector int int int

record form_field =
  ff_key :: string
  ff_required :: bool
  ff_default :: "json option"
  ff_selector :: selector

definition required :: "string \<Rightarrow> json option \<Rightarrow> selector \<Rightarrow> form_field" where
  "required k d sel = \<lparr>ff_key = k, ff_required = True, ff_default = d, ff_selector = sel\<rparr>"

definition optional :: "string \<Rightarrow> json option \<Rightarrow> selector \<Rightarrow> form_field" where
  "optional k d sel = \<lparr>ff_key = k, ff_required = False, ff_default = d, ff_selector = sel\<rparr>"

lemmas field_defs = required_def optional_def

definition DEFAULT_PROTOCOL_TYPE :: int where "DEFAULT_PROTOCOL_TYPE = 5"
definition DEFAULT_PROTOCOL_VERSION :: int where "DEFAULT_PROTOCOL_VERSION = 3"
definition DEFAULT_SCENE :: int where "DEFAULT_SCENE = 2"
definition DEFAULT_GROUP_ID :: int where "DEFAULT_GROUP_ID = 1"
definition DEFAULT_ORG_ID :: int where "DEFAULT_ORG_ID = 1"

definition credentials_schema :: "string option \<Rightarrow> form_field list" where
  "credentials_schema default_username =
     [required ''username'' (map_option JStr default_username) TextSelector,
      required ''password'' None PasswordSelector]"

definition positive_int_selector :: selector where
  "positive_int_selector = NumberSelector 0 255 1"

definition manual_key_schema :: "(string, json) dict option \<Rightarrow> form_field list" where
  "manual_key_schema defaults =
     (let previous = (case defaults of None \<Rightarrow> [] | Some d \<Rightarrow> d);
          default = (\<lambda>f fallback. Some (dict_get_or previous f fallback)) in
      [required ''lock_mac'' (default ''lock_mac'' (JStr [])) TextSelector,
       required ''aes_key'' (default ''aes_key'' (JStr [])) PasswordSelector,
       required ''unlock_key'' (default ''unlock_key'' (JStr [])) PasswordSelector,
       optional ''admin_passcode'' (default ''admin_passcode'' (JStr [])) PasswordSelector,
       optional ''lock_name'' (default ''lock_name'' (JStr [])) TextSelector,
       required ''protocol_type'' (default ''protocol_type'' (JInt DEFAULT_PROTOCOL_TYPE)) positive_int_selector,
       required ''protocol_version'' (default ''protocol_version'' (JInt DEFAULT_PROTOCOL_VERSION)) positive_int_selector,
       required ''scene'' (default ''scene'' (JInt DEFAULT_SCENE)) positive_int_selector,
       required ''group_id'' (default ''group_id'' (JInt DEFAULT_GROUP_ID)) positive_int_selector,
       required ''org_id'' (default ''org_id'' (JInt DEFAULT_ORG_ID)) positive_int_selector])"

definition verification_schema :: "form_field list" where
  "verification_schema = [required ''verification_code'' None TextSelector]"

subsection \<open>Submitting a form\<close>

type_synonym selects = "selector \<Rightarrow> json \<Rightarrow> json option"

definition submit_field :: "selects \<Rightarrow> (string, json) dict \<Rightarrow> form_field \<Rightarrow> (string, json) dict option" where
  "submit_field sel data f =
     (case (case dict_get data (ff_key f) of Some v \<Rightarrow> Some v | None \<Rightarrow> ff_default f) of
        None \<Rightarrow> if ff_required f then None else Some []
      | Some v \<Rightarrow> map_option (\<lambda>w. [(ff_key f, w)]) (sel (ff_selector f) v))"

fun submit_fields :: "selects \<Rightarrow> (string, json) dict \<Rightarrow> form_field list \<Rightarrow> (string, json) dict option" where
  "submit_fields sel data [] = Some []"
| "submit_fields sel data (f # fs) = (case submit_field sel data f of
     None \<Rightarrow> None
   | Some d \<Rightarrow> (case submit_fields sel data fs of None \<Rightarrow> None | Some ds \<Rightarrow> Some (d @ ds)))"

definition submit :: "selects \<Rightarrow> form_field list \<Rightarrow> (string, json) dict \<Rightarrow> (string, json) dict option" where
  "submit sel fs data = (if list_all (\<lambda>(k, v). k \<in> set (map ff_key fs)) data then submit_fields sel data fs else None)"

text \<open>What Home Assistant documents of the selectors: text stays text, a number stays within its bounds.\<close>

definition selectors_typed :: "selects \<Rightarrow> bool" where
  "selectors_typed sel \<longleftrightarrow>
     (\<forall>j w. sel TextSelector j = Some w \<longleftrightarrow> (\<exists>s. j = JStr s \<and> w = JStr s))
     \<and> (\<forall>j w. sel PasswordSelector j = Some w \<longleftrightarrow> (\<exists>s. j = JStr s \<and> w = JStr s))
     \<and> (\<forall>lo hi st j w. sel (NumberSelector lo hi st) j = Some w \<longrightarrow> (\<exists>n. w = JInt n \<and> lo \<le> n \<and> n \<le> hi))
     \<and> (\<forall>lo hi n. lo \<le> n \<and> n \<le> hi \<longrightarrow> sel (NumberSelector lo hi 1) (JInt n) = Some (JInt n))"

subsection \<open>The manual key form\<close>

text \<open>\<open>user_input\<close> as the dict the form returns, and as the record of \<open>ManualKey\<close>.\<close>

definition text_of :: "(string, json) dict \<Rightarrow> string \<Rightarrow> string option" where
  "text_of d k = (case dict_get d k of Some (JStr s) \<Rightarrow> Some s | _ \<Rightarrow> None)"

definition int_of :: "(string, json) dict \<Rightarrow> string \<Rightarrow> int option" where
  "int_of d k = (case dict_get d k of Some (JInt n) \<Rightarrow> Some n | _ \<Rightarrow> None)"

definition manual_input_of :: "(string, json) dict \<Rightarrow> manual_input option" where
  "manual_input_of d =
     (case (text_of d ''lock_mac'', text_of d ''aes_key'', text_of d ''unlock_key'',
        int_of d ''protocol_type'', int_of d ''protocol_version'', int_of d ''scene'', int_of d ''group_id'', int_of d ''org_id'') of
       (Some mac, Some aes, Some unlock, Some ty, Some version, Some scene, Some grp, Some org) \<Rightarrow>
         Some \<lparr>mk_mac = mac, mk_aes = aes, mk_unlock = unlock, mk_admin = text_of d ''admin_passcode'',
           mk_name = text_of d ''lock_name'', mk_protocol_type = ty, mk_protocol_version = version,
           mk_scene = scene, mk_group = grp, mk_org = org\<rparr>
     | _ \<Rightarrow> None)"

text \<open>\<open>defaults_from\<close> as the dict it is.\<close>

definition defaults_dict :: "virtual_key \<Rightarrow> (string, json) dict" where
  "defaults_dict k =
     [(''lock_mac'', JStr (vk_mac k)), (''aes_key'', JStr (vk_aes k)), (''unlock_key'', JStr (vk_unlock k)),
      (''admin_passcode'', JStr (vk_admin k)), (''lock_name'', JStr (vk_alias k)),
      (''protocol_type'', JInt (vk_protocol_type k)), (''protocol_version'', JInt (vk_protocol_version k)),
      (''scene'', JInt (vk_scene k)), (''group_id'', JInt (vk_group k)), (''org_id'', JInt (vk_org k))]"

text \<open>The form \<open>async_step_manual\<close> and \<open>async_step_reconfigure_manual\<close> show.\<close>

definition manual_form :: "(string, json) dict option \<Rightarrow> form_field list" where
  "manual_form user_input = manual_key_schema user_input"

definition reconfigure_form :: "virtual_key \<Rightarrow> (string, json) dict option \<Rightarrow> form_field list" where
  "reconfigure_form k user_input = manual_key_schema
     (case user_input of Some d \<Rightarrow> if d = [] then Some (defaults_dict k) else Some d | None \<Rightarrow> Some (defaults_dict k))"

subsection \<open>Lemmas\<close>

lemma defaults_input: "manual_input_of (defaults_dict k) = Some (form_defaults k)"
  by (simp add: manual_input_of_def defaults_dict_def form_defaults_def text_of_def int_of_def)

lemma submit_fields_Cons:
  "submit_fields sel data (f # fs) = Some d \<longleftrightarrow>
     (\<exists>x ds. submit_field sel data f = Some x \<and> submit_fields sel data fs = Some ds \<and> d = x @ ds)"
  by (auto split: option.splits)

lemma submit_text:
  assumes "selectors_typed sel" and "ff_selector f = TextSelector \<or> ff_selector f = PasswordSelector"
    and "ff_default f = Some v"
  shows "submit_field sel data f = Some x \<longleftrightarrow> (\<exists>s. dict_get_or data (ff_key f) v = JStr s \<and> x = [(ff_key f, JStr s)])"
  using assms by (auto simp: submit_field_def dict_get_or_def selectors_typed_def split: option.split)

lemma submit_number:
  assumes "selectors_typed sel" and "ff_selector f = positive_int_selector" and "ff_default f = Some v"
  shows "submit_field sel data f = Some x \<longleftrightarrow>
    (\<exists>n. sel positive_int_selector (dict_get_or data (ff_key f) v) = Some (JInt n) \<and> 0 \<le> n \<and> n \<le> 255 \<and> x = [(ff_key f, JInt n)])"
proof -
  have "\<exists>n. w = JInt n \<and> 0 \<le> n \<and> n \<le> 255" if "sel positive_int_selector j = Some w" for j w
    using assms(1) that unfolding selectors_typed_def positive_int_selector_def by blast
  then show ?thesis using assms(2,3) by (auto simp: submit_field_def dict_get_or_def split: option.split)
qed

lemma submit_number_default:
  assumes "selectors_typed sel" and "ff_selector f = positive_int_selector" and "ff_default f = Some (JInt n)"
    and "0 \<le> n" and "n \<le> 255"
  shows "submit_field sel [] f = Some [(ff_key f, JInt n)]"
  using assms by (simp add: submit_field_def positive_int_selector_def selectors_typed_def)

text \<open>What passes the manual key form: texts and numbers of one byte, in the order of the form.\<close>

definition key_dict :: "string list \<Rightarrow> int list \<Rightarrow> (string, json) dict" where
  "key_dict ts ns = zip [''lock_mac'', ''aes_key'', ''unlock_key'', ''admin_passcode'', ''lock_name''] (map JStr ts)
     @ zip [''protocol_type'', ''protocol_version'', ''scene'', ''group_id'', ''org_id''] (map JInt ns)"

lemma submitted_shape:
  assumes "selectors_typed sel" and "submit sel (manual_key_schema prev) data = Some d"
  shows "\<exists>ts ns. d = key_dict ts ns \<and> length ts = 5 \<and> length ns = 5 \<and> list_all (\<lambda>n. 0 \<le> n \<and> n \<le> 255) ns"
proof -
  from assms(2) have "submit_fields sel data (manual_key_schema prev) = Some d"
    by (simp add: submit_def split: if_splits)
  then obtain a b c e f p q r s t where
    "d = [(''lock_mac'', JStr a), (''aes_key'', JStr b), (''unlock_key'', JStr c), (''admin_passcode'', JStr e),
      (''lock_name'', JStr f), (''protocol_type'', JInt p), (''protocol_version'', JInt q), (''scene'', JInt r),
      (''group_id'', JInt s), (''org_id'', JInt t)]"
    and "list_all (\<lambda>n. 0 \<le> n \<and> n \<le> 255) [p, q, r, s, t]"
    unfolding manual_key_schema_def Let_def submit_fields_Cons
    by (auto simp: submit_text [OF assms(1)] submit_number [OF assms(1)] field_defs)
  then show ?thesis
    by (intro exI [of _ "[a, b, c, e, f]"] exI [of _ "[p, q, r, s, t]"]) (simp add: key_dict_def)
qed

lemma five: "length xs = 5 \<Longrightarrow> \<exists>a b c d e. xs = [a, b, c, d, e]"
  by (auto simp: numeral_eq_Suc length_Suc_conv)

text \<open>A form filled with such a dict and submitted as it is shown returns this dict.\<close>

lemma filled_form_unchanged:
  assumes "selectors_typed sel" and "length ts = 5" and "length ns = 5" and "list_all (\<lambda>n. 0 \<le> n \<and> n \<le> 255) ns"
  shows "submit sel (manual_key_schema (Some (key_dict ts ns))) [] = Some (key_dict ts ns)"
proof -
  obtain a b c e f where ts: "ts = [a, b, c, e, f]" using five [OF assms(2)] by blast
  obtain p q r s t where ns: "ns = [p, q, r, s, t]" using five [OF assms(3)] by blast
  have shown: "submit_field sel [] x = Some [(ff_key x, JStr w)]"
    if "ff_selector x = TextSelector \<or> ff_selector x = PasswordSelector" "ff_default x = Some (JStr w)" for x w
    using submit_text [OF assms(1) that] by (simp add: dict_get_or_def)
  show ?thesis
    using assms(4) unfolding ts ns
    by (simp add: submit_def manual_key_schema_def key_dict_def dict_get_or_def field_defs
        shown submit_number_default [OF assms(1)])
qed

lemma key_dict_input:
  assumes "length ts = 5" and "length ns = 5"
  shows "manual_input_of (key_dict ts ns) = Some \<lparr>mk_mac = ts ! 0, mk_aes = ts ! 1, mk_unlock = ts ! 2,
    mk_admin = Some (ts ! 3), mk_name = Some (ts ! 4), mk_protocol_type = ns ! 0, mk_protocol_version = ns ! 1,
    mk_scene = ns ! 2, mk_group = ns ! 3, mk_org = ns ! 4\<rparr>"
  using five [OF assms(1)] five [OF assms(2)]
  by (auto simp: key_dict_def manual_input_of_def text_of_def int_of_def)

lemma built_numbers:
  "form_build u = Inr k \<Longrightarrow> [vk_protocol_type k, vk_protocol_version k, vk_scene k, vk_group k, vk_org k]
    = [mk_protocol_type u, mk_protocol_version u, mk_scene u, mk_group u, mk_org u]"
  by (auto simp: form_build_def Let_def split: option.splits)

text \<open>
  Claim C38. The manual key form gives back what went in. Whatever passes the form, pre-filled or not,
  is an input, and the form shown again after errors returns the same input when it is submitted
  as it stands. If the input is without errors it builds a key whose AES key is 16 bytes in hex,
  and the form to reconfigure the entry, submitted as it is shown, is again without errors and
  builds the same key. (White space inside the AES key, if any, is blanks.)
\<close>

theorem manual_form_roundtrip:
  assumes "selectors_typed sel" and "submit sel (manual_form prev) data = Some d"
  shows "\<exists>u. manual_input_of d = Some u \<and> submit sel (manual_form (Some d)) [] = Some d
    \<and> (form_validate F u = [] \<and> list_all (\<lambda>c. ascii_space c \<longrightarrow> c = CHR '' '') (py_strip (mk_aes u)) \<longrightarrow>
       (\<exists>k d'. form_build u = Inr k \<and> length (vk_aes k) = 32 \<and> lower_hex (vk_aes k)
         \<and> submit sel (reconfigure_form k None) [] = Some d' \<and> manual_input_of d' = Some (form_defaults k)
         \<and> form_validate F (form_defaults k) = [] \<and> form_build (form_defaults k) = Inr k))"
proof -
  from submitted_shape [OF assms(1) assms(2) [unfolded manual_form_def]] obtain ts ns where
    d: "d = key_dict ts ns" and len: "length ts = 5" "length ns = 5" and range: "list_all (\<lambda>n. 0 \<le> n \<and> n \<le> 255) ns" by blast
  obtain u where u: "manual_input_of d = Some u" "[mk_protocol_type u, mk_protocol_version u, mk_scene u, mk_group u, mk_org u] = ns"
    using key_dict_input [OF len] five [OF len(2)] d by auto
  have again: "submit sel (manual_form (Some d)) [] = Some d"
    using filled_form_unchanged [OF assms(1) len range] by (simp add: d manual_form_def)
  have reshown: "submit sel (reconfigure_form k None) [] = Some (defaults_dict k)" if "form_build u = Inr k" for k
  proof -
    let ?ts = "[vk_mac k, vk_aes k, vk_unlock k, vk_admin k, vk_alias k]"
    let ?ns = "[vk_protocol_type k, vk_protocol_version k, vk_scene k, vk_group k, vk_org k]"
    have "defaults_dict k = key_dict ?ts ?ns" by (simp add: defaults_dict_def key_dict_def)
    moreover have "list_all (\<lambda>n. 0 \<le> n \<and> n \<le> 255) ?ns" using built_numbers [OF that] u(2) range by simp
    ultimately show ?thesis
      using filled_form_unchanged [OF assms(1), of ?ts ?ns] by (simp add: reconfigure_form_def)
  qed
  have "\<exists>k d'. form_build u = Inr k \<and> length (vk_aes k) = 32 \<and> lower_hex (vk_aes k)
         \<and> submit sel (reconfigure_form k None) [] = Some d' \<and> manual_input_of d' = Some (form_defaults k)
         \<and> form_validate F (form_defaults k) = [] \<and> form_build (form_defaults k) = Inr k"
    if "form_validate F u = [] \<and> list_all (\<lambda>c. ascii_space c \<longrightarrow> c = CHR '' '') (py_strip (mk_aes u))"
    using built_key_stable [of F u] that reshown defaults_input by blast
  with u(1) again show ?thesis by blast
qed

subsection \<open>A concrete run\<close>

fun plain_selects :: selects where
  "plain_selects (NumberSelector lo hi st) (JInt n) = (if lo \<le> n \<and> n \<le> hi then Some (JInt n) else None)"
| "plain_selects (NumberSelector lo hi st) j = None"
| "plain_selects sel (JStr s) = Some (JStr s)"
| "plain_selects sel j = None"

lemma plain_selects_typed: "selectors_typed plain_selects"
proof -
  have "plain_selects TextSelector j = Some w \<longleftrightarrow> (\<exists>s. j = JStr s \<and> w = JStr s)"
    and "plain_selects PasswordSelector j = Some w \<longleftrightarrow> (\<exists>s. j = JStr s \<and> w = JStr s)"
    and "plain_selects (NumberSelector lo hi st) j = Some w \<longrightarrow> (\<exists>n. w = JInt n \<and> lo \<le> n \<and> n \<le> hi)" for j w lo hi st
    by (cases j; auto)+
  then show ?thesis by (simp add: selectors_typed_def)
qed

definition sample_entered :: "(string, json) dict" where
  "sample_entered = [(''lock_mac'', JStr ''aa-bb-cc-dd-ee-0f''),
     (''aes_key'', JStr ''00,11,22,33,44,55,66,77,88,99,AA,BB,CC,DD,EE,FF''), (''unlock_key'', JStr '' 1234''), (''scene'', JInt 7)]"

theorem manual_form_roundtrip_witness:
  "\<exists>d u k d'. submit plain_selects (manual_form None) sample_entered = Some d \<and> manual_input_of d = Some u \<and> form_build u = Inr k
     \<and> submit plain_selects (reconfigure_form k None) [] = Some d' \<and> manual_input_of d' = Some (form_defaults k)
     \<and> form_build (form_defaults k) = Inr k"
proof -
  let ?ok = "case submit plain_selects (manual_form None) sample_entered of None \<Rightarrow> False | Some d \<Rightarrow>
    (case manual_input_of d of None \<Rightarrow> False | Some u \<Rightarrow> form_validate sample_form_env u = []
      \<and> list_all (\<lambda>c. ascii_space c \<longrightarrow> c = CHR '' '') (py_strip (mk_aes u)))"
  have "?ok" by code_simp
  then obtain d u where d: "submit plain_selects (manual_form None) sample_entered = Some d" "manual_input_of d = Some u"
    and u: "form_validate sample_form_env u = []" "list_all (\<lambda>c. ascii_space c \<longrightarrow> c = CHR '' '') (py_strip (mk_aes u))"
    by (auto split: option.splits)
  from manual_form_roundtrip [OF plain_selects_typed d(1), of sample_form_env] d(2) u show ?thesis
    using d by auto
qed

end
