(* ===== verification/ConfigProps.thy ===== *)
theory ConfigProps
  imports ConfigFlow
begin

section \<open>Properties of the config flow\<close>

text \<open>
  Every step that creates or changes an entry checks the locks against the other entries first,
  so that in every reachable list of entries no lock is held twice.
\<close>

subsection \<open>The invariant of the entries\<close>

definition entry_locks :: "(string \<Rightarrow> string) \<Rightarrow> config_entry \<Rightarrow> string set" where
  "entry_locks fmt e = (\<lambda>k. fmt (vk_mac k)) ` set (ce_keys e)"

definition entries_ok :: "(string \<Rightarrow> string) \<Rightarrow> nat \<Rightarrow> config_entry list \<Rightarrow> bool" where
  "entries_ok fmt n es \<longleftrightarrow> distinct (map ce_id es) \<and> (\<forall>e\<in>set es. ce_id e < n)
     \<and> (\<forall>e\<in>set es. ce_ignored e \<longrightarrow> ce_keys e = [])
     \<and> (\<forall>e\<in>set es. \<forall>e'\<in>set es. ce_id e \<noteq> ce_id e' \<longrightarrow> entry_locks fmt e \<inter> entry_locks fmt e' = {})"

abbreviation flow_ok :: "'w flow_env \<Rightarrow> 'w flow \<Rightarrow> bool" where
  "flow_ok F s \<equiv> entries_ok (fe_format_mac (fw_form F)) (fl_next s) (fl_entries s)"

lemma any_lock_configured_iff:
  "any_lock_configured fmt ks ignore s \<longleftrightarrow> (\<exists>e\<in>set (fl_entries s). \<not> ce_ignored e \<and> Some (ce_id e) \<noteq> ignore
     \<and> entry_locks fmt e \<inter> (\<lambda>k. fmt (vk_mac k)) ` set ks \<noteq> {})"
  by (auto simp: any_lock_configured_def lock_configured_def list_ex_iff entry_locks_def image_iff)

lemma lock_configured_any: "lock_configured fmt (vk_mac k) ignore s = any_lock_configured fmt [k] ignore s"
  by (simp add: any_lock_configured_def)

lemma entries_ok_filter: "entries_ok fmt n es \<Longrightarrow> entries_ok fmt n (filter P es)"
  by (auto simp: entries_ok_def distinct_map_filter)

lemma entries_ok_append:
  assumes "entries_ok fmt n es" "ce_id e = n" "ce_ignored e \<longrightarrow> ce_keys e = []"
    and "\<forall>e'\<in>set es. entry_locks fmt e' \<inter> entry_locks fmt e = {}"
  shows "entries_ok fmt (n + 1) (es @ [e])"
  using assms by (auto simp: entries_ok_def less_Suc_eq)

lemma other_entries_disjoint:
  assumes "flow_ok F s" "\<not> any_lock_configured (fe_format_mac (fw_form F)) ks ignore s"
    and "e \<in> set (fl_entries s)" "Some (ce_id e) \<noteq> ignore"
  shows "entry_locks (fe_format_mac (fw_form F)) e \<inter> (\<lambda>k. fe_format_mac (fw_form F) (vk_mac k)) ` set ks = {}"
proof (cases "ce_ignored e")
  case True
  then show ?thesis using assms(1,3) by (auto simp: entries_ok_def entry_locks_def)
next
  case False
  then show ?thesis using assms(2-4) by (auto simp: any_lock_configured_iff)
qed

lemma create_entry_ok:
  assumes "flow_ok F s" "\<not> any_lock_configured (fe_format_mac (fw_form F)) ks None s"
  shows "flow_ok F (snd (create_entry title account ks s))"
proof -
  have "\<forall>e\<in>set (fl_entries s). entry_locks (fe_format_mac (fw_form F)) e
      \<inter> (\<lambda>k. fe_format_mac (fw_form F) (vk_mac k)) ` set ks = {}"
    using other_entries_disjoint [OF assms] by simp
  then have "entries_ok (fe_format_mac (fw_form F)) (fl_next s + 1)
      (filter (\<lambda>e. ce_unique e \<noteq> fl_unique s) (fl_entries s)
        @ [\<lparr>ce_id = fl_next s, ce_unique = fl_unique s, ce_title = title, ce_account = account, ce_keys = ks, ce_ignored = False\<rparr>])"
    by (intro entries_ok_append entries_ok_filter assms(1)) (simp_all add: entry_locks_def)
  then show ?thesis by (simp add: create_entry_def)
qed

lemma update_entry_ok:
  assumes ok: "flow_ok F s" and free: "\<not> any_lock_configured (fe_format_mac (fw_form F)) ks (Some i) s"
    and f: "\<And>e. ce_id (f e) = ce_id e \<and> ce_ignored (f e) = ce_ignored e \<and> ce_keys (f e) = ks"
    and live: "\<exists>e\<in>set (fl_entries s). ce_id e = i \<and> \<not> ce_ignored e"
  shows "flow_ok F (snd (update_entry i f s))"
proof -
  let ?fmt = "fe_format_mac (fw_form F)" and ?g = "\<lambda>e. if ce_id e = i then f e else e"
  have locks: "entry_locks ?fmt (f e) = (\<lambda>k. ?fmt (vk_mac k)) ` set ks" for e
    using f by (simp add: entry_locks_def)
  have ids: "map ce_id (map ?g (fl_entries s)) = map ce_id (fl_entries s)" using f by simp
  have only: "\<not> ce_ignored e" if "e \<in> set (fl_entries s)" "ce_id e = i" for e
    using live that ok by (auto simp: entries_ok_def distinct_map inj_on_def)
  have apart: "entry_locks ?fmt e \<inter> (\<lambda>k. ?fmt (vk_mac k)) ` set ks = {}"
    if "e \<in> set (fl_entries s)" "ce_id e \<noteq> i" for e
    using other_entries_disjoint [OF ok free that(1)] that(2) by simp
  have "entry_locks ?fmt (?g e) \<inter> entry_locks ?fmt (?g e') = {}"
    if "e \<in> set (fl_entries s)" "e' \<in> set (fl_entries s)" "ce_id e \<noteq> ce_id e'" for e e'
  proof -
    have "entry_locks ?fmt e \<inter> entry_locks ?fmt e' = {}" using that ok by (simp add: entries_ok_def)
    then show ?thesis using that apart [of e] apart [of e'] by (simp add: locks Int_commute)
  qed
  moreover have id: "ce_id (?g e) = ce_id e" for e using f by simp
  moreover have "\<not> ce_ignored (?g e)" if "e \<in> set (fl_entries s)" "ce_keys (?g e) \<noteq> []" for e
    using that only f ok by (auto simp: entries_ok_def split: if_splits)
  ultimately have "entries_ok ?fmt (fl_next s) (map ?g (fl_entries s))"
    using ok unfolding entries_ok_def ids set_map ball_simps id by blast
  then show ?thesis by (simp add: update_entry_def)
qed

subsection \<open>Cloud calls leave the entries alone\<close>

definition same_entries :: "'w flow \<Rightarrow> 'w flow \<Rightarrow> bool" where
  "same_entries s s' \<longleftrightarrow> fl_entries s' = fl_entries s \<and> fl_next s' = fl_next s"

lemma same_entries_refl [simp]: "same_entries s s"
  by (simp add: same_entries_def)

lemma request_verification_code_same: "same_entries s (snd (request_verification_code F s))"
  by (simp add: request_verification_code_def same_entries_def Let_def split: prod.splits)

lemma login_same: "same_entries s (snd (login_and_maybe_request_code F s))"
proof (cases "api_login (fw_cloud F) (fl_username s) (fl_password s) (fl_world s)")
  case (Pair r w)
  have "same_entries s (snd (request_verification_code F (s\<lparr>fl_world := w\<rparr>)))"
    using request_verification_code_same [of "s\<lparr>fl_world := w\<rparr>" F] by (simp add: same_entries_def)
  then show ?thesis using Pair
    by (simp add: login_and_maybe_request_code_def Let_def split: sum.splits api_error.splits) (simp add: same_entries_def)
qed

lemma validate_same: "same_entries s (snd (validate_code_and_login F pin s))"
  by (simp add: validate_code_and_login_def same_entries_def Let_def split: prod.splits)

lemma login_existing_same: "same_entries s (snd (login_for_existing_entry F s))"
  by (simp add: login_for_existing_entry_def same_entries_def Let_def split: prod.splits)

lemma fetch_keys_same: "same_entries s (snd (fetch_keys F s))"
  by (simp add: fetch_keys_def same_entries_def Let_def split: prod.splits)

lemma same_entries_ok: "same_entries s s' \<Longrightarrow> flow_ok F s \<Longrightarrow> flow_ok F s'"
  by (simp add: same_entries_def)

lemma set_unique_id_same: "same_entries s (snd (set_unique_id F u s))"
  by (simp add: set_unique_id_def same_entries_def)

lemma finalize_create_ok:
  assumes "flow_ok F s"
  shows "flow_ok F (snd (finalize_create_entry F s))"
proof (cases "fetch_keys F s")
  case (Pair r s1)
  have ok: "flow_ok F s1" using same_entries_ok [OF fetch_keys_same assms] Pair by (metis snd_conv)
  show ?thesis
  proof (cases r)
    case (Inl errors)
    then show ?thesis using Pair ok by (simp add: finalize_create_entry_def)
  next
    case (Inr ks)
    then show ?thesis using Pair ok create_entry_ok [OF ok, of ks]
      by (simp add: finalize_create_entry_def Let_def split: prod.splits) (metis snd_conv)
  qed
qed

lemma finalize_update_ok:
  assumes "flow_ok F s" "e \<in> set (fl_entries s)" "\<not> ce_ignored e"
  shows "flow_ok F (snd (finalize_update_entry F e s))"
proof (cases "fetch_keys F s")
  case (Pair r s1)
  have same: "same_entries s s1" using fetch_keys_same [of s F] Pair by simp
  then have ok: "flow_ok F s1" using same_entries_ok assms(1) by blast
  have live: "\<exists>x\<in>set (fl_entries s1). ce_id x = ce_id e \<and> \<not> ce_ignored x"
    using same assms(2,3) by (auto simp: same_entries_def)
  show ?thesis
  proof (cases r)
    case (Inl errors)
    then show ?thesis using Pair ok by (simp add: finalize_update_entry_def)
  next
    case (Inr ks)
    then show ?thesis using Pair ok update_entry_ok [OF ok, of ks "ce_id e"
        "\<lambda>x. x\<lparr>ce_account := Some (fl_username s1, fl_password s1), ce_keys := ks\<rparr>"] live
      by (simp add: finalize_update_entry_def Let_def split: prod.splits) (metis snd_conv)
  qed
qed

subsection \<open>The steps keep the invariant\<close>

lemma step_cloud_ok:
  assumes "flow_ok F s"
  shows "flow_ok F (snd (step_cloud F inp s))"
proof (cases inp)
  case (Some c)
  obtain user pw where c: "c = (user, pw)" by (cases c)
  obtain r s1 where u: "set_unique_id F (fw_slugify F user) s = (r, s1)" by (cases "set_unique_id F (fw_slugify F user) s")
  have ok1: "flow_ok F s1" using same_entries_ok [OF set_unique_id_same assms, of F "fw_slugify F user"] u by simp
  obtain l s2 where l: "login_and_maybe_request_code F (s1\<lparr>fl_username := user, fl_password := pw\<rparr>) = (l, s2)"
    by (cases "login_and_maybe_request_code F (s1\<lparr>fl_username := user, fl_password := pw\<rparr>)")
  have ok2: "flow_ok F s2"
    using same_entries_ok [OF login_same [of "s1\<lparr>fl_username := user, fl_password := pw\<rparr>" F], of F] l ok1 by simp
  obtain q s3 where q: "finalize_create_entry F s2 = (q, s3)" by (cases "finalize_create_entry F s2")
  have ok3: "flow_ok F s3" using finalize_create_ok [OF ok2] q by simp
  show ?thesis using ok1 ok2 ok3 Some c u l q
    by (simp add: step_cloud_def split: option.splits sum.splits)
qed (use assms in \<open>simp add: step_cloud_def\<close>)

lemma step_verify_ok:
  assumes "flow_ok F s"
  shows "flow_ok F (snd (step_verify_code F inp s))"
proof (cases inp)
  case (Some pin)
  obtain r s1 where u: "validate_code_and_login F pin s = (r, s1)" by (cases "validate_code_and_login F pin s")
  have ok1: "flow_ok F s1" using same_entries_ok [OF validate_same assms, of F pin] u by simp
  obtain q s2 where q: "finalize_create_entry F s1 = (q, s2)" by (cases "finalize_create_entry F s1")
  have ok2: "flow_ok F s2" using finalize_create_ok [OF ok1] q by simp
  show ?thesis using ok1 ok2 Some u q by (simp add: step_verify_code_def split: option.splits sum.splits)
qed (use assms in \<open>simp add: step_verify_code_def\<close>)

lemma step_manual_ok:
  assumes "flow_ok F s"
  shows "flow_ok F (snd (step_manual F inp s))"
proof (cases "\<exists>u k. inp = Some u \<and> form_validate (fw_form F) u = [] \<and> form_build u = Inr k")
  case True
  then obtain u k where u: "inp = Some u" "form_validate (fw_form F) u = []" "form_build u = Inr k" by blast
  obtain r s1 where q: "set_unique_id F (fe_format_mac (fw_form F) (vk_mac k)) s = (r, s1)"
    by (cases "set_unique_id F (fe_format_mac (fw_form F) (vk_mac k)) s")
  have ok1: "flow_ok F s1" using same_entries_ok [OF set_unique_id_same assms] q by (metis snd_conv)
  show ?thesis using ok1 u q create_entry_ok [OF ok1, of "[k]"]
    by (simp add: step_manual_def lock_configured_any split: option.splits)
next
  case False
  then show ?thesis using assms by (auto simp: step_manual_def Let_def split: option.splits sum.splits)
qed

lemma step_credentials_ok:
  assumes "flow_ok F s" "e \<in> set (fl_entries s)" "\<not> ce_ignored e"
  shows "flow_ok F (snd (step_credentials_for_entry F e step inp s))"
proof (cases inp)
  case (Some c)
  obtain user pw where c: "c = (user, pw)" by (cases c)
  obtain r s1 where u: "set_unique_id F (fw_slugify F user) s = (r, s1)" by (cases "set_unique_id F (fw_slugify F user) s")
  have same1: "same_entries s s1" using set_unique_id_same [of s F "fw_slugify F user"] u by simp
  let ?s1 = "s1\<lparr>fl_username := user, fl_password := pw\<rparr>"
  obtain l s2 where l: "login_for_existing_entry F ?s1 = (l, s2)" by (cases "login_for_existing_entry F ?s1")
  have same2: "same_entries s s2"
    using login_existing_same [of ?s1 F] l same1 by (simp add: same_entries_def)
  obtain q s3 where q: "finalize_update_entry F e s2 = (q, s3)" by (cases "finalize_update_entry F e s2")
  have "flow_ok F s1" "flow_ok F s2" using same_entries_ok same1 same2 assms(1) by blast+
  moreover have "flow_ok F s3"
    using finalize_update_ok [OF \<open>flow_ok F s2\<close>, of e] q same2 assms(2,3) by (simp add: same_entries_def)
  ultimately show ?thesis using Some c u l q
    by (simp add: step_credentials_for_entry_def split: option.splits sum.splits)
qed (use assms in \<open>simp add: step_credentials_for_entry_def\<close>)

lemma step_reconfigure_manual_ok:
  assumes "flow_ok F s" "e \<in> set (fl_entries s)" "\<not> ce_ignored e"
  shows "flow_ok F (snd (step_reconfigure_manual F e inp s))"
proof (cases "\<exists>u k. inp = Some u \<and> form_validate (fw_form F) u = [] \<and> form_build u = Inr k")
  case True
  then obtain u k where u: "inp = Some u" "form_validate (fw_form F) u = []" "form_build u = Inr k" by blast
  have "\<exists>x\<in>set (fl_entries s). ce_id x = ce_id e \<and> \<not> ce_ignored x" using assms(2,3) by blast
  then show ?thesis using assms(1) u update_entry_ok [OF assms(1), of "[k]" "ce_id e"
      "\<lambda>x. x\<lparr>ce_unique := fe_format_mac (fw_form F) (vk_mac k), ce_title := vk_alias k, ce_keys := [k]\<rparr>"]
    by (simp add: step_reconfigure_manual_def lock_configured_any)
next
  case False
  then show ?thesis using assms(1) by (auto simp: step_reconfigure_manual_def Let_def split: option.splits sum.splits)
qed

lemma flow_reach_ok: "flow_reach F s \<Longrightarrow> flow_ok F s"
proof (induction rule: flow_reach.induct)
  case (start n u a p w)
  then show ?case by (simp add: entries_ok_def)
next
  case (reconfigure s e inp)
  then show ?case using step_credentials_ok step_reconfigure_manual_ok by (metis step_reconfigure_def)
next
  case (ignored s u t)
  then show ?case
    using entries_ok_append [OF ignored.IH, of "\<lparr>ce_id = fl_next s, ce_unique = u, ce_title = t,
      ce_account = None, ce_keys = [], ce_ignored = True\<rparr>"] by (simp add: entry_locks_def)
next
  case (removed s i)
  then show ?case by (simp add: entries_ok_filter)
qed (simp_all add: step_cloud_ok step_verify_ok step_manual_ok step_reauth_confirm_def step_credentials_ok
  step_reconfigure_manual_ok)

lemma entries_ok_nth:
  assumes "entries_ok fmt n es" "i < j" "j < length es"
  shows "ce_id (es ! i) \<noteq> ce_id (es ! j)" "entry_locks fmt (es ! i) \<inter> entry_locks fmt (es ! j) = {}"
proof -
  show "ce_id (es ! i) \<noteq> ce_id (es ! j)"
    using assms nth_eq_iff_index_eq [of "map ce_id es" i j] by (simp add: entries_ok_def)
  then show "entry_locks fmt (es ! i) \<inter> entry_locks fmt (es ! j) = {}"
    using assms by (simp add: entries_ok_def)
qed

text \<open>
  Claim C10. However the steps of config flows interleave (cloud accounts with and without a
  verification code, manual keys, reauthentication, both reconfigurations, ignored discoveries,
  deleted entries), two config entries never share their id and never hold the same lock under
  Home Assistant's formatting of MAC addresses.
\<close>

theorem config_entries_exclusive:
  assumes "flow_reach F s" "i < j" "j < length (fl_entries s)"
  shows "ce_id (fl_entries s ! i) \<noteq> ce_id (fl_entries s ! j)
    \<and> set (map (fe_format_mac (fw_form F) \<circ> vk_mac) (ce_keys (fl_entries s ! i)))
      \<inter> set (map (fe_format_mac (fw_form F) \<circ> vk_mac) (ce_keys (fl_entries s ! j))) = {}"
  using entries_ok_nth [OF flow_reach_ok [OF assms(1)] assms(2,3)] by (simp add: entry_locks_def o_def)

text \<open>A cloud account of two locks, and manual keys: one new, one of the account's locks.\<close>

definition sample_manual :: "string \<Rightarrow> manual_input" where
  "sample_manual mac = \<lparr>mk_mac = mac, mk_aes = replicate 32 (CHR ''0''), mk_unlock = ''1234'', mk_admin = None,
     mk_name = None, mk_protocol_type = 5, mk_protocol_version = 3, mk_scene = 2, mk_group = 1, mk_org = 1\<rparr>"

definition sample_key :: "string \<Rightarrow> virtual_key" where
  "sample_key mac = \<lparr>vk_mac = mac, vk_alias = ''Door'', vk_name = ''Door'', vk_protocol_type = 5,
     vk_protocol_version = 3, vk_scene = 2, vk_group = 1, vk_org = 1, vk_aes = replicate 32 (CHR ''0''),
     vk_unlock = ''1234'', vk_admin = []\<rparr>"

definition sample_cloud :: "unit cloud_env" where
  "sample_cloud = \<lparr>cl_discover = (\<lambda>w. (Inl (CloudError [] ''no site''), w)), cl_login = (\<lambda>u p w. (Inr (), w)),
     cl_request_code = (\<lambda>u w. (Inr (), w)), cl_validate = (\<lambda>u p w. (Inr (), w)),
     cl_list = (\<lambda>w. (Inr [sample_key ''AA:BB:CC:DD:EE:01'', sample_key ''AA:BB:CC:DD:EE:02''], w))\<rparr>"

definition sample_flow_env :: "unit flow_env" where
  "sample_flow_env = \<lparr>fw_cloud = sample_cloud, fw_form = \<lparr>fe_last_info = (\<lambda>m. None), fe_decode = (\<lambda>c p. None),
     fe_format_mac = py_lower\<rparr>, fw_slugify = (\<lambda>u. u), fw_in_progress = (\<lambda>u w. False)\<rparr>"

definition sample_flow :: "unit flow" where
  "sample_flow = \<lparr>fl_entries = [], fl_next = 0, fl_unique = [], fl_username = [], fl_password = [], fl_world = ()\<rparr>"

definition sample_entries :: "unit flow" where
  "sample_entries = snd (step_manual sample_flow_env (Some (sample_manual ''aa-bb-cc-dd-ee-02''))
     (snd (step_manual sample_flow_env (Some (sample_manual ''aa:bb:cc:dd:ee:03''))
       (snd (step_cloud sample_flow_env (Some (''me'', ''secret'')) sample_flow)))))"

lemma sample_entries_macs:
  "map (map vk_mac \<circ> ce_keys) (fl_entries sample_entries)
    = [[''AA:BB:CC:DD:EE:01'', ''AA:BB:CC:DD:EE:02''], [''AA:BB:CC:DD:EE:03'']]"
  by code_simp

lemma sample_entries_length: "length (fl_entries sample_entries) = 2"
  using sample_entries_macs by (metis length_map length_Cons list.size(3) numeral_2_eq_2)

lemma sample_entries_reach: "flow_reach sample_flow_env sample_entries"
  unfolding sample_entries_def sample_flow_def
  by (intro flow_reach.manual flow_reach.cloud flow_reach.start)

theorem config_entries_exclusive_witness:
  "map (map vk_mac \<circ> ce_keys) (fl_entries sample_entries)
      = [[''AA:BB:CC:DD:EE:01'', ''AA:BB:CC:DD:EE:02''], [''AA:BB:CC:DD:EE:03'']]
    \<and> ce_id (fl_entries sample_entries ! 0) \<noteq> ce_id (fl_entries sample_entries ! 1)
    \<and> set (map (fe_format_mac (fw_form sample_flow_env) \<circ> vk_mac) (ce_keys (fl_entries sample_entries ! 0)))
      \<inter> set (map (fe_format_mac (fw_form sample_flow_env) \<circ> vk_mac) (ce_keys (fl_entries sample_entries ! 1))) = {}"
  using sample_entries_macs sample_entries_length config_entries_exclusive [OF sample_entries_reach, of 0 1] by simp

end
