(* ===== verification/EntrySetup.thy ===== *)
theory EntrySetup
  imports Services AccessRecords Coordinator ManualKey
begin

section \<open>Setting up and unloading a config entry (__init__.py, options_flow.py)\<close>

text \<open>
  From the options and keys of an entry to its connections, coordinator and subscriptions, and
  back: the stale devices that are removed, the callbacks registered for unloading and what they
  do. Home Assistant runs those callbacks last-registered first, after a setup that failed as
  well as after an unload, and logs what one of them raises. Loading the platforms is a
  parameter, and so is which errors of a storage are \<open>HomeAssistantError\<close> or \<open>OSError\<close>.
\<close>

subsection \<open>Options\<close>

definition DEFAULT_SCAN_INTERVAL_SECONDS :: rat where "DEFAULT_SCAN_INTERVAL_SECONDS = 3600"
definition MIN_SCAN_INTERVAL_SECONDS :: rat where "MIN_SCAN_INTERVAL_SECONDS = 60"
definition DEFAULT_RECONNECT_INTERVAL_SECONDS :: rat where "DEFAULT_RECONNECT_INTERVAL_SECONDS = 300"
definition MIN_RECONNECT_INTERVAL_SECONDS :: rat where "MIN_RECONNECT_INTERVAL_SECONDS = 10"

record entry_options =
  op_scan :: "rat option"
  op_reconnect :: "rat option"
  op_background :: "bool option"
  op_permanent :: "bool option"

definition get_or :: "'a option \<Rightarrow> 'a \<Rightarrow> 'a" where
  "get_or x d = (case x of None \<Rightarrow> d | Some v \<Rightarrow> v)"

definition permanent_connection :: "entry_options \<Rightarrow> bool" where
  "permanent_connection opts = get_or (op_permanent opts) False"

definition background_maintenance :: "entry_options \<Rightarrow> bool" where
  "background_maintenance opts \<longleftrightarrow> permanent_connection opts \<or> get_or (op_background opts) (op_reconnect opts \<noteq> None)"

definition reconnect_cooldown :: "entry_options \<Rightarrow> rat" where
  "reconnect_cooldown opts = (if permanent_connection opts then 0
     else get_or (op_reconnect opts) DEFAULT_RECONNECT_INTERVAL_SECONDS)"

text \<open>\<open>int(x)\<close> rounds towards zero.\<close>

definition scan_interval_seconds :: "entry_options \<Rightarrow> int" where
  "scan_interval_seconds opts = (let x = get_or (op_scan opts) DEFAULT_SCAN_INTERVAL_SECONDS in
     if 0 \<le> x then \<lfloor>x\<rfloor> else \<lceil>x\<rceil>)"

text \<open>
  The options flow: the values its form starts from, the check of the selectors, and the options
  it stores.
\<close>

record options_form =
  of_scan :: rat
  of_reconnect :: rat
  of_background :: bool
  of_permanent :: bool

definition options_defaults :: "entry_options \<Rightarrow> options_form" where
  "options_defaults opts = \<lparr>of_scan = get_or (op_scan opts) DEFAULT_SCAN_INTERVAL_SECONDS,
     of_reconnect = get_or (op_reconnect opts) DEFAULT_RECONNECT_INTERVAL_SECONDS,
     of_background = get_or (op_background opts) (op_reconnect opts \<noteq> None),
     of_permanent = get_or (op_permanent opts) False\<rparr>"

definition options_valid :: "options_form \<Rightarrow> bool" where
  "options_valid f \<longleftrightarrow> MIN_SCAN_INTERVAL_SECONDS \<le> of_scan f \<and> MIN_RECONNECT_INTERVAL_SECONDS \<le> of_reconnect f"

definition options_step_init :: "options_form option \<Rightarrow> entry_options \<Rightarrow> options_form + entry_options" where
  "options_step_init inp opts = (case inp of
     None \<Rightarrow> Inl (options_defaults opts)
   | Some f \<Rightarrow> if \<not> options_valid f then Inl f
       else Inr \<lparr>op_scan = Some (of_scan f), op_reconnect = Some (of_reconnect f),
         op_background = Some (of_background f), op_permanent = Some (of_permanent f)\<rparr>)"

subsection \<open>Devices\<close>

type_synonym device = "string \<times> (string \<times> string) list"

definition configured_macs :: "(string \<Rightarrow> string) \<Rightarrow> virtual_key list \<Rightarrow> string set" where
  "configured_macs fmt ks = set (map (fmt \<circ> vk_mac) ks)"

definition prune_stale_devices :: "(string \<Rightarrow> string) \<Rightarrow> virtual_key list \<Rightarrow> device list \<Rightarrow> device list" where
  "prune_stale_devices fmt ks ds = filter (\<lambda>(i, identifiers). device_macs identifiers \<inter> configured_macs fmt ks \<noteq> {}) ds"

definition remove_config_entry_device :: "(string \<Rightarrow> string) \<Rightarrow> virtual_key list \<Rightarrow> device \<Rightarrow> bool" where
  "remove_config_entry_device fmt ks d \<longleftrightarrow> device_macs (snd d) \<inter> configured_macs fmt ks = {}"

subsection \<open>Setup\<close>

datatype unload_callback = StopConnections | StopTracking | SaveHistory | RemoveUpdateListener

record 'w entry_state =
  en_devices :: "device list"
  en_connections :: "(string, 'w conn) dict"
  en_coord :: "coord option"
  en_scan :: int
  en_records :: bool
  en_history :: "log_history option"
  en_tracking :: "string list"
  en_first_refresh :: bool
  en_update_listener :: bool
  en_on_unload :: "unload_callback list"
  en_stored :: "json option"

definition fresh_entry :: "device list \<Rightarrow> json option \<Rightarrow> 'w entry_state" where
  "fresh_entry ds stored = \<lparr>en_devices = ds, en_connections = [], en_coord = None, en_scan = 0, en_records = False,
     en_history = None, en_tracking = [], en_first_refresh = False, en_update_listener = False,
     en_on_unload = [], en_stored = stored\<rparr>"

text \<open>
  \<open>ue_world\<close> is the world a new connection to a lock starts in, \<open>ue_platforms\<close> the outcome of
  forwarding the entry to its platforms.
\<close>

record ('v, 'w) setup_env =
  ue_format_mac :: "string \<Rightarrow> string"
  ue_store :: "'v store_env"
  ue_store_world :: 'v
  ue_private :: "json option"
  ue_storage_error :: "exn \<Rightarrow> bool"
  ue_now :: datetime
  ue_world :: "string \<Rightarrow> 'w"
  ue_platforms :: "exn + unit"

text \<open>\<open>except ValueError, HomeAssistantError, OSError\<close>; a \<open>TimeoutError\<close> is an \<open>OSError\<close>.\<close>

definition metadata_unavailable :: "('v, 'w) setup_env \<Rightarrow> exn \<Rightarrow> bool" where
  "metadata_unavailable U e = (case e of ValueErr _ \<Rightarrow> True | TimeoutErr _ \<Rightarrow> True | _ \<Rightarrow> ue_storage_error U e)"

definition load_private :: "('v, 'w) setup_env \<Rightarrow> exn + bool" where
  "load_private U = (case fst (access_load (ue_store U) (new_access_store (ue_private U) (ue_store_world U))) of
     Inr _ \<Rightarrow> Inr True
   | Inl e \<Rightarrow> if metadata_unavailable U e then Inr False else Inl e)"

text \<open>A dict by address: of two keys for one address the later one wins.\<close>

definition new_connections ::
  "(string \<Rightarrow> 'w) \<Rightarrow> rat \<Rightarrow> log_history \<Rightarrow> virtual_key list \<Rightarrow> (string, 'w conn) dict" where
  "new_connections wof cool h ks =
     fold (\<lambda>k. dict_set (vk_mac k) (new_conn (vk_mac k) (vk_admin k) cool h (wof (vk_mac k)))) ks []"

definition start_connections :: "bool \<Rightarrow> (string, 'w conn) dict \<Rightarrow> (string, 'w conn) dict" where
  "start_connections maintain = map (\<lambda>(mac, c). (mac, async_start maintain c))"

text \<open>
  \<open>async_register\<close>: one passive subscription per key, by its address. Home Assistant's Bluetooth
  manager is taken to accept every subscription: between the start of the connections and the
  registration of the unload callbacks no step raises.
\<close>

definition register_tracking :: "virtual_key list \<Rightarrow> string list" where
  "register_tracking ks = map vk_mac ks"

definition setup_entry ::
  "('v, 'w) setup_env \<Rightarrow> entry_options \<Rightarrow> virtual_key list \<Rightarrow> 'w entry_state \<Rightarrow> (exn + bool) \<times> 'w entry_state" where
  "setup_entry U opts ks s =
     (let s1 = s\<lparr>en_devices := prune_stale_devices (ue_format_mac U) ks (en_devices s)\<rparr> in
      case load_private U of
        Inl e \<Rightarrow> (Inl e, s1)
      | Inr available \<Rightarrow>
         (let h = history_load (en_stored s1) (new_history (ue_now U) True);
              cs = start_connections (background_maintenance opts)
                     (new_connections (ue_world U) (reconnect_cooldown opts) h ks);
              s2 = s1\<lparr>en_records := available, en_history := Some h, en_connections := cs,
                en_scan := scan_interval_seconds opts, en_coord := Some (new_coord (map fst cs)),
                en_tracking := register_tracking ks,
                en_on_unload := en_on_unload s1 @ [StopConnections, StopTracking, SaveHistory],
                en_first_refresh := True\<rparr>
          in case ue_platforms U of
               Inl e \<Rightarrow> (Inl e, s2)
             | Inr _ \<Rightarrow> (Inr True, s2\<lparr>en_update_listener := True,
                 en_on_unload := en_on_unload s2 @ [RemoveUpdateListener]\<rparr>)))"

subsection \<open>Unload\<close>

text \<open>The loop of \<open>_stop_connections\<close>: what the first stop to raise raises ends it.\<close>

fun stop_all :: "('k \<Rightarrow> ('c, unit) eff) \<Rightarrow> ('k, 'c) dict \<Rightarrow> (exn + unit) \<times> ('k, 'c) dict" where
  "stop_all stop [] = (Inr (), [])"
| "stop_all stop ((k, c) # others) = (case stop k c of
     (Inl e, c') \<Rightarrow> (Inl e, (k, c') # others)
   | (Inr _, c') \<Rightarrow> (let (r, others') = stop_all stop others in (r, (k, c') # others')))"

definition stop_connections :: "(string \<Rightarrow> 'w env) \<Rightarrow> (string, 'w conn) dict \<Rightarrow> (exn + unit) \<times> (string, 'w conn) dict" where
  "stop_connections EE = stop_all (\<lambda>mac. async_stop (EE mac))"

fun run_callback :: "(string \<Rightarrow> 'w env) \<Rightarrow> unload_callback \<Rightarrow> 'w entry_state \<Rightarrow> 'w entry_state" where
  "run_callback EE StopConnections s = s\<lparr>en_connections := snd (stop_connections EE (en_connections s))\<rparr>"
| "run_callback EE StopTracking s = s\<lparr>en_tracking := []\<rparr>"
| "run_callback EE SaveHistory s = s\<lparr>en_stored := (case Option.bind (en_history s) history_save of
     None \<Rightarrow> en_stored s | Some j \<Rightarrow> Some j)\<rparr>"
| "run_callback EE RemoveUpdateListener s = s\<lparr>en_update_listener := False\<rparr>"

definition run_on_unload :: "(string \<Rightarrow> 'w env) \<Rightarrow> 'w entry_state \<Rightarrow> 'w entry_state" where
  "run_on_unload EE s = (fold (run_callback EE) (rev (en_on_unload s)) s)\<lparr>en_on_unload := []\<rparr>"

text \<open>
  \<open>async_unload_entry\<close>, and what Home Assistant does after it returned: the callbacks run when
  the platforms could be unloaded.
\<close>

definition unload_entry :: "(string \<Rightarrow> 'w env) \<Rightarrow> bool \<Rightarrow> 'w entry_state \<Rightarrow> bool \<times> 'w entry_state" where
  "unload_entry EE platforms_unloaded s = (let s1 = s\<lparr>en_first_refresh := False\<rparr> in
     if platforms_unloaded then (True, run_on_unload EE s1) else (False, s1))"

text \<open>\<open>async_setup_entry\<close> under Home Assistant: after a failure the callbacks registered so far run.\<close>

definition setup_or_clean_up ::
  "(string \<Rightarrow> 'w env) \<Rightarrow> ('v, 'w) setup_env \<Rightarrow> entry_options \<Rightarrow> virtual_key list \<Rightarrow> 'w entry_state \<Rightarrow>
   (exn + bool) \<times> 'w entry_state" where
  "setup_or_clean_up EE U opts ks s = (case setup_entry U opts ks s of
     (Inl e, s') \<Rightarrow> (Inl e, run_on_unload EE s')
   | (Inr b, s') \<Rightarrow> (Inr b, s'))"

text \<open>
  \<open>async_remove_entry\<close>, after an unload: a store object of its own, over the file \<open>stored\<close>, removes
  the private metadata of the entry.
\<close>

definition remove_entry :: "'v store_env \<Rightarrow> json option \<Rightarrow> 'v \<Rightarrow> (exn + unit) \<times> 'v access_store" where
  "remove_entry V stored w = access_remove V (new_access_store stored w)"

end
