(* ===== verification/EntryProps.thy ===== *)
theory EntryProps
  imports EntrySetup ConnProps
begin

section \<open>Properties of setup and unload\<close>

text \<open>
  What unloading leaves behind, which devices stay, and that the options form is neutral.
\<close>

subsection \<open>Devices and options\<close>

lemma prune_exact:
  "set (prune_stale_devices fmt ks ds) = {d \<in> set ds. \<not> remove_config_entry_device fmt ks d}"
  by (auto simp: prune_stale_devices_def remove_config_entry_device_def)

text \<open>
  Submitting the options form as it is shown changes nothing: the same reconnect
  cooldown, the same scan interval and the same choice of background maintenance and permanent
  connection, also for an entry whose options were never set or were set before the newer
  options existed.
\<close>

lemma options_form_neutral:
  assumes "options_step_init None opts = Inl f" and "options_step_init (Some f) opts = Inr opts'"
  shows "permanent_connection opts' = permanent_connection opts
    \<and> background_maintenance opts' = background_maintenance opts
    \<and> reconnect_cooldown opts' = reconnect_cooldown opts
    \<and> scan_interval_seconds opts' = scan_interval_seconds opts
    \<and> options_step_init None opts' = Inl f"
proof -
  have f: "f = options_defaults opts" using assms(1) by (simp add: options_step_init_def)
  have "opts' = \<lparr>op_scan = Some (of_scan f), op_reconnect = Some (of_reconnect f),
      op_background = Some (of_background f), op_permanent = Some (of_permanent f)\<rparr>"
    using assms(2) by (simp add: options_step_init_def split: if_splits)
  then show ?thesis
    by (simp add: f options_step_init_def options_defaults_def permanent_connection_def background_maintenance_def
      reconnect_cooldown_def scan_interval_seconds_def get_or_def)
qed

definition sample_options :: entry_options where
  "sample_options = \<lparr>op_scan = None, op_reconnect = Some 60, op_background = None, op_permanent = None\<rparr>"

lemma options_form_neutral_witness:
  "\<exists>opts'. options_step_init (Some (options_defaults sample_options)) sample_options = Inr opts'
    \<and> background_maintenance opts' \<and> reconnect_cooldown opts' = 60 \<and> op_background opts' \<noteq> op_background sample_options"
proof -
  have show_form: "options_step_init None sample_options = Inl (options_defaults sample_options)"
    by (simp add: options_step_init_def)
  obtain opts' where step: "options_step_init (Some (options_defaults sample_options)) sample_options = Inr opts'"
    and bg: "op_background opts' = Some True"
    by (simp add: options_step_init_def options_defaults_def options_valid_def sample_options_def get_or_def
      MIN_SCAN_INTERVAL_SECONDS_def MIN_RECONNECT_INTERVAL_SECONDS_def DEFAULT_SCAN_INTERVAL_SECONDS_def)
  have "background_maintenance sample_options" "reconnect_cooldown sample_options = 60" "op_background sample_options = None"
    by (simp_all add: background_maintenance_def reconnect_cooldown_def permanent_connection_def sample_options_def get_or_def)
  then show ?thesis using step bg options_form_neutral [OF show_form step] by auto
qed

subsection \<open>Unloading\<close>

text \<open>
  What unloading relies on: stopping something usable either raises or leaves it released. The
  loop over all of them then releases every one, unless one of them raises.
\<close>

locale stoppable =
  fixes stop :: "'k \<Rightarrow> ('c, unit) eff"
    and usable :: "'c \<Rightarrow> bool"
    and freed :: "'c \<Rightarrow> bool"
  assumes stop_frees: "usable c \<Longrightarrow> stop k c = (Inr u, c') \<Longrightarrow> freed c'"
begin

lemma all_freed:
  "list_all (usable \<circ> snd) cs \<Longrightarrow> fst (stop_all stop cs) = Inr u \<Longrightarrow> list_all (freed \<circ> snd) (snd (stop_all stop cs))"
proof (induction cs)
  case (Cons x cs)
  then show ?case by (cases x) (auto split: prod.splits sum.splits intro: stop_frees)
qed simp

lemma same_keys: "map fst (snd (stop_all stop cs)) = map fst cs"
proof (induction cs)
  case (Cons x cs)
  then show ?case by (cases x) (auto split: prod.splits sum.splits)
qed simp

lemma first_failure_ends: "fst (stop k c) = Inl e \<Longrightarrow> stop_all stop ((k, c) # others) = (Inl e, (k, snd (stop k c)) # others)"
  by (cases "stop k c") simp

end

definition released :: "'w conn \<Rightarrow> bool" where
  "released c \<longleftrightarrow> client c = None \<and> pending c = None \<and> closing c \<and> closing_event c \<and> \<not> broadcast_connected c"

lemma async_stop_released:
  assumes "at_rest c" "async_stop E c = (Inr u, c')"
  shows "released c'"
  using triple_result [OF stop_triple [of E] assms]
  by (auto simp: released_def stopped_def owned_None at_rest_def own_inv_def)

interpretation connections: stoppable "\<lambda>mac. async_stop (EE mac)" at_rest released for EE :: "string \<Rightarrow> 'w env"
  by unfold_locales (rule async_stop_released)

lemma setup_callbacks:
  assumes "setup_entry U opts ks (fresh_entry ds stored) = (r, s)"
  shows "(en_connections s = [] \<and> en_tracking s = [] \<and> \<not> en_update_listener s \<and> en_on_unload s = [] \<and> isl r)
    \<or> (en_on_unload s = [StopConnections, StopTracking, SaveHistory] \<and> \<not> en_update_listener s \<and> isl r)
    \<or> (en_on_unload s = [StopConnections, StopTracking, SaveHistory, RemoveUpdateListener] \<and> r = Inr True)"
proof (cases "load_private U")
  case (Inl e)
  show ?thesis using assms unfolding setup_entry_def fresh_entry_def Inl by auto
next
  case (Inr available)
  show ?thesis using assms unfolding setup_entry_def fresh_entry_def Inr Let_def
    by (cases "ue_platforms U") auto
qed

text \<open>The connections are stopped last, when nothing feeds them any more.\<close>

lemma unload_order:
  assumes "en_on_unload s = StopConnections # StopTracking # SaveHistory # more_callbacks"
    and "more_callbacks = [] \<or> more_callbacks = [RemoveUpdateListener]"
  shows "\<exists>s1. en_tracking s1 = [] \<and> en_connections s1 = en_connections s
    \<and> (en_update_listener s1 \<longrightarrow> en_update_listener s \<and> more_callbacks = [])
    \<and> run_on_unload EE s = (run_callback EE StopConnections s1)\<lparr>en_on_unload := []\<rparr>"
  using assms(2)
proof
  assume "more_callbacks = []"
  then show ?thesis using assms(1)
    by (intro exI [of _ "run_callback EE StopTracking (run_callback EE SaveHistory s)"]) (simp add: run_on_unload_def)
next
  assume "more_callbacks = [RemoveUpdateListener]"
  then show ?thesis using assms(1)
    by (intro exI [of _ "run_callback EE StopTracking (run_callback EE SaveHistory (run_callback EE RemoveUpdateListener s))"])
       (simp add: run_on_unload_def)
qed

text \<open>
  Claim C22. A config entry leaves nothing running: however its setup ended, and whatever its
  connections have done since, when every connection could be stopped the callbacks of the entry
  leave no advertisement subscription, no update listener and no owned client; every connection is
  closed and announced as down.
\<close>

theorem entry_unload_releases:
  assumes "setup_entry U opts ks (fresh_entry ds stored) = (r, s)"
    and "map fst cs = map fst (en_connections s)" and "list_all (at_rest \<circ> snd) cs"
    and "fst (stop_connections EE cs) = Inr ()"
  shows "let s' = run_on_unload EE (s\<lparr>en_connections := cs\<rparr>) in
    en_tracking s' = [] \<and> \<not> en_update_listener s' \<and> en_on_unload s' = []
    \<and> map fst (en_connections s') = map fst (en_connections s) \<and> list_all (released \<circ> snd) (en_connections s')"
proof (cases "en_on_unload s = []")
  case True
  then show ?thesis using setup_callbacks [OF assms(1)] assms(2) by (auto simp: run_on_unload_def Let_def)
next
  case False
  then obtain cbs where cbs: "en_on_unload s = StopConnections # StopTracking # SaveHistory # cbs"
      "cbs = [] \<and> \<not> en_update_listener s \<or> cbs = [RemoveUpdateListener]"
    using setup_callbacks [OF assms(1)] by auto
  have "\<exists>s1. en_tracking s1 = [] \<and> en_connections s1 = cs \<and> \<not> en_update_listener s1
      \<and> run_on_unload EE (s\<lparr>en_connections := cs\<rparr>) = (run_callback EE StopConnections s1)\<lparr>en_on_unload := []\<rparr>"
    using unload_order [of "s\<lparr>en_connections := cs\<rparr>" cbs EE] cbs by auto
  moreover have "list_all (released \<circ> snd) (snd (stop_connections EE cs))" "map fst (snd (stop_connections EE cs)) = map fst cs"
    using connections.all_freed [OF assms(3)] connections.same_keys assms(4) by (simp_all add: stop_connections_def)
  ultimately show ?thesis using assms(2) by (auto simp: Let_def)
qed

text \<open>The entry of one lock whose platforms fail to load after a command connected it.\<close>

definition sample_store_env :: "unit store_env" where
  "sample_store_env = \<lparr>v_lock = (\<lambda>w. ([], w)), v_save = (\<lambda>w. ((None, []), w)), v_load = (\<lambda>w. ((None, []), w)),
     v_remove = (\<lambda>w. ((None, []), w)), v_refs_load = (\<lambda>w. ((Inr (replicate 32 0), []), w)),
     v_refs_remove = (\<lambda>w. ((None, []), w)), v_monotonic = (\<lambda>w. (0, w)), v_token_hex = (\<lambda>w. ([], w))\<rparr>"

definition sample_setup :: "(unit, nat) setup_env" where
  "sample_setup = \<lparr>ue_format_mac = py_lower, ue_store = sample_store_env, ue_store_world = (), ue_private = None,
     ue_storage_error = (\<lambda>e. False), ue_now = DateTime 2026 8 24 12 0 0 0, ue_world = (\<lambda>m. 0),
     ue_platforms = Inl (OtherErr ''ImportError'')\<rparr>"

definition sample_lock_key :: virtual_key where
  "sample_lock_key = \<lparr>vk_mac = ''AA'', vk_alias = ''Door'', vk_name = ''Door'', vk_protocol_type = 5,
     vk_protocol_version = 3, vk_scene = 2, vk_group = 1, vk_org = 1, vk_aes = [], vk_unlock = ''1'', vk_admin = ''123''\<rparr>"

definition sample_entry :: "nat entry_state" where
  "sample_entry = snd (setup_entry sample_setup sample_options [sample_lock_key] (fresh_entry [] None))"

theorem entry_unload_releases_witness:
  "map (client \<circ> snd) (en_connections (sample_entry\<lparr>en_connections := [(''AA'', sample_locked)]\<rparr>)) = [Some 1]
    \<and> map (client \<circ> snd) (en_connections (run_on_unload (\<lambda>m. sample_env) (sample_entry\<lparr>en_connections := [(''AA'', sample_locked)]\<rparr>))) = [None]"
proof -
  have c: "client sample_locked = Some 1" by code_simp
  have keys: "map fst [(''AA'', sample_locked)] = map fst (en_connections sample_entry)" by code_simp
  have stop: "fst (stop_connections (\<lambda>m. sample_env) [(''AA'', sample_locked)]) = Inr ()" by code_simp
  have rest: "list_all (at_rest \<circ> snd) [(''AA'', sample_locked)]"
    using reach_at_rest [OF sample_locked_reach] by simp
  have begun: "setup_entry sample_setup sample_options [sample_lock_key] (fresh_entry [] None)
      = (fst (setup_entry sample_setup sample_options [sample_lock_key] (fresh_entry [] None)), sample_entry)"
    by (simp add: sample_entry_def)
  let ?s' = "run_on_unload (\<lambda>m. sample_env) (sample_entry\<lparr>en_connections := [(''AA'', sample_locked)]\<rparr>)"
  from entry_unload_releases [OF begun keys rest stop] keys
  have "map fst (en_connections ?s') = [''AA'']" "list_all (released \<circ> snd) (en_connections ?s')" by (simp_all add: Let_def)
  then show ?thesis using c by (cases "en_connections ?s'") (auto simp: released_def)
qed

subsection \<open>A teardown that cannot be confirmed\<close>

text \<open>
  The first connection that cannot be stopped ends the loop: the connections after it are not
  stopped at all. Here the second of two connected locks keeps its session and its reconnect
  loop after the entry is unloaded.
\<close>

lemma unload_leaves_connection_running:
  "snd (snd (stop_connections (\<lambda>m. if m = ''AA'' then sample_stuck else sample_env)
      [(''AA'', sample_locked), (''BB'', async_start True sample_locked)]) ! 1) = async_start True sample_locked
    \<and> client (async_start True sample_locked) = Some 1 \<and> maintaining (async_start True sample_locked)
    \<and> \<not> closing (async_start True sample_locked)"
proof -
  have "fst (async_stop sample_stuck sample_locked)
      = Inl (TTLockErr ''Could not confirm BLE disconnect for lock AA during shutdown'')" by code_simp
  then have "snd (stop_connections (\<lambda>m. if m = ''AA'' then sample_stuck else sample_env)
      [(''AA'', sample_locked), (''BB'', async_start True sample_locked)]) ! 1 = (''BB'', async_start True sample_locked)"
    unfolding stop_connections_def by (subst connections.first_failure_ends) auto
  moreover have "client (async_start True sample_locked) = Some 1 \<and> maintaining (async_start True sample_locked)
      \<and> \<not> closing (async_start True sample_locked)" by code_simp
  ultimately show ?thesis by simp
qed

subsection \<open>Deleting an entry\<close>

text \<open>A store without labels or settings, whose file, if there is one, has none either.\<close>

definition blank :: "'v access_store \<Rightarrow> bool" where
  "blank s \<longleftrightarrow> scopes s = [] \<and> legacy_set s = {} \<and> saved s \<in> {None, Some (store_json [] {})}"

lemma blank_frame [simp]:
  "blank (s\<lparr>store_world := v\<rparr>) = blank s" "blank (s\<lparr>refs_key := k, loaded := b\<rparr>) = blank s"
  by (simp_all add: blank_def)

lemma blank_stale: "blank s \<Longrightarrow> blank (fold stale_scope ks s)"
  by (induction ks arbitrary: s) (simp_all add: blank_def stale_scope_def)

lemma valid_blank: "valid_data (store_json [] {}) = Some ([], [])"
  by code_simp

text \<open>
  After the entry was deleted without an error nothing of its labels, references and settings is
  left: neither in memory nor in the file, so that an entry set up later under the same id, whose
  new store no other task knows while it loads, starts from nothing.
\<close>

lemma stale_scopes_keep:
  "scopes (fold stale_scope ks s) = scopes s \<and> legacy_set (fold stale_scope ks s) = legacy_set s
    \<and> saved (fold stale_scope ks s) = saved s"
  by (induction ks arbitrary: s) (simp_all add: stale_scope_def)

lemma removed_entry_forgets:
  assumes "remove_entry V stored w = (Inr u, s)"
  shows "blank s \<and> saved s = None"
  using assms
  by (auto simp: remove_entry_def access_remove_def take_lock_def storage_call_def store_step_def eff_defs
      forget_all_def blank_def stale_scopes_keep split: prod.splits sum.splits option.splits if_splits)

lemma blank_read:
  "blank s \<Longrightarrow> saved s = Some j \<Longrightarrow> valid_data j = Some (sc, lg) \<Longrightarrow> blank (s\<lparr>scopes := sc, legacy_set := set lg\<rparr>)"
  by (auto simp: blank_def valid_blank)

lemma load_after_removal:
  assumes "\<forall>w. fst (v_lock V w) = []" and "access_load V (new_access_store None w) = (r, s)"
  shows "blank s"
proof -
  have start: "blank (new_access_store None w)" by (simp add: blank_def new_access_store_def)
  have locked: "triple blank (take_lock V) (\<lambda>_. blank) (\<lambda>_. blank)"
    by (auto simp: triple_def take_lock_def store_step_def eff_defs assms(1))
  have called: "triple blank (storage_call f id) (\<lambda>_. blank) (\<lambda>_. blank)" for f
    by (auto simp: triple_def storage_call_def store_step_def eff_defs intro: blank_stale split: prod.splits option.splits)
  have refs: "triple blank (m_bind (store_step (v_refs_load V)) (\<lambda>(r, tickets).
           m_then (m_modify (fold stale_scope tickets))
            (case r of
               Inl e \<Rightarrow> m_raise e
             | Inr key \<Rightarrow> m_modify (\<lambda>s. s\<lparr>refs_key := Some key, loaded := True\<rparr>)))) (\<lambda>_. blank) (\<lambda>_. blank)"
    by (auto simp: triple_def store_step_def eff_defs intro: blank_stale split: prod.splits sum.splits)
  have found: "triple (\<lambda>s. blank s \<and> data = saved s) (case data of
            None \<Rightarrow> m_return ()
          | Some j \<Rightarrow> (case valid_data j of
              None \<Rightarrow> m_raise (ValueErr ''Private access metadata is invalid'')
            | Some (sc, lg) \<Rightarrow> m_modify (\<lambda>s. s\<lparr>scopes := sc, legacy_set := set lg\<rparr>))) (\<lambda>_. blank) (\<lambda>_. blank)" for data
    by (auto simp: triple_def eff_defs intro: blank_read split: option.splits)
  have "triple blank (access_load V) (\<lambda>_. blank) (\<lambda>_. blank)"
    unfolding access_load_def
    by (intro triple_then [OF locked] triple_bind_gets triple_if triple_return triple_pre [OF triple_then [OF called]]
        triple_then [OF found] refs) auto
  from triple_result [OF this start assms(2)] show ?thesis by (cases r) simp_all
qed

end
