(* ===== verification/EntityProps.thy ===== *)
theory EntityProps
  imports Entities ConfigProps
begin

section \<open>Properties of entities and diagnostics\<close>

text \<open>
  Ids under which the entities of different config entries are registered, the freshness sensor,
  and what the diagnostics dump cannot depend on.
\<close>

subsection \<open>Ids\<close>

lemma unique_id_inj [simp]:
  "lock_unique_id a = lock_unique_id b \<longleftrightarrow> a = b" "log_unique_id a = log_unique_id b \<longleftrightarrow> a = b"
  "connection_unique_id a = connection_unique_id b \<longleftrightarrow> a = b"
  "battery_unique_id a = battery_unique_id b \<longleftrightarrow> a = b" "verified_unique_id a = verified_unique_id b \<longleftrightarrow> a = b"
  by (simp_all add: lock_unique_id_def log_unique_id_def connection_unique_id_def battery_unique_id_def verified_unique_id_def)

lemma battery_not_verified [simp]: "battery_unique_id a \<noteq> verified_unique_id b" "verified_unique_id b \<noteq> battery_unique_id a"
proof -
  have "last (battery_unique_id a) \<noteq> last (verified_unique_id b)"
    by (simp add: battery_unique_id_def verified_unique_id_def)
  then show "battery_unique_id a \<noteq> verified_unique_id b" "verified_unique_id b \<noteq> battery_unique_id a" by auto
qed

lemma entity_ids_disjoint_macs:
  assumes "vk_mac ` set ks \<inter> vk_mac ` set ks' = {}"
  shows "set (entity_ids p ks) \<inter> set (entity_ids p ks') = {}"
  using assms by (cases p) (fastforce simp: entity_ids_def)+

text \<open>
  Claim C31. Two config entries never create entities that collide: whatever the history of the
  config flows, on every platform the unique ids of the entities of different entries are
  disjoint, and so are the identifiers of their devices.
\<close>

theorem entry_entities_disjoint:
  assumes "flow_reach F s" "i < j" "j < length (fl_entries s)"
  shows "set (entity_ids p (ce_keys (fl_entries s ! i))) \<inter> set (entity_ids p (ce_keys (fl_entries s ! j))) = {}
    \<and> (\<Union>k\<in>set (ce_keys (fl_entries s ! i)). set (di_identifiers (entity_device_info (fe_format_mac (fw_form F)) k)))
      \<inter> (\<Union>k\<in>set (ce_keys (fl_entries s ! j)). set (di_identifiers (entity_device_info (fe_format_mac (fw_form F)) k))) = {}"
proof -
  have "entry_locks (fe_format_mac (fw_form F)) (fl_entries s ! i) \<inter> entry_locks (fe_format_mac (fw_form F)) (fl_entries s ! j) = {}"
    by (rule entries_ok_nth [OF flow_reach_ok [OF assms(1)] assms(2,3)])
  then have apart: "\<forall>k\<in>set (ce_keys (fl_entries s ! i)). \<forall>k'\<in>set (ce_keys (fl_entries s ! j)).
      fe_format_mac (fw_form F) (vk_mac k) \<noteq> fe_format_mac (fw_form F) (vk_mac k')"
    by (auto simp: entry_locks_def)
  then have "vk_mac ` set (ce_keys (fl_entries s ! i)) \<inter> vk_mac ` set (ce_keys (fl_entries s ! j)) = {}"
    by fastforce
  from entity_ids_disjoint_macs [OF this] apart show ?thesis by (auto simp: entity_device_info_def)
qed

theorem entry_entities_disjoint_witness:
  "entity_ids Lock (ce_keys (fl_entries sample_entries ! 1)) = [''AA:BB:CC:DD:EE:03_lock'']
    \<and> set (entity_ids Lock (ce_keys (fl_entries sample_entries ! 0)))
      \<inter> set (entity_ids Lock (ce_keys (fl_entries sample_entries ! 1))) = {}"
proof -
  have ids: "entity_ids Lock (ce_keys (fl_entries sample_entries ! 1)) = [''AA:BB:CC:DD:EE:03_lock'']" by code_simp
  show ?thesis using ids entry_entities_disjoint [OF sample_entries_reach, of 0 1 Lock] sample_entries_length by simp
qed

subsection \<open>Freshness\<close>

text \<open>An advertisement never makes a state look verified; an authoritative state does, at once.\<close>

lemma request_refresh_attribution [simp]:
  "co_attribution (request_active_state_refresh mac s) = co_attribution s"
  "co_attribution (request_refresh s) = co_attribution s"
  by (simp_all add: request_active_state_refresh_def request_refresh_def)

lemma advertisement_keeps_freshness:
  "last_verified_state now utc mac (apply_advertisement mac' ad s) = last_verified_state now utc mac s"
  by (simp add: last_verified_state_def apply_advertisement_def update_listeners_def Let_def)

subsection \<open>Diagnostics\<close>

text \<open>
  What is documented of \<open>async_redact_data\<close>: it walks dicts and lists to any depth; a value under a
  key to redact that is neither \<open>None\<close> nor an empty text is replaced, whatever it is. So its
  result depends on nothing but what \<open>mask\<close> leaves.
\<close>

definition has_value :: "json \<Rightarrow> bool" where
  "has_value v \<longleftrightarrow> v \<noteq> JNull \<and> v \<noteq> JStr []"

fun mask :: "string set \<Rightarrow> json \<Rightarrow> json"
  and mask_fields :: "string set \<Rightarrow> (string \<times> json) list \<Rightarrow> (string \<times> json) list"
  and mask_items :: "string set \<Rightarrow> json list \<Rightarrow> json list" where
  "mask S (JDict d) = JDict (mask_fields S d)"
| "mask S (JList xs) = JList (mask_items S xs)"
| "mask S j = j"
| "mask_fields S [] = []"
| "mask_fields S ((k, v) # d) =
     (k, if k \<in> S \<and> has_value v then JStr ''**REDACTED**'' else mask S v) # mask_fields S d"
| "mask_items S [] = []"
| "mask_items S (x # xs) = mask S x # mask_items S xs"

definition redacts :: "(string set \<Rightarrow> json \<Rightarrow> json) \<Rightarrow> bool" where
  "redacts f \<longleftrightarrow> (\<forall>S j j'. mask S j = mask S j' \<longrightarrow> f S j = f S j')"

lemma mask_fields_has: "dict_get (mask_fields S d) k = None \<longleftrightarrow> dict_get d k = None"
  by (induction d) auto

lemma pick_fields_cong: "\<forall>f\<in>set fs. dict_get k f = dict_get k' f \<Longrightarrow> pick_fields fs k = pick_fields fs k'"
  by (induction fs) (auto split: option.splits sum.splits)

lemma map_raising_cong: "list_all2 (\<lambda>x y. f x = f y) xs ys \<Longrightarrow> map_raising f xs = map_raising f ys"
  by (induction xs ys rule: list_all2_induct) (auto split: sum.splits)

text \<open>
  The secrets of an entry, by the names they are stored under: the account, and the stored keys
  with their AES key, unlock key and administrator passcode; and the six fields of a stored key
  that may be shown. Both lists are written down here, not taken from the code.
\<close>

definition secret_names :: "string set" where
  "secret_names = {''username'', ''password'', ''keys'', ''aesKeyStr'', ''unlockKey'', ''adminPs''}"

definition public_key_fields :: "string list" where
  "public_key_fields = [''lockId'', ''lockMac'', ''lockAlias'', ''lockName'', ''keyType'', ''userType'']"

definition same_key :: "(string, json) dict \<Rightarrow> (string, json) dict \<Rightarrow> bool" where
  "same_key k k' \<longleftrightarrow> list_all (\<lambda>f. dict_get k f = dict_get k' f) public_key_fields"

text \<open>Entries that differ in nothing but the account and the secrets of their keys.\<close>

definition same_public :: "diag_entry \<Rightarrow> diag_entry \<Rightarrow> bool" where
  "same_public e e' \<longleftrightarrow> dg_version e = dg_version e' \<and> dg_domain e = dg_domain e'
     \<and> mask secret_names (JDict (dg_data e)) = mask secret_names (JDict (dg_data e'))
     \<and> mask secret_names (JDict (dg_options e)) = mask secret_names (JDict (dg_options e'))
     \<and> list_all2 same_key (dg_keys e) (dg_keys e')
     \<and> dg_state e = dg_state e' \<and> dg_attempts e = dg_attempts e'
     \<and> (dg_title e = dg_title e' \<or> dict_get (dg_data e) ''username'' \<noteq> None)"

lemma mask_same_names:
  assumes "mask S (JDict d) = mask S (JDict d')"
  shows "dict_get d k = None \<longleftrightarrow> dict_get d' k = None"
  using assms mask_fields_has [of S d k] mask_fields_has [of S d' k] by simp

text \<open>
  Claim C29. A diagnostics dump, which users attach to public issues, carries no secret: two entries
  that differ only in what stands under \<open>username\<close>, \<open>password\<close>, \<open>keys\<close>, \<open>aesKeyStr\<close>,
  \<open>unlockKey\<close> and \<open>adminPs\<close> (at any depth of the entry's data and options, and the title of an
  account entry, which is the account's name), and in any field of the stored keys other than
  \<open>lockId\<close>, \<open>lockMac\<close>, \<open>lockAlias\<close>, \<open>lockName\<close>, \<open>keyType\<close> and \<open>userType\<close>, produce the same dump.
\<close>

theorem diagnostics_redacted:
  assumes "redacts (dx_redact X)" and "same_public e e'"
  shows "config_entry_diagnostics X e = config_entry_diagnostics X e'"
proof -
  have names: "TO_REDACT = secret_names" "set SUMMARY_FIELDS \<subseteq> set public_key_fields"
    by (auto simp: TO_REDACT_def secret_names_def SUMMARY_FIELDS_def public_key_fields_def)
  have masked: "mask TO_REDACT (JDict (dg_data e)) = mask TO_REDACT (JDict (dg_data e'))"
      "mask TO_REDACT (JDict (dg_options e)) = mask TO_REDACT (JDict (dg_options e'))"
    and keys: "list_all2 same_key (dg_keys e) (dg_keys e')"
    using assms(2) unfolding same_public_def names by blast+
  have red: "dx_redact X TO_REDACT (JDict (dg_data e)) = dx_redact X TO_REDACT (JDict (dg_data e'))"
      "dx_redact X TO_REDACT (JDict (dg_options e)) = dx_redact X TO_REDACT (JDict (dg_options e'))"
    using assms(1) masked unfolding redacts_def by blast+
  have title: "redacted_title e = redacted_title e'"
    using assms(2) mask_same_names [OF masked(1)] by (auto simp: redacted_title_def same_public_def)
  have "list_all2 (\<lambda>k k'. summarize_key k = summarize_key k') (dg_keys e) (dg_keys e')"
    using keys by (rule list_all2_mono)
      (use names(2) in \<open>auto simp: same_key_def summarize_key_def list_all_iff intro!: pick_fields_cong\<close>)
  moreover have "list_all2 (\<lambda>k k'. key_mac k = key_mac k') (dg_keys e) (dg_keys e')"
    using keys by (rule list_all2_mono) (simp add: same_key_def public_key_fields_def key_mac_def)
  ultimately have maps: "map_raising summarize_key (dg_keys e) = map_raising summarize_key (dg_keys e')"
      "map_raising key_mac (dg_keys e) = map_raising key_mac (dg_keys e')"
    using map_raising_cong by blast+
  have plain: "dg_version e = dg_version e'" "dg_domain e = dg_domain e'" "dg_state e = dg_state e'" "dg_attempts e = dg_attempts e'"
    using assms(2) by (simp_all add: same_public_def)
  show ?thesis unfolding config_entry_diagnostics_def maps red title plain ..
qed

definition sample_diag_env :: diag_env where
  "sample_diag_env = \<lparr>dx_redact = mask, dx_last_info = (\<lambda>m. None), dx_decode = (\<lambda>c p. None)\<rparr>"

definition sample_stored :: "string \<Rightarrow> (string, json) dict" where
  "sample_stored aes = [(''lockId'', JInt 7), (''lockMac'', JStr ''AA''), (''lockAlias'', JStr ''Door''),
     (''lockName'', JStr ''Door''), (''aesKeyStr'', JStr aes), (''keyType'', JInt 1), (''userType'', JStr ''110301'')]"

definition sample_diag :: "string \<Rightarrow> string \<Rightarrow> diag_entry" where
  "sample_diag user aes = \<lparr>dg_title = user, dg_version = 1, dg_domain = ''ttlock_ble'',
     dg_data = [(''username'', JStr user), (''password'', JStr ''pw''), (''keys'', JList [JDict (sample_stored aes)])],
     dg_options = [], dg_keys = [sample_stored aes], dg_state = None, dg_attempts = []\<rparr>"

theorem diagnostics_redacted_witness:
  "config_entry_diagnostics sample_diag_env (sample_diag ''ann'' ''00'') = config_entry_diagnostics sample_diag_env (sample_diag ''bob'' ''FF'')
    \<and> dg_title (sample_diag ''ann'' ''00'') \<noteq> dg_title (sample_diag ''bob'' ''FF'')
    \<and> (case config_entry_diagnostics sample_diag_env (sample_diag ''ann'' ''00'') of Inl err \<Rightarrow> False
       | Inr p \<Rightarrow> dp_title p = REDACTED \<and> length (dp_locks p) = 1)"
proof -
  have red: "redacts (dx_redact sample_diag_env)" by (simp add: redacts_def sample_diag_env_def)
  have same: "same_public (sample_diag ''ann'' ''00'') (sample_diag ''bob'' ''FF'')" by code_simp
  have out: "case config_entry_diagnostics sample_diag_env (sample_diag ''ann'' ''00'') of Inl err \<Rightarrow> False
       | Inr p \<Rightarrow> dp_title p = REDACTED \<and> length (dp_locks p) = 1" by code_simp
  show ?thesis using diagnostics_redacted [OF red same] out by (simp add: sample_diag_def)
qed

end
