(* ===== verification/IntegrationSetup.thy ===== *)
theory IntegrationSetup
  imports ServiceRuns ManagementHttp
begin

section \<open>What the integration registers with Home Assistant (\_\_init\_\_.py, admin\_api.py, management\_http.py)\<close>

text \<open>
  \<open>async_setup\<close>: the service actions, the websocket command and the administration view with its
  panel. The registries are Home Assistant's; here they are what was registered with the flags the
  integration passes. A websocket message is answered as \<open>websocket_command\<close> and \<open>require_admin\<close>
  document it: by the schema first, then only for administrators.
\<close>

record http_view =
  vw_url :: string
  vw_requires_auth :: bool
  vw_cors_allowed :: bool

record admin_panel =
  ap_path :: string
  ap_component :: string
  ap_title :: string
  ap_icon :: string
  ap_module :: string
  ap_require_admin :: bool

record integration =
  ig_components :: "string list"
  ig_services :: service_registry
  ig_commands :: "string list"
  ig_views :: "http_view list"
  ig_static :: "(string \<times> string) list"
  ig_panels :: "admin_panel list"

definition websocket_type :: string where "websocket_type = ''ttlock_ble/access_capabilities''"

definition administration_view :: http_view where
  "administration_view = \<lparr>vw_url = ''/api/ttlock_ble/administration'', vw_requires_auth = True, vw_cors_allowed = False\<rparr>"

definition STATIC_URL :: string where "STATIC_URL = ''/ttlock-ble-admin/3.5.1.js''"

definition administration_panel :: admin_panel where
  "administration_panel = \<lparr>ap_path = ''ttlock-access'', ap_component = ''ttlock-access-panel'',
     ap_title = ''TTLock access'', ap_icon = ''mdi:key-chain'', ap_module = STATIC_URL, ap_require_admin = True\<rparr>"

definition setup_admin_api :: "integration \<Rightarrow> integration" where
  "setup_admin_api g = g\<lparr>ig_commands := ig_commands g @ [websocket_type]\<rparr>"

definition setup_management :: "integration \<Rightarrow> integration" where
  "setup_management g =
     (let g1 = g\<lparr>ig_views := ig_views g @ [administration_view]\<rparr> in
      if ''frontend'' \<notin> set (ig_components g1) then g1
      else g1\<lparr>ig_static := ig_static g1 @ [(STATIC_URL, ''frontend/administration.js'')],
        ig_panels := ig_panels g1 @ [administration_panel]\<rparr>)"

definition async_setup :: "integration \<Rightarrow> bool \<times> integration" where
  "async_setup g = (True, setup_management (setup_admin_api (g\<lparr>ig_services := setup_services (ig_services g)\<rparr>)))"

subsection \<open>The websocket command\<close>

datatype websocket_error = UnknownCommand | InvalidFormat | Unauthorized | HandlerError service_error

definition websocket_schema :: "(string, json) dict \<Rightarrow> string option" where
  "websocket_schema msg = (if schema_keys [''type'', ''device_id''] [''id''] msg
       \<and> dict_get msg ''type'' = Some (JStr websocket_type)
     then field plain_text msg ''device_id'' else None)"

definition websocket_message ::
  "integration \<Rightarrow> hass_view \<Rightarrow> (nat \<Rightarrow> 'w conn) \<Rightarrow> bool \<Rightarrow> (string, json) dict \<Rightarrow> websocket_error + (string, json) dict" where
  "websocket_message g h H admin msg =
     (if \<not> list_ex (\<lambda>t. dict_get msg ''type'' = Some (JStr t)) (ig_commands g) then Inl UnknownCommand
      else case websocket_schema msg of
        None \<Rightarrow> Inl InvalidFormat
      | Some device \<Rightarrow> if \<not> admin then Inl Unauthorized
        else (case websocket_capabilities h device (\<lambda>c. inventory_diagnostics (H c)) of
          Inl e \<Rightarrow> Inl (HandlerError e) | Inr resp \<Rightarrow> Inr resp))"

subsection \<open>The surfaces of an administrator\<close>

text \<open>
  After setup the new view demands a session and allows no other origin, the new panel is for
  administrators, the panel exists exactly when the frontend is loaded, the actions are those of
  the integration, and the command answers administrators only, about a lock that is loaded.
\<close>

lemma setup_surfaces:
  assumes "async_setup g = (ok, g')" and "ig_views g = []" and "ig_panels g = []"
  shows "ok \<and> list_all (\<lambda>v. vw_requires_auth v \<and> \<not> vw_cors_allowed v) (ig_views g')
    \<and> list_all ap_require_admin (ig_panels g') \<and> (ig_panels g' \<noteq> [] \<longleftrightarrow> ''frontend'' \<in> set (ig_components g))
    \<and> ig_services g' = setup_services (ig_services g)"
proof -
  have s: "ok" "g' = setup_management (setup_admin_api (g\<lparr>ig_services := setup_services (ig_services g)\<rparr>))"
    using assms(1) by (auto simp: async_setup_def)
  show ?thesis
    using assms(2,3) unfolding s(2)
    by (cases "''frontend'' \<in> set (ig_components g)")
      (simp_all add: s(1) setup_management_def setup_admin_api_def administration_view_def administration_panel_def)
qed

lemma capabilities_for_administrators:
  assumes "websocket_message g h H admin msg = Inr resp"
  shows "admin \<and> (\<exists>device conn. dict_get msg ''device_id'' = Some (JStr device)
    \<and> connection_for_device h device = Inr conn
    \<and> dict_get resp ''last_inventory'' = Some (JDict (inventory_diagnostics (H conn))))"
proof -
  from assms obtain device where d: "websocket_schema msg = Some device" and admin: admin
    and c: "websocket_capabilities h device (\<lambda>c. inventory_diagnostics (H c)) = Inr resp"
    by (auto simp: websocket_message_def split: if_splits option.splits sum.splits)
  from d have "dict_get msg ''device_id'' = Some (JStr device)"
    by (auto simp: websocket_schema_def field_def bind_eq_Some_conv split: if_splits elim!: plain_text.elims)
  with admin c show ?thesis by (auto simp: websocket_capabilities_def split: sum.splits)
qed

end
