(* ===== verification/ReleaseCheck.thy ===== *)
theory ReleaseCheck
  imports Prelude PyDict
begin

section \<open>Release validation (scripts/validate\_release.py)\<close>

text \<open>
  The build script that compares the versions of a release before its archive is published. The
  files are given as the values \<open>json.loads\<close> and \<open>tomllib.loads\<close> return for them, the archive as
  its list of names and the value of its \<open>manifest.json\<close>.
\<close>

record release_files =
  rf_manifest :: json
  rf_project :: json
  rf_release :: json
  rf_lock :: json

record install_archive =
  ia_names :: "string list"
  ia_manifest :: json

definition type_error :: exn where "type_error = OtherErr ''TypeError''"
definition stop_iteration :: exn where "stop_iteration = OtherErr ''StopIteration''"

text \<open>\<open>value[key]\<close> for a text as key\<close>

fun json_item :: "json \<Rightarrow> string \<Rightarrow> exn + json" where
  "json_item (JDict d) k = (case dict_get d k of None \<Rightarrow> Inl (KeyErr k) | Some v \<Rightarrow> Inr v)"
| "json_item _ k = Inl type_error"

definition json_path :: "json \<Rightarrow> string \<Rightarrow> string \<Rightarrow> exn + json" where
  "json_path j k l = (case json_item j k of Inl e \<Rightarrow> Inl e | Inr v \<Rightarrow> json_item v l)"

text \<open>What a \<open>for\<close> loop over a value yields.\<close>

fun json_elements :: "json \<Rightarrow> exn + json list" where
  "json_elements (JList xs) = Inr xs"
| "json_elements (JDict d) = Inr (map (JStr \<circ> fst) d)"
| "json_elements (JStr s) = Inr (map (\<lambda>c. JStr [c]) s)"
| "json_elements _ = Inl type_error"

text \<open>Python's \<open>==\<close>: a truth value equals the number 0 or 1.\<close>

fun scalar :: "json \<Rightarrow> json" where
  "scalar (JBool b) = JInt (if b then 1 else 0)"
| "scalar j = j"

text \<open>The generator under \<open>next\<close>: the project's name is looked up again for every package.\<close>

fun locked_version :: "json \<Rightarrow> json list \<Rightarrow> exn + json" where
  "locked_version project [] = Inl stop_iteration"
| "locked_version project (p # ps) = (case json_item p ''name'' of
     Inl e \<Rightarrow> Inl e
   | Inr name \<Rightarrow> (case json_path project ''project'' ''name'' of
       Inl e \<Rightarrow> Inl e
     | Inr own \<Rightarrow> if scalar name = scalar own then json_item p ''version'' else locked_version project ps))"

definition lock_version :: "release_files \<Rightarrow> exn + json" where
  "lock_version F = (case json_item (rf_lock F) ''package'' of
     Inl e \<Rightarrow> Inl e
   | Inr ps \<Rightarrow> (case json_elements ps of Inl e \<Rightarrow> Inl e | Inr xs \<Rightarrow> locked_version (rf_project F) xs))"

text \<open>The dict \<open>versions\<close>, built in the order of the code; the first error ends it.\<close>

fun collect_versions :: "(string \<times> (exn + json)) list \<Rightarrow> exn + (string, json) dict" where
  "collect_versions [] = Inr []"
| "collect_versions ((k, r) # xs) = (case r of
     Inl e \<Rightarrow> Inl e
   | Inr v \<Rightarrow> (case collect_versions xs of Inl e \<Rightarrow> Inl e | Inr d \<Rightarrow> Inr ((k, v) # d)))"

definition source_versions :: "release_files \<Rightarrow> string \<Rightarrow> exn + (string, json) dict" where
  "source_versions F version = collect_versions
     [(''tag'', Inr (JStr version)),
      (''source manifest'', json_item (rf_manifest F) ''version''),
      (''project'', json_path (rf_project F) ''project'' ''version''),
      (''release metadata'', json_item (rf_release F) ''.''),
      (''lock project'', lock_version F)]"

definition starts_with :: "string \<Rightarrow> string \<Rightarrow> bool" where
  "starts_with p s \<longleftrightarrow> take (length p) s = p"

definition archive_files :: "install_archive \<Rightarrow> string list" where
  "archive_files a = filter (\<lambda>name. name = [] \<or> last name \<noteq> CHR ''/'') (ia_names a)"

definition archive_at_root :: "install_archive \<Rightarrow> bool" where
  "archive_at_root a \<longleftrightarrow> ''manifest.json'' \<in> set (archive_files a)
     \<and> \<not> list_ex (\<lambda>name. starts_with ''custom_components/'' name \<or> starts_with ''ttlock_ble/'' name) (archive_files a)"

definition archive_versions :: "install_archive option \<Rightarrow> (string, json) dict \<Rightarrow> exn + (string, json) dict" where
  "archive_versions archive versions = (case archive of
     None \<Rightarrow> Inr versions
   | Some a \<Rightarrow>
       if \<not> archive_at_root a then Inl (ValueErr ''Install ZIP must contain integration files at its root'')
       else (case json_item (ia_manifest a) ''version'' of
         Inl e \<Rightarrow> Inl e | Inr v \<Rightarrow> Inr (versions @ [(''ZIP manifest'', v)])))"

fun unhashable :: "json \<Rightarrow> bool" where
  "unhashable (JList xs) = True"
| "unhashable (JDict d) = True"
| "unhashable _ = False"

fun version_text :: "json \<Rightarrow> string" where
  "version_text (JStr s) = s"
| "version_text (JInt n) = int_str n"
| "version_text (JBool b) = (if b then ''True'' else ''False'')"
| "version_text _ = ''None''"

fun join_text :: "string list \<Rightarrow> string" where
  "join_text [] = []"
| "join_text [x] = x"
| "join_text (x # xs) = x @ '', '' @ join_text xs"

definition mismatch :: "(string, json) dict \<Rightarrow> exn" where
  "mismatch versions = ValueErr (''Release version mismatch: ''
     @ join_text (map (\<lambda>(source, v). source @ ''='' @ version_text v) versions))"

text \<open>\<open>len(set(versions.values())) != 1\<close>; a list or dict among them raises.\<close>

definition agreed :: "(string, json) dict \<Rightarrow> exn + bool" where
  "agreed versions = (if list_ex unhashable (map snd versions) then Inl type_error
     else Inr (card (set (map (scalar \<circ> snd) versions)) = 1))"

definition validate_release :: "release_files \<Rightarrow> string \<Rightarrow> install_archive option \<Rightarrow> exn + string" where
  "validate_release F tag archive =
     (if \<not> starts_with ''v'' tag \<or> drop 1 tag = [] then Inl (ValueErr ''Release tag must be v followed by the project version'')
      else case source_versions F (drop 1 tag) of
        Inl e \<Rightarrow> Inl e
      | Inr versions \<Rightarrow> (case archive_versions archive versions of
          Inl e \<Rightarrow> Inl e
        | Inr versions \<Rightarrow> (case agreed versions of
            Inl e \<Rightarrow> Inl e
          | Inr ok \<Rightarrow> if ok then Inr (drop 1 tag) else Inl (mismatch versions))))"

text \<open>\<open>main\<close>: the exit code and the line it prints; an exception it does not catch stays one.\<close>

definition release_main :: "release_files \<Rightarrow> string \<Rightarrow> install_archive option \<Rightarrow> exn + nat \<times> string" where
  "release_main F tag archive = (case validate_release F tag archive of
     Inr version \<Rightarrow> Inr (0, ''Release versions agree: '' @ version)
   | Inl e \<Rightarrow> (case e of
       ValueErr msg \<Rightarrow> Inr (1, msg)
     | KeyErr k \<Rightarrow> Inr (1, [CHR 39] @ k @ [CHR 39])
     | _ \<Rightarrow> if e = stop_iteration then Inr (1, []) else Inl e))"

subsection \<open>What an accepted release is\<close>

lemma collect_versions_sound: "collect_versions xs = Inr d \<Longrightarrow> xs = map (\<lambda>(k, v). (k, Inr v)) d"
proof (induction xs arbitrary: d)
  case (Cons x xs)
  obtain k r where x: "x = (k, r)" by force
  from Cons.prems x obtain v where v: "r = Inr v" by (cases r) simp_all
  from Cons.prems x v obtain d' where d': "collect_versions xs = Inr d'" "d = (k, v) # d'"
    by (cases "collect_versions xs") simp_all
  from Cons.IH [OF d'(1)] d'(2) v x show ?case by simp
qed simp

lemma collect_versions_complete: "collect_versions (map (\<lambda>(k, v). (k, Inr v)) d) = Inr d"
  by (induction d) (auto split: prod.split)

lemma collect_versions_iff: "collect_versions xs = Inr d \<longleftrightarrow> xs = map (\<lambda>(k, v). (k, Inr v)) d"
  using collect_versions_sound collect_versions_complete by blast

lemma card_one_subset: "x \<in> A \<Longrightarrow> card A = 1 \<Longrightarrow> A \<subseteq> {x}"
  by (metis card_1_singletonE singletonD subset_refl)

lemma only_member: "x \<in> A \<Longrightarrow> \<forall>y\<in>A. y = x \<Longrightarrow> A = {x}"
  by blast

lemma set_constant: "x \<in> A \<Longrightarrow> card A = 1 \<longleftrightarrow> (\<forall>y\<in>A. y = x)"
proof (rule iffI)
  assume "x \<in> A" and "card A = 1"
  from card_one_subset [OF this] show "\<forall>y\<in>A. y = x" by (meson singletonD subsetD)
next
  assume "x \<in> A" and "\<forall>y\<in>A. y = x"
  from only_member [OF this] show "card A = 1" by simp
qed

lemma scalar_text: "scalar j = JStr s \<longleftrightarrow> j = JStr s"
  by (cases j) simp_all

lemma agreed_text:
  assumes "versions = (''tag'', JStr version) # rest_versions"
  shows "agreed versions = Inr True \<longleftrightarrow> (\<forall>v\<in>snd ` set versions. v = JStr version)"
proof -
  have "JStr version \<in> set (map (scalar \<circ> snd) versions)" by (simp add: assms)
  note one = set_constant [OF this]
  have "\<not> list_ex unhashable (map snd versions)" if "\<forall>v\<in>snd ` set versions. v = JStr version"
    using that by (auto simp: list_ex_iff)
  with one show ?thesis unfolding agreed_def by (auto simp: scalar_text)
qed

text \<open>
  The check accepts exactly the consistent releases: the tag is \<open>v\<close> followed by a version, and the
  source manifest, the project, the release metadata, the project's own entry of the lock file
  and, if an archive is given, the manifest at the root of that archive all carry this version as
  text.
\<close>

lemma release_accepted_iff:
  "validate_release F tag archive = Inr version \<longleftrightarrow>
     tag = ''v'' @ version \<and> version \<noteq> []
     \<and> json_item (rf_manifest F) ''version'' = Inr (JStr version)
     \<and> json_path (rf_project F) ''project'' ''version'' = Inr (JStr version)
     \<and> json_item (rf_release F) ''.'' = Inr (JStr version)
     \<and> lock_version F = Inr (JStr version)
     \<and> (\<forall>a. archive = Some a \<longrightarrow> archive_at_root a \<and> json_item (ia_manifest a) ''version'' = Inr (JStr version))"
proof -
  have tag: "\<not> (\<not> starts_with ''v'' tag \<or> drop 1 tag = []) \<and> drop 1 tag = version \<longleftrightarrow> tag = ''v'' @ version \<and> version \<noteq> []"
    by (cases tag) (auto simp: starts_with_def)
  have accepted: "validate_release F tag archive = Inr version \<longleftrightarrow>
      (tag = ''v'' @ version \<and> version \<noteq> []) \<and> (\<exists>d d'. source_versions F version = Inr d
        \<and> archive_versions archive d = Inr d' \<and> agreed d' = Inr True)"
    unfolding tag [symmetric] validate_release_def by (auto split: sum.splits if_splits)
  show ?thesis
  proof (cases "json_item (rf_manifest F) ''version''"; cases "json_path (rf_project F) ''project'' ''version''";
      cases "json_item (rf_release F) ''.''"; cases "lock_version F")
  qed (auto simp: accepted source_versions_def archive_versions_def agreed_text split: option.splits sum.splits)
qed

end
