(* ===== verification/Spec2Isabelle.thy ===== *)
theory Spec2Isabelle
  imports ServiceRunProps AdminRuns AccessIdentity PollRuns ConnProtocol LockProps Dispatch ConfigForms
    ConfigProps EntryProps EntityProps IntegrationSetup ReleaseCheck
begin

text \<open>
  \<^bold>\<open>A model of the TTLock BLE integration for Home Assistant\<close>
  (custom\_components/ttlock\_ble, Python).

  The program connects Home Assistant to locks that allow one Bluetooth session at a time and
  cannot undo a bolt command. What makes it correct is mostly what it does when something goes
  wrong: a command whose acknowledgement was lost, a session that may not be closed, a
  cancellation at the worst moment, two tasks that overtake one another, private metadata that
  must neither be lost nor leak.

  \<^bold>\<open>Parts and how they interact.\<close> A config flow (config\_flow.py, api.py, manual\_key.py) creates
  config entries, each with the keys of some locks. Setting up an entry (\_\_init\_\_.py) makes one
  connection per lock (connection.py, over the SDK client wrapped by client.py), one coordinator
  (coordinator.py, fed by advertisement.py), the operation-log history (log\_history.py) and the
  private access records (access\_records.py, credential\_references.py). Entities (lock.py,
  sensor.py, binary\_sensor.py, event.py, entity.py) show what the coordinator and the connections
  publish; the lock entity sends commands to its connection. Service actions (services.py), the
  administration endpoint (management\_http.py, admin\_api.py) and diagnostics (diagnostics.py)
  are the ways in and out for users.

  \<^bold>\<open>Theories, in the order of import.\<close>
  \<^item> \<open>Prelude\<close>: exceptions (\<open>exn\<close>), state-passing effects (\<open>eff\<close>, \<open>m_bind\<close>, \<open>m_catch\<close>,
    \<open>m_finally\<close>) and the rules to reason about them (\<open>triple\<close>); \<open>PyStr\<close>, \<open>PyDict\<close>, \<open>Sha256\<close>:
    what is used of Python's str, bytes, dict, deque, json, hashlib and hmac.
  \<^item> \<open>LogHistory\<close> (log\_history.py) with the locale \<open>journal\<close>; \<open>LogEvents\<close> (event.py);
    \<open>LogPipeline\<close> and \<open>LogRuns\<close>: the log over successive fetches, restarts and sessions.
  \<^item> \<open>ControlClient\<close> (client.py): the phases of one bolt command and what its outcome says.
  \<^item> \<open>ConnState\<close>, \<open>ConnCleanup\<close>, \<open>ConnAcquire\<close>, \<open>ConnOps\<close>, \<open>ConnControl\<close>, \<open>ConnInventory\<close>
    (connection.py): state and interference, owned teardown (locale \<open>teardown\<close>), acquisition,
    operations and life cycle, bolt control, inventory reads (data in \<open>InventoryData\<close>).
    \<open>ConnProps\<close> has their properties, \<open>ConnProtocol\<close> the protocol their calls keep to.
    \<open>House\<close> puts the connections of all locks together;
    its locale \<open>house_steps\<close> is the contract of every way to use them.
  \<^item> \<open>CredentialReferences\<close> (credential\_references.py), \<open>AccessRecords\<close> (access\_records.py) with
    \<open>AccessProps\<close>, \<open>AccessLabels\<close> and \<open>AccessIdentity\<close> (a label over a restart).
  \<^item> \<open>Coordinator\<close> (coordinator.py, advertisement.py) with \<open>CoordProps\<close>; \<open>LockEntity\<close> (lock.py,
    entity.py) with \<open>LockProps\<close>; \<open>PollRuns\<close>: a refresh together with the connections it polls.
  \<^item> \<open>Services\<close> (services.py, access.py, admin\_api.py) with \<open>ServiceProps\<close>; \<open>ServiceRuns\<close> and
    \<open>ServiceRunProps\<close>: schemas, registration and whole calls on the connections.
    \<open>ManagementHttp\<close> (management\_http.py) with \<open>ManagementProps\<close>; \<open>AdminRuns\<close>: an
    administrative read together with the connection it reads. \<open>IntegrationSetup\<close>: what is
    registered with Home Assistant, and the websocket command.
  \<^item> \<open>ManualKey\<close> (manual\_key.py) with \<open>ManualKeyProps\<close>; \<open>ConfigFlow\<close> (config\_flow.py, api.py)
    with \<open>ConfigProps\<close>; \<open>ConfigForms\<close>: the forms it shows and what they return.
  \<^item> \<open>EntrySetup\<close> (\_\_init\_\_.py, options\_flow.py) with \<open>EntryProps\<close>; \<open>Entities\<close> (sensor.py,
    binary\_sensor.py, entity.py, diagnostics.py) with \<open>EntityProps\<close>; \<open>Dispatch\<close>: the signals
    of a connection and the entities of all platforms that hear them.
  \<^item> \<open>ReleaseCheck\<close> (scripts/validate\_release.py): when a release is accepted.

  \<^bold>\<open>State and operations.\<close> An object of the program is a record with the names of its attributes
  (\<open>conn\<close> is \<open>TtlockBleConnection\<close>, \<open>coord\<close> the coordinator, \<open>lock_entity\<close> the entity,
  \<open>access_store\<close> the record store, \<open>log_history\<close> the history); a method is a definition of the
  same name over it. What the program does not decide itself is an environment with a world it
  may read and change: the SDK and Bluetooth (\<open>env\<close>), storage (\<open>store_env\<close>), the cloud
  (\<open>cloud_env\<close>), Home Assistant's registries and parsers (\<open>hass_view\<close>, \<open>form_env\<close>, \<open>web_env\<close>).
  Every exception, early return and cancellation is a branch. Concurrency is explicit: where a
  coroutine waits, the environment says which other callbacks and tasks ran meanwhile
  (\<open>interf\<close>, \<open>store_event\<close>, \<open>wake\<close>), the coordinator is a list of events (\<open>coord_event\<close>) with
  unfinished refreshes as part of its state, and histories of a connection, of the coordinator and
  entity and of the config flows are inductive (\<open>conn_reach\<close>, \<open>coord_reach\<close>, \<open>home_reach\<close>,
  \<open>flow_reach\<close>).

  \<^bold>\<open>What is shown.\<close>
  \<^item> Bolt commands: a request writes the command at most once on every path, a normal return
    means it was confirmed, an exception says exactly whether a control frame may have been
    written, and after the first write a cancellation no longer changes anything.
  \<^item> The one session of a lock: the calls of every history are a run of an automaton that allows
    one client at a time, at most one client is owned, a client whose
    teardown is uncertain is kept and blocks a second one, acquisition is bounded, stopping and
    unloading release everything or say that they could not.
  \<^item> State: the coordinator refines a register per lock that keeps the newest authoritative
    observation, whatever the order in which polls, commands and advertisements arrive; the
    entity keeps a commanded state for its settle window and is transitional exactly while a
    command runs; the retry loop for unknown locks ends.
  \<^item> Histories and metadata: no replayed log record after a restart, complete and sound
    classification, stored data that loads again, references that stay stable, overtaken reads
    without effect.
  \<^item> Compositions: over any history of operations, service calls and callbacks a bolt moves only
    when its own lock was asked to; a PIN action (the very PIN, type and window of the call),
    an inventory action and an administrative read followed down to the connection; a refresh over all connections that gives each lock what its
    own poll alone gives; operation records followed from the fetch through restarts
    and the dispatcher to the events they fire; forms followed through flow, key and back.
  \<^item> Boundaries: what a service action, an administrator, a config flow, the inventory response
    and the diagnostics may do or reveal.

  \<^bold>\<open>Bounds and partiality.\<close> The reconnect loop runs for ever by design: it is given by its round
  and a number of rounds, and its lemmas hold for every number. The bootstrap retry loop is a
  partial function, so that its return is a theorem. \<open>ConnAcquire\<close> follows the attempts of
  one acquisition with a decreasing measure; nothing else recurses except over data. Integers are
  Python's unbounded ones; the words of SHA-256 are 32 bits wide. Times are rational numbers.

  \<^bold>\<open>Not modelled.\<close> The SDK (ttlock\_ble), Home Assistant and the Bluetooth stack are
  environments, as they are not part of this repository. The dispatcher of Home Assistant, the
  selectors of its forms, the coercions of its schemas and the redaction of its diagnostics are
  parameters with their documented behaviour as hypotheses. While a task waits for the lock of
  the private store, the other tasks' tickets, resets, removals, names and settings are modelled;
  their reconciliations are not (\<open>AccessRecords\<close> says why). Log output, labels and translations have no effect on what is stated
  here. The typed dictionaries of data/ have no behaviour, and the administration panel is
  JavaScript. A step of a config flow, and the stopping of one connection, are single
  transitions; the interleavings inside them that matter are those of the connection.

  \<^bold>\<open>Where code and intent part.\<close> Lemmas named in the theories show: a log fetch that escapes
  shutdown (\<open>CoordProps\<close>), readings inside the settle window that come back after it and a raw
  state shown differently by two parts (\<open>LockProps\<close>), PINs and unlock keys of characters that are
  no decimal digits, an accepted window that is empty for the lock, a comparison that raises
  (\<open>ServiceProps\<close>), AES keys of 15 bytes (\<open>ManualKeyProps\<close>), and locks that stay connected when
  an earlier one cannot be stopped (\<open>EntryProps\<close>).
\<close>

end
